theory Spec2Isabelle
  imports Main "HOL-Library.Sublist"
begin

section \<open>Strings as Python handles them\<close>

text \<open>
  A Python \<open>str\<close> is a \<open>string\<close> (a list of characters). The line feed that the
  writers append is the character with code 10.
\<close>

abbreviation NL :: string where
  "NL \<equiv> [CHR 0x0A]"

text \<open>\<open>sep.join(xs)\<close>.\<close>

fun join :: "string \<Rightarrow> string list \<Rightarrow> string" where
  "join sep [] = []"
| "join sep [x] = x"
| "join sep (x # y # ys) = x @ sep @ join sep (y # ys)"

text \<open>\<open>str.lower()\<close> and \<open>str.upper()\<close> on the ASCII letters.\<close>

definition lower_char :: "char \<Rightarrow> char" where
  "lower_char c =
     (let n = (of_char c :: nat) in if 65 \<le> n \<and> n \<le> 90 then char_of (n + 32) else c)"

definition upper_char :: "char \<Rightarrow> char" where
  "upper_char c =
     (let n = (of_char c :: nat) in if 97 \<le> n \<and> n \<le> 122 then char_of (n - 32) else c)"

definition lower :: "string \<Rightarrow> string" where
  "lower s = map lower_char s"

definition upper :: "string \<Rightarrow> string" where
  "upper s = map upper_char s"

text \<open>
  \<open>re.sub(r" +", " ", s)\<close>: every maximal run of blanks becomes one blank.
\<close>

fun collapse_spaces :: "string \<Rightarrow> string" where
  "collapse_spaces [] = []"
| "collapse_spaces [c] = [c]"
| "collapse_spaces (c # d # s) =
     (if c = CHR '' '' \<and> d = CHR '' '' then collapse_spaces (d # s)
      else c # collapse_spaces (d # s))"

text \<open>
  \<open>s.replace(old, new)\<close>: the occurrences of \<open>old\<close> are replaced from the left,
  without overlap; an empty \<open>old\<close> matches before every character and at the end.
\<close>

fun replace_from :: "nat \<Rightarrow> string \<Rightarrow> string \<Rightarrow> string \<Rightarrow> string" where
  "replace_from skip old new [] = []"
| "replace_from skip old new (c # s) =
     (if 0 < skip then replace_from (skip - 1) old new s
      else if prefix old (c # s) then new @ replace_from (length old - 1) old new s
      else c # replace_from 0 old new s)"

definition replace :: "string \<Rightarrow> string \<Rightarrow> string \<Rightarrow> string" where
  "replace s old new =
     (if old = [] then new @ concat (map (\<lambda>c. c # new) s)
      else replace_from 0 old new s)"

section \<open>Paths and the file system\<close>

text \<open>
  A \<open>pathlib.Path\<close> is the list of its parts; the first part of an absolute path is
  \<open>''/''\<close>. The store is keyed by this spelling of a path: neither \<open>..\<close> nor a
  symbolic link is interpreted.
\<close>

type_synonym path = "string list"

fun split_char :: "char \<Rightarrow> string \<Rightarrow> string list" where
  "split_char c [] = [[]]"
| "split_char c (x # xs) =
     (if x = c then [] # split_char c xs
      else (case split_char c xs of
              [] \<Rightarrow> [[x]]
            | y # ys \<Rightarrow> (x # y) # ys))"

text \<open>The parts that \<open>pathlib\<close> reads out of a string: empty parts and \<open>.\<close> drop out.\<close>

definition path_parts :: "string \<Rightarrow> string list" where
  "path_parts s = filter (\<lambda>p. p \<noteq> [] \<and> p \<noteq> ''.'') (split_char (CHR ''/'') s)"

text \<open>\<open>p / s\<close>: a string that starts with a slash replaces \<open>p\<close>.\<close>

definition pjoin :: "path \<Rightarrow> string \<Rightarrow> path" where
  "pjoin p s =
     (case s of
        [] \<Rightarrow> p
      | c # _ \<Rightarrow> if c = CHR ''/'' then ''/'' # path_parts s else p @ path_parts s)"

text \<open>\<open>str(p)\<close>.\<close>

definition str_path :: "path \<Rightarrow> string" where
  "str_path p =
     (case p of
        [] \<Rightarrow> ''.''
      | a # ps \<Rightarrow> if a = ''/'' then ''/'' @ join ''/'' ps else join ''/'' (a # ps))"

datatype node = File string | Dir

type_synonym fs = "path \<Rightarrow> node option"

datatype py_error =
    FileNotFoundError
  | FileExistsError
  | NotADirectoryError
  | IsADirectoryError
  | OSError
  | KeyError
  | ValueError

text \<open>The working directory \<open>[]\<close> and the root are directories of every store.\<close>

definition is_dir :: "fs \<Rightarrow> path \<Rightarrow> bool" where
  "is_dir f p = (p = [] \<or> p = [''/''] \<or> f p = Some Dir)"

definition exists :: "fs \<Rightarrow> path \<Rightarrow> bool" where
  "exists f p = (is_dir f p \<or> f p \<noteq> None)"

text \<open>What is left of a store when \<open>p\<close> and everything below it is gone.\<close>

definition wipe :: "path \<Rightarrow> (path \<Rightarrow> 'a option) \<Rightarrow> path \<Rightarrow> 'a option" where
  "wipe p f = (\<lambda>q. if prefix p q then None else f q)"

text \<open>
  \<open>shutil.rmtree(p)\<close>: the working directory and the root cannot be removed, and a
  path that is no directory raises.
\<close>

definition rmtree :: "fs \<Rightarrow> path \<Rightarrow> py_error + fs" where
  "rmtree f p =
     (if p = [] \<or> p = [''/''] then Inl OSError
      else if f p = Some Dir then Inr (wipe p f)
      else if f p = None then Inl FileNotFoundError
      else Inl NotADirectoryError)"

text \<open>
  \<open>p.mkdir()\<close> and \<open>p.mkdir(exist_ok=True)\<close>, both with \<open>parents=False\<close>: the
  directory above \<open>p\<close> has to be there.
\<close>

definition mkdir :: "fs \<Rightarrow> path \<Rightarrow> bool \<Rightarrow> py_error + fs" where
  "mkdir f p exist_ok =
     (if is_dir f p then (if exist_ok then Inr f else Inl FileExistsError)
      else if f p \<noteq> None then Inl FileExistsError
      else if is_dir f (butlast p) then Inr (f(p \<mapsto> Dir))
      else if f (butlast p) = None then Inl FileNotFoundError
      else Inl NotADirectoryError)"

text \<open>
  \<open>open(p, "w")\<close> followed by one write, and \<open>p.write_text(s)\<close>: the file is created or
  truncated, in a directory that exists.
\<close>

definition write_text :: "fs \<Rightarrow> path \<Rightarrow> string \<Rightarrow> py_error + fs" where
  "write_text f p s =
     (if is_dir f p then Inl IsADirectoryError
      else if is_dir f (butlast p) then Inr (f(p \<mapsto> File s))
      else if f (butlast p) = None then Inl FileNotFoundError
      else Inl NotADirectoryError)"

section \<open>Tables and what lies outside the writers\<close>

text \<open>
  A \<open>pandas.DataFrame\<close> is its column names and its rows; a row gives every column its
  value. The type \<open>'v\<close> is the type of the Python values held in cells and in the
  fields of an element.
\<close>

record 'v frame =
  columns :: "string list"
  rows :: "(string \<Rightarrow> 'v) list"

text \<open>\<open>frame.empty\<close>: no row or no column.\<close>

definition empty :: "'v frame \<Rightarrow> bool" where
  "empty fr = (rows fr = [] \<or> columns fr = [])"

text \<open>\<open>frame[cols]\<close>: a column that the frame lacks raises.\<close>

definition select_columns :: "'v frame \<Rightarrow> string list \<Rightarrow> py_error + 'v list list" where
  "select_columns fr cols =
     (if list_all (\<lambda>c. c \<in> set (columns fr)) cols
      then Inr (map (\<lambda>r. map r cols) (rows fr))
      else Inl KeyError)"

text \<open>
  A cell of the frame that \<open>write_timeseries_ertobs\<close> prints: a value as it came, or the
  text the function made of it.
\<close>

datatype 'v dcell = Raw 'v | Txt string

text \<open>
  The behaviour the writers take from Python, pandas, the operating system and the
  modules of the package that they import:
  \<^item> \<open>py_str\<close>: \<open>str(v)\<close>, which an f-string and \<open>astype(str)\<close> apply to a value;
  \<^item> \<open>csv_field\<close>: the text \<open>DataFrame.to_csv\<close> writes for one cell;
  \<^item> \<open>to_string\<close>: \<open>DataFrame.to_string(header=False, index=False)\<close>;
  \<^item> \<open>inactive\<close>: the row predicate of \<open>inactivate_rows\<close>;
  \<^item> \<open>check_and_fix_str\<close>: the sanitiser of \<open>_utilities\<close>;
  \<^item> \<open>resolve\<close>: \<open>Path.resolve()\<close>;
  \<^item> \<open>user\<close>: the login name; \<open>now n\<close>: the formatted clock at its \<open>n\<close>-th reading.
\<close>

record 'v env =
  py_str :: "'v \<Rightarrow> string"
  csv_field :: "'v \<Rightarrow> string"
  to_string :: "'v dcell list list \<Rightarrow> string"
  inactive :: "(string \<Rightarrow> 'v) \<Rightarrow> bool"
  check_and_fix_str :: "'v \<Rightarrow> string"
  resolve :: "path \<Rightarrow> path"
  user :: string
  now :: "nat \<Rightarrow> string"

text \<open>
  Modelled from the spec: \<open>inactivate_rows\<close> is defined in \<open>_utilities\<close>, which is not
  among the sources. The spec calls the exclusion of inactive measurements a row
  predicate: the rows that carry the sentinel are dropped, the others are kept in
  their order.
\<close>

definition inactivate_rows :: "((string \<Rightarrow> 'v) \<Rightarrow> bool) \<Rightarrow> 'v frame \<Rightarrow> 'v frame" where
  "inactivate_rows inact fr = fr\<lparr>rows := filter (\<lambda>r. \<not> inact r) (rows fr)\<rparr>"

text \<open>
  \<open>frame.to_csv(stream, index=False, header=False, sep=" ")\<close>: one line per row, the
  cells separated by one blank.
\<close>

definition to_csv :: "('v \<Rightarrow> string) \<Rightarrow> 'v list list \<Rightarrow> string" where
  "to_csv cf rs = concat (map (\<lambda>r. join '' '' (map cf r) @ NL) rs)"

definition write_csv_with_comment :: "'v env \<Rightarrow> fs \<Rightarrow> path \<Rightarrow> 'v list list \<Rightarrow> py_error + fs" where
  "write_csv_with_comment e f file_path rs = write_text f file_path (to_csv (csv_field e) rs)"

section \<open>The declarations of one well\<close>

record 'v rft_element =
  well_name :: 'v
  date :: 'v
  restart :: 'v
  data :: "'v frame"

definition create_rft_ertobs_str :: "'v env \<Rightarrow> 'v rft_element \<Rightarrow> string \<Rightarrow> path \<Rightarrow> string" where
  "create_rft_ertobs_str e element prfx obs_file =
     ''GENERAL_OBSERVATION '' @ py_str e (well_name element) @ ''_'' @ prfx @ ''_OBS ''
     @ ''{''
     @ ''DATA='' @ py_str e (well_name element) @ ''_'' @ prfx @ ''_SIM;''
     @ '' RESTART = '' @ py_str e (restart element) @ ''; ''
     @ ''OBS_FILE = '' @ str_path obs_file
     @ '';};'' @ NL"

definition create_rft_gendata_str :: "'v env \<Rightarrow> 'v rft_element \<Rightarrow> string \<Rightarrow> string \<Rightarrow> string" where
  "create_rft_gendata_str e element prfx outfolder_name =
     (let separator_string = (if prfx = ''PRESSURE'' then ''_'' else ''_'' @ prfx @ ''_'')
      in ''GEN_DATA '' @ py_str e (well_name element) @ ''_'' @ prfx @ ''_SIM ''
         @ ''RESULT_FILE:'' @ outfolder_name @ ''/RFT'' @ separator_string
         @ py_str e (well_name element) @ ''_%d''
         @ '' REPORT_STEPS:'' @ py_str e (restart element) @ NL)"

section \<open>Time stamps and the time series declarations\<close>

definition add_time_stamp :: "'v env \<Rightarrow> nat \<Rightarrow> string \<Rightarrow> string \<Rightarrow> string \<Rightarrow> string" where
  "add_time_stamp e n string record_type comment_mark =
     (let ctime = now e n;
          type_str = (if record_type = ''f'' then ''file'' else ''folder'');
          time_stamped =
            comment_mark @ ''This '' @ type_str @ '' is autogenerated by '' @ user e
            @ '' running genertobs_unstable at '' @ ctime @ NL;
          time_stamped =
            time_stamped @ comment_mark @ '' DO NOT EDIT THIS '' @ upper type_str
            @ '' MANUALLY!'' @ NL
      in time_stamped @ string)"

record 'v summary_element =
  vector :: 'v
  vector_data :: "'v frame"

text \<open>
  The body of the loop of \<open>write_timeseries_ertobs\<close>: the rows of one element, with the
  columns \<open>class, label, value, error, date, key\<close>.
\<close>

definition ertobs_rows :: "'v env \<Rightarrow> 'v summary_element \<Rightarrow> py_error + 'v dcell list list" where
  "ertobs_rows e element =
     (let key = vector element;
          obs_frame = inactivate_rows (inactive e) (vector_data element)
      in if list_all (\<lambda>c. c \<in> set (columns obs_frame)) [''label'', ''value'', ''error'', ''date'']
         then Inr (map (\<lambda>r. [Txt ''SUMMARY_OBSERVATION'',
                              Raw (r ''label''),
                              Txt (''{VALUE='' @ py_str e (r ''value'') @ '';''),
                              Txt (''ERROR='' @ py_str e (r ''error'') @ '';''),
                              Txt (''DATE='' @ py_str e (r ''date'') @ '';''),
                              Txt (''KEY='' @ py_str e key @ '';};'')])
                   (rows obs_frame))
         else Inl KeyError)"

fun timeseries_frames :: "'v env \<Rightarrow> 'v summary_element list \<Rightarrow> py_error + 'v dcell list list list" where
  "timeseries_frames e [] = Inr []"
| "timeseries_frames e (element # rest) =
     (case ertobs_rows e element of
        Inl err \<Rightarrow> Inl err
      | Inr obs_frame \<Rightarrow>
          (case timeseries_frames e rest of
             Inl err \<Rightarrow> Inl err
           | Inr obs_frames \<Rightarrow> Inr (obs_frame # obs_frames)))"

text \<open>\<open>pd.concat\<close> of no frame raises.\<close>

definition write_timeseries_ertobs :: "'v env \<Rightarrow> 'v summary_element list \<Rightarrow> py_error + string" where
  "write_timeseries_ertobs e obs_dict =
     (case timeseries_frames e obs_dict of
        Inl err \<Rightarrow> Inl err
      | Inr obs_frames \<Rightarrow>
          if obs_frames = [] then Inl ValueError
          else Inr (collapse_spaces (to_string e (concat obs_frames)) @ NL))"

section \<open>The files of the wells\<close>

definition GENDATA_RFT_EXPLAINER :: string where
  "GENDATA_RFT_EXPLAINER =
     ''-------------------------'' @ NL
     @ ''-- GENDATA_RFT  -- Create files with simulated rft pressure'' @ NL
     @ ''-------------------------'' @ NL
     @ ''-- ERT doc: https://fmu-docs.equinor.com/docs/ert/reference/forward_models.html#GENDATA_RFT'' @ NL
     @ NL"

definition GENDATA_EXPLAINER :: string where
  "GENDATA_EXPLAINER =
     ''-------------------------'' @ NL
     @ ''-- GEN_DATA  -- Create GEN_DATA of rft for usage in AHM'' @ NL
     @ ''-------------------------'' @ NL
     @ ''-- ERT doc: https://fmu-docs.equinor.com/docs/ert/reference/configuration/keywords.html#gen-data'' @ NL
     @ NL
     @ ''--       ert id       Result file name           input format         report step'' @ NL"

text \<open>
  The records of level \<open>WARNING\<close> are kept, as their formatted messages; the \<open>debug\<close>
  records are left out. \<open>write_genrft_str\<close> waits two seconds before it warns; the
  wait shows only in the later readings of the clock.
\<close>

definition genrft_warning :: "string \<Rightarrow> string" where
  "genrft_warning layer_zone_table =
     NL @ NL @ ''!!Remember that the zone layer file: '' @ layer_zone_table
     @ '' will need to have path relative'' @ NL
     @ '' to runpath for realization, so please double check that this is the case,'' @ NL
     @ '' otherwise you will just stop ert later!!'' @ NL @ NL"

definition write_genrft_str ::
  "string list \<Rightarrow> path \<Rightarrow> path \<Rightarrow> string \<Rightarrow> string \<Rightarrow> string list \<times> string" where
  "write_genrft_str lg parent well_date_path layer_zone_table outfolder_name =
     (let str_parent = str_path parent;
          string =
            GENDATA_RFT_EXPLAINER
            @ ''DEFINE <RFT_INPUT> '' @ str_path parent @ NL
            @ ''FORWARD_MODEL MAKE_DIRECTORY(<DIRECTORY>='' @ outfolder_name @ '')'' @ NL
            @ ''FORWARD_MODEL GENDATA_RFT(<PATH_TO_TRAJECTORY_FILES>=<RFT_INPUT>,''
            @ ''<WELL_AND_TIME_FILE>=<RFT_INPUT>/''
            @ replace (str_path well_date_path) str_parent [] @ '',''
            @ ''<ZONEMAP>='' @ layer_zone_table @ '',''
            @ '' <OUTPUTDIRECTORY>='' @ outfolder_name @ '')'' @ NL @ NL
      in (lg @ [genrft_warning layer_zone_table], string))"

definition write_well_rft_files ::
  "'v env \<Rightarrow> fs \<Rightarrow> path \<Rightarrow> string \<Rightarrow> 'v rft_element \<Rightarrow> py_error + fs \<times> path option" where
  "write_well_rft_files e f parent_folder prfx element =
     (let well_frame = inactivate_rows (inactive e) (data element)
      in if empty well_frame then Inr (f, None)
         else
           let fixed_file_name = check_and_fix_str e (well_name element);
               obs_file = resolve e (pjoin parent_folder (lower prfx @ ''_'' @ fixed_file_name @ ''.obs''));
               position_file = pjoin parent_folder (fixed_file_name @ ''.txt'')
           in (case select_columns well_frame [''value'', ''error''] of
                 Inl err \<Rightarrow> Inl err
               | Inr obs_frame \<Rightarrow>
                   (case write_csv_with_comment e f obs_file obs_frame of
                      Inl err \<Rightarrow> Inl err
                    | Inr f1 \<Rightarrow>
                        (case select_columns well_frame [''x'', ''y'', ''md'', ''tvd'', ''zone''] of
                           Inl err \<Rightarrow> Inl err
                         | Inr position_frame \<Rightarrow>
                             (case write_csv_with_comment e f1 position_file position_frame of
                                Inl err \<Rightarrow> Inl err
                              | Inr f2 \<Rightarrow> Inr (f2, Some obs_file))))))"

section \<open>Observations and their configuration\<close>

text \<open>
  Modelled from the spec: the enumeration \<open>ObservationType\<close> is declared in
  \<open>_datatypes\<close>, which is not among the sources. The writers name its members
  \<open>SUMMARY\<close> and \<open>RFT\<close>; the spec speaks of unsupported observation types, which are
  the values \<open>OTHER s\<close>.
\<close>

datatype ObservationType = SUMMARY | RFT | OTHER string

text \<open>
  What the writers read of \<open>obs["config"]\<close>: \<open>name\<close>, \<open>type\<close>,
  \<open>plugin_arguments.zonemap\<close> and \<open>metadata.subtype.name\<close>.
\<close>

record obs_config =
  name :: string
  type :: ObservationType
  zonemap :: string
  subtype_name :: string

text \<open>
  \<open>obs["data"]\<close> is a list of dictionaries: with the keys \<open>vector\<close> and \<open>data\<close> for
  time series, with \<open>well_name\<close>, \<open>date\<close>, \<open>restart\<close> and \<open>data\<close> for the wells.
\<close>

datatype 'v obs_elements =
    Timeseries "'v summary_element list"
  | Rft "'v rft_element list"

record 'v observation =
  config :: obs_config
  obs_data :: "'v obs_elements"

text \<open>
  Reading a list of the other shape: the first dictionary lacks the key that the loop
  asks for, an empty list passes.
\<close>

fun summary_elements :: "'v obs_elements \<Rightarrow> py_error + 'v summary_element list" where
  "summary_elements (Timeseries els) = Inr els"
| "summary_elements (Rft []) = Inr []"
| "summary_elements (Rft (x # xs)) = Inl KeyError"

fun rft_elements :: "'v obs_elements \<Rightarrow> py_error + 'v rft_element list" where
  "rft_elements (Rft els) = Inr els"
| "rft_elements (Timeseries []) = Inr []"
| "rft_elements (Timeseries (x # xs)) = Inl KeyError"

text \<open>
  The loop of \<open>write_rft_ertobs\<close> over the elements; its state is the store,
  \<open>well_date_list\<close>, \<open>rft_ertobs_str\<close> and \<open>gen_data\<close>.
\<close>

fun rft_loop ::
  "'v env \<Rightarrow> path \<Rightarrow> string \<Rightarrow> string \<Rightarrow> 'v rft_element list
   \<Rightarrow> fs \<times> 'v list list \<times> string \<times> string
   \<Rightarrow> py_error + fs \<times> 'v list list \<times> string \<times> string" where
  "rft_loop e rft_folder prfx outfolder_name [] st = Inr st"
| "rft_loop e rft_folder prfx outfolder_name (element # rest) (f, well_date_list, rft_ertobs_str, gen_data) =
     (case write_well_rft_files e f rft_folder prfx element of
        Inl err \<Rightarrow> Inl err
      | Inr (f1, None) \<Rightarrow>
          rft_loop e rft_folder prfx outfolder_name rest (f1, well_date_list, rft_ertobs_str, gen_data)
      | Inr (f1, Some obs_file) \<Rightarrow>
          rft_loop e rft_folder prfx outfolder_name rest
            (f1,
             well_date_list @ [[well_name element, date element, restart element]],
             rft_ertobs_str @ create_rft_ertobs_str e element prfx obs_file,
             gen_data @ create_rft_gendata_str e element prfx outfolder_name))"

definition write_rft_ertobs ::
  "'v env \<Rightarrow> fs \<Rightarrow> 'v observation \<Rightarrow> path \<Rightarrow> path \<Rightarrow> py_error + fs \<times> string \<times> string" where
  "write_rft_ertobs e f rft_dict well_date_file parent_folder =
     (let rft_folder = pjoin parent_folder ''rft''
      in (case mkdir f rft_folder True of
            Inl err \<Rightarrow> Inl err
          | Inr f1 \<Rightarrow>
              (let prfx = subtype_name (config rft_dict);
                   outfolder_name = ''gendata_rft''
               in (case rft_elements (obs_data rft_dict) of
                     Inl err \<Rightarrow> Inl err
                   | Inr els \<Rightarrow>
                       (case rft_loop e rft_folder prfx outfolder_name els (f1, [], [], []) of
                          Inl err \<Rightarrow> Inl err
                        | Inr (f2, well_date_list, rft_ertobs_str, gen_data) \<Rightarrow>
                            (case write_csv_with_comment e f2 well_date_file well_date_list of
                               Inl err \<Rightarrow> Inl err
                             | Inr f3 \<Rightarrow> Inr (f3, rft_ertobs_str, gen_data)))))))"

section \<open>Writing all observations\<close>

text \<open>
  The world of the writers: the store, the log, and the permission bits that have been
  set with \<open>chmod\<close>. The calls are those of the owner of what they touch, to whom the
  bits set here leave every right, so that no call fails for want of a permission.
\<close>

record world =
  files :: fs
  log :: "string list"
  modes :: "path \<Rightarrow> nat option"

text \<open>\<open>p.chmod(mode)\<close>.\<close>

definition chmod :: "world \<Rightarrow> path \<Rightarrow> nat \<Rightarrow> py_error + world" where
  "chmod w p mode =
     (if exists (files w) p then Inr (w\<lparr>modes := (modes w)(p \<mapsto> mode)\<rparr>)
      else Inl FileNotFoundError)"

definition exists_warning :: "path \<Rightarrow> string" where
  "exists_warning parent = str_path parent @ '' exists, deleting and overwriting contents''"

definition unsupported_warning :: string where
  "unsupported_warning = ''Currently not supporting other formats than timeseries and rft''"

text \<open>
  The body of the loop of \<open>write_dict_to_ertobs\<close>; its state is the world,
  \<open>gendata_rft_str\<close>, \<open>obs_str\<close> and \<open>gen_data\<close>.
\<close>

definition obs_step ::
  "'v env \<Rightarrow> path \<Rightarrow> path \<Rightarrow> string \<Rightarrow> 'v observation
   \<Rightarrow> world \<times> string \<times> string \<times> string
   \<Rightarrow> py_error + world \<times> string \<times> string \<times> string" where
  "obs_step e parent well_date_file_name gendata_rft_folder_name obs st =
     (case st of (w, gendata_rft_str, obs_str0, gen_data) \<Rightarrow>
        (let obs_str = obs_str0 @ ''--'' @ NL @ ''--'' @ name (config obs) @ NL
         in if type (config obs) = SUMMARY then
              (case summary_elements (obs_data obs) of
                 Inl err \<Rightarrow> Inl err
               | Inr els \<Rightarrow>
                   (case write_timeseries_ertobs e els of
                      Inl err \<Rightarrow> Inl err
                    | Inr s \<Rightarrow> Inr (w, gendata_rft_str, obs_str @ s, gen_data)))
            else if type (config obs) = RFT then
              (case (if gendata_rft_str = []
                     then write_genrft_str (log w) (pjoin parent ''rft'') well_date_file_name
                            (zonemap (config obs)) gendata_rft_folder_name
                     else (log w, gendata_rft_str)) of
                 (lg, gendata_rft_str1) \<Rightarrow>
                   (case write_rft_ertobs e (files w) obs well_date_file_name parent of
                      Inl err \<Rightarrow> Inl err
                    | Inr (f1, rft_str_element, gen_data_element) \<Rightarrow>
                        Inr (w\<lparr>files := f1, log := lg\<rparr>, gendata_rft_str1,
                             obs_str @ rft_str_element, gen_data @ gen_data_element)))
            else
              Inr (w\<lparr>log := log w @ [unsupported_warning]\<rparr>, gendata_rft_str, obs_str, gen_data)))"

fun obs_loop ::
  "'v env \<Rightarrow> path \<Rightarrow> path \<Rightarrow> string \<Rightarrow> 'v observation list
   \<Rightarrow> world \<times> string \<times> string \<times> string
   \<Rightarrow> py_error + world \<times> string \<times> string \<times> string" where
  "obs_loop e parent well_date_file_name gendata_rft_folder_name [] st = Inr st"
| "obs_loop e parent well_date_file_name gendata_rft_folder_name (obs # rest) st =
     (case obs_step e parent well_date_file_name gendata_rft_folder_name obs st of
        Inl err \<Rightarrow> Inl err
      | Inr st1 \<Rightarrow> obs_loop e parent well_date_file_name gendata_rft_folder_name rest st1)"

text \<open>
  \<open>write_dict_to_ertobs\<close>. The clock is read for the stamp of the returned string, for
  the readme file and, when there is one, for the file of the \<open>GEN_DATA\<close> declarations.
  What \<open>rmtree\<close> removes loses its permission bits; the last statement sets the bits
  \<open>0o774\<close>, which is 508, on the directory.
\<close>

definition write_dict_to_ertobs ::
  "'v env \<Rightarrow> world \<Rightarrow> 'v observation list \<Rightarrow> path \<Rightarrow> py_error + world \<times> string" where
  "write_dict_to_ertobs e w obs_list parent =
     (case (if exists (files w) parent
            then (case rmtree (files w) parent of
                    Inl err \<Rightarrow> Inl err
                  | Inr f \<Rightarrow> Inr (w\<lparr>files := f, log := log w @ [exists_warning parent],
                                   modes := wipe parent (modes w)\<rparr>))
            else Inr w) of
        Inl err \<Rightarrow> Inl err
      | Inr w1 \<Rightarrow>
          (case mkdir (files w1) parent False of
             Inl err \<Rightarrow> Inl err
           | Inr f2 \<Rightarrow>
               (let well_date_file_name = pjoin parent ''rft/well_date_restart.txt'';
                    gendata_rft_folder_name = ''gendata_rft'';
                    obs_str = add_time_stamp e 0 [] ''f'' ''--'';
                    readme_file = pjoin parent ''readme.txt''
                in (case write_text f2 readme_file (add_time_stamp e 1 [] ''d'' ''--'') of
                      Inl err \<Rightarrow> Inl err
                    | Inr f3 \<Rightarrow>
                        (case obs_loop e parent well_date_file_name gendata_rft_folder_name obs_list
                                (w1\<lparr>files := f3\<rparr>, [], obs_str, []) of
                           Inl err \<Rightarrow> Inl err
                         | Inr (w4, gendata_rft_str, obs_str1, gen_data) \<Rightarrow>
                             (case write_text (files w4) (pjoin parent ''ert_observations.obs'') obs_str1 of
                                Inl err \<Rightarrow> Inl err
                              | Inr f5 \<Rightarrow>
                                  (case (if gen_data \<noteq> []
                                         then write_text f5 (pjoin parent ''gen_data_rft_wells.ert'')
                                                (add_time_stamp e 2
                                                   (gendata_rft_str @ GENDATA_EXPLAINER @ gen_data)
                                                   ''f'' ''--'')
                                         else Inr f5) of
                                     Inl err \<Rightarrow> Inl err
                                   | Inr f6 \<Rightarrow>
                                       (case chmod (w4\<lparr>files := f6\<rparr>) parent 508 of
                                          Inl err \<Rightarrow> Inl err
                                        | Inr w7 \<Rightarrow> Inr (w7, obs_str1)))))))))"

section \<open>Predicates used in the statements\<close>

text \<open>\<open>p.is_file()\<close>.\<close>

definition is_file :: "fs \<Rightarrow> path \<Rightarrow> bool" where
  "is_file f p = (case f p of Some (File c) \<Rightarrow> True | _ \<Rightarrow> False)"

text \<open>
  The names that \<open>write_well_rft_files\<close> joins to its folder are relative when neither
  the prefix nor the sanitised well name starts with a slash.
\<close>

definition names_relative :: "'v env \<Rightarrow> 'v observation list \<Rightarrow> bool" where
  "names_relative e obs_list =
     list_all (\<lambda>obs. \<not> prefix ''/'' (subtype_name (config obs))
                 \<and> list_all (\<lambda>el. \<not> prefix ''/'' (check_and_fix_str e (well_name el)))
                      (case obs_data obs of Rft els \<Rightarrow> els | Timeseries els \<Rightarrow> []))
       obs_list"

text \<open>
  The statements of \<open>write_dict_to_ertobs\<close> from \<open>parent.mkdir()\<close> on, as a function
  of the world in which the directory has been removed.
\<close>

definition write_dict_body ::
  "'v env \<Rightarrow> world \<Rightarrow> 'v observation list \<Rightarrow> path \<Rightarrow> py_error + world \<times> string" where
  "write_dict_body e w1 obs_list parent =
     (case mkdir (files w1) parent False of
             Inl err \<Rightarrow> Inl err
           | Inr f2 \<Rightarrow>
               (let well_date_file_name = pjoin parent ''rft/well_date_restart.txt'';
                    gendata_rft_folder_name = ''gendata_rft'';
                    obs_str = add_time_stamp e 0 [] ''f'' ''--'';
                    readme_file = pjoin parent ''readme.txt''
                in (case write_text f2 readme_file (add_time_stamp e 1 [] ''d'' ''--'') of
                      Inl err \<Rightarrow> Inl err
                    | Inr f3 \<Rightarrow>
                        (case obs_loop e parent well_date_file_name gendata_rft_folder_name obs_list
                                (w1\<lparr>files := f3\<rparr>, [], obs_str, []) of
                           Inl err \<Rightarrow> Inl err
                         | Inr (w4, gendata_rft_str, obs_str1, gen_data) \<Rightarrow>
                             (case write_text (files w4) (pjoin parent ''ert_observations.obs'') obs_str1 of
                                Inl err \<Rightarrow> Inl err
                              | Inr f5 \<Rightarrow>
                                  (case (if gen_data \<noteq> []
                                         then write_text f5 (pjoin parent ''gen_data_rft_wells.ert'')
                                                (add_time_stamp e 2
                                                   (gendata_rft_str @ GENDATA_EXPLAINER @ gen_data)
                                                   ''f'' ''--'')
                                         else Inr f5) of
                                     Inl err \<Rightarrow> Inl err
                                   | Inr f6 \<Rightarrow>
                                       (case chmod (w4\<lparr>files := f6\<rparr>) parent 508 of
                                          Inl err \<Rightarrow> Inl err
                                        | Inr w7 \<Rightarrow> Inr (w7, obs_str1))))))))"

text \<open>
  The statements of \<open>write_dict_to_ertobs\<close> after its loop, as a function of the state
  that the loop leaves.
\<close>

definition write_dict_finish ::
  "'v env \<Rightarrow> path \<Rightarrow> world \<times> string \<times> string \<times> string \<Rightarrow> py_error + world \<times> string" where
  "write_dict_finish e parent st =
     (case st of (w4, gendata_rft_str, obs_str1, gen_data) \<Rightarrow>
        (case write_text (files w4) (pjoin parent ''ert_observations.obs'') obs_str1 of
           Inl err \<Rightarrow> Inl err
         | Inr f5 \<Rightarrow>
             (case (if gen_data \<noteq> []
                    then write_text f5 (pjoin parent ''gen_data_rft_wells.ert'')
                           (add_time_stamp e 2
                              (gendata_rft_str @ GENDATA_EXPLAINER @ gen_data)
                              ''f'' ''--'')
                    else Inr f5) of
                Inl err \<Rightarrow> Inl err
              | Inr f6 \<Rightarrow>
                  (case chmod (w4\<lparr>files := f6\<rparr>) parent 508 of
                     Inl err \<Rightarrow> Inl err
                   | Inr w7 \<Rightarrow> Inr (w7, obs_str1)))))"

text \<open>
  The set of files of a store: which paths are there, and whether each is a directory
  or a file; what the files hold is left out.
\<close>

definition shape :: "fs \<Rightarrow> path \<Rightarrow> bool option" where
  "shape f p = (case f p of None \<Rightarrow> None | Some n \<Rightarrow> Some (n = Dir))"

text \<open>
  Two worlds with the same set of files, the same log and the same permission bits, and
  two states of the loop of \<open>write_dict_to_ertobs\<close> that differ at most in what the
  files hold and in the observation string.
\<close>

definition same_files :: "world \<Rightarrow> world \<Rightarrow> bool" where
  "same_files w w' = (shape (files w) = shape (files w') \<and> modes w = modes w')"

definition same_sets :: "world \<times> string \<times> string \<times> string \<Rightarrow> world \<times> string \<times> string \<times> string \<Rightarrow> bool" where
  "same_sets st st' =
     (case st of (w, grs, os, gd) \<Rightarrow>
        (case st' of (w', grs', os', gd') \<Rightarrow>
           same_files w w' \<and> log w = log w' \<and> grs = grs' \<and> gd = gd'))"

section \<open>Example inputs\<close>

text \<open>
  A small environment and two wells on which the theorems below are run: the values
  are texts, printed as they are; a row is inactive when its value is \<open>-1\<close>; the
  sanitiser and \<open>resolve\<close> change nothing.
\<close>

definition ex_env :: "string env" where
  "ex_env =
     \<lparr>py_str = (\<lambda>v. v),
      csv_field = (\<lambda>v. v),
      to_string = (\<lambda>rs. join NL (map (\<lambda>r. join '' '' (map (\<lambda>c. case c of Raw v \<Rightarrow> v | Txt s \<Rightarrow> s) r)) rs)),
      inactive = (\<lambda>r. r ''value'' = ''-1''),
      check_and_fix_str = (\<lambda>v. v),
      resolve = (\<lambda>p. p),
      user = ''u'',
      now = (\<lambda>n. ''t'')\<rparr>"

definition ex_row1 :: "string \<Rightarrow> string" where
  "ex_row1 c =
     (if c = ''value'' then ''250.5'' else if c = ''error'' then ''3.0''
      else if c = ''zone'' then ''Z1'' else ''1.0'')"

definition ex_row2 :: "string \<Rightarrow> string" where
  "ex_row2 c =
     (if c = ''value'' then ''-1'' else if c = ''error'' then ''3.0''
      else if c = ''zone'' then ''Z1'' else ''2.0'')"

definition ex_frame :: "string frame" where
  "ex_frame =
     \<lparr>columns = [''value'', ''error'', ''x'', ''y'', ''md'', ''tvd'', ''zone''],
      rows = [ex_row1, ex_row2]\<rparr>"

definition ex_well1 :: "string rft_element" where
  "ex_well1 = \<lparr>well_name = ''A1'', date = ''2020-01-01'', restart = ''1'', data = ex_frame\<rparr>"

definition ex_well2 :: "string rft_element" where
  "ex_well2 =
     \<lparr>well_name = ''B2'', date = ''2020-01-01'', restart = ''1'',
      data = ex_frame\<lparr>rows := [ex_row2]\<rparr>\<rparr>"

definition ex_config :: obs_config where
  "ex_config = \<lparr>name = ''rft obs'', type = RFT, zonemap = ''zones.txt'', subtype_name = ''PRESSURE''\<rparr>"

definition ex_obs :: "string observation" where
  "ex_obs = \<lparr>config = ex_config, obs_data = Rft [ex_well1, ex_well2]\<rparr>"

definition ex_other :: "string observation" where
  "ex_other = \<lparr>config = ex_config\<lparr>name := ''seismic'', type := OTHER ''seismic''\<rparr>, obs_data = Rft []\<rparr>"

definition ex_store :: fs where
  "ex_store = [[''out''] \<mapsto> Dir, [''out'', ''rft''] \<mapsto> Dir]"

text \<open>
  A world in which nothing has been written, and an entry of an unsupported type whose
  configured name has two lines, the second of which reads as a declaration.
\<close>

definition ex_fresh :: world where
  "ex_fresh = \<lparr>files = Map.empty, log = [], modes = Map.empty\<rparr>"

definition ex_injected :: "string observation" where
  "ex_injected =
     \<lparr>config = ex_config\<lparr>name := ''seismic'' @ NL @ ''SUMMARY_OBSERVATION FOPR_1 {VALUE=1; ERROR=1; DATE=2020-01-01; KEY=FOPR;};'',
                           type := OTHER ''seismic''\<rparr>,
      obs_data = Rft []\<rparr>"

section \<open>The loops, piece by piece\<close>

lemma rft_loop_append:
  "rft_loop e d p out (xs @ ys) st =
     (case rft_loop e d p out xs st of Inl err \<Rightarrow> Inl err | Inr st1 \<Rightarrow> rft_loop e d p out ys st1)"
proof (induction xs arbitrary: st)
  case Nil
  show ?case by simp
next
  case (Cons x xs)
  obtain f wdl ro gd where st: "st = (f, wdl, ro, gd)" by (cases st) auto
  show ?case
    unfolding st by (simp add: Cons.IH split: sum.splits prod.splits option.splits)
qed

lemma obs_loop_append:
  "obs_loop e parent wdf gfn (xs @ ys) st =
     (case obs_loop e parent wdf gfn xs st of
        Inl err \<Rightarrow> Inl err
      | Inr st1 \<Rightarrow> obs_loop e parent wdf gfn ys st1)"
  by (induction xs arbitrary: st) (simp_all split: sum.splits)

lemma obs_step_unsupported:
  assumes "type (config obs) \<noteq> SUMMARY" and "type (config obs) \<noteq> RFT"
  shows "obs_step e parent wdf gfn obs (w, grs, os, gd) =
     Inr (w\<lparr>log := log w @ [unsupported_warning]\<rparr>, grs,
          os @ ''--'' @ NL @ ''--'' @ name (config obs) @ NL, gd)"
  using assms by (simp add: obs_step_def)

lemma split_char_line:
  "c \<notin> set a \<Longrightarrow> split_char c (a @ c # b) = a # split_char c b"
  by (induction a) auto

lemma write_well_rft_files_empty:
  "empty (inactivate_rows (inactive e) (data element)) \<Longrightarrow>
     write_well_rft_files e f folder prfx element = Inr (f, None)"
  by (simp add: write_well_rft_files_def)

section \<open>Wells without active measurements\<close>

text \<open>
  C2. For an element whose frame is empty once the inactive rows are taken out,
  \<open>write_well_rft_files\<close> returns \<open>None\<close> and leaves the store as it is, so neither the
  \<open>.obs\<close> file nor the position file is written. \<open>write_rft_ertobs\<close> then skips the
  element: its loop, and the whole function, give what they give on the list without
  the element, so the element is in none of the table of wells, the
  \<open>GENERAL_OBSERVATION\<close> string and the \<open>GEN_DATA\<close> string.
\<close>

theorem empty_well_skipped:
  assumes "empty (inactivate_rows (inactive e) (data element))"
  shows "write_well_rft_files e f folder prfx element = Inr (f, None)
       \<and> rft_loop e folder prfx out (before @ element # after) st =
           rft_loop e folder prfx out (before @ after) st
       \<and> (obs_data rft_dict = Rft (before @ element # after) \<longrightarrow>
            write_rft_ertobs e f rft_dict well_date_file parent_folder =
            write_rft_ertobs e f (rft_dict\<lparr>obs_data := Rft (before @ after)\<rparr>)
              well_date_file parent_folder)"
proof -
  have step: "rft_loop e d p out1 (element # after) s = rft_loop e d p out1 after s"
    for s d p out1
    using assms by (cases s) (simp add: write_well_rft_files_empty)
  have loop: "rft_loop e d p out1 (before @ element # after) s =
      rft_loop e d p out1 (before @ after) s" for s d p out1
    by (simp add: rft_loop_append [of _ _ _ _ before] step split: sum.splits)
  have whole: "write_rft_ertobs e f rft_dict well_date_file parent_folder =
      write_rft_ertobs e f (rft_dict\<lparr>obs_data := Rft (before @ after)\<rparr>) well_date_file parent_folder"
    if "obs_data rft_dict = Rft (before @ element # after)"
    unfolding write_rft_ertobs_def Let_def using that by (simp add: loop cong: sum.case_cong)
  show ?thesis
    using assms whole by (simp add: write_well_rft_files_empty loop)
qed

theorem empty_well_skipped_witness:
  "empty (inactivate_rows (inactive ex_env) (data ex_well2))
   \<and> write_well_rft_files ex_env Map.empty [''out'', ''rft''] ''PRESSURE'' ex_well2 =
       Inr (Map.empty, None)
   \<and> write_rft_ertobs ex_env Map.empty ex_obs [''out'', ''rft'', ''well_date_restart.txt''] [''out''] =
       write_rft_ertobs ex_env Map.empty (ex_obs\<lparr>obs_data := Rft [ex_well1]\<rparr>)
         [''out'', ''rft'', ''well_date_restart.txt''] [''out'']"
proof -
  have h: "empty (inactivate_rows (inactive ex_env) (data ex_well2))"
    by (simp add: empty_def inactivate_rows_def ex_env_def ex_well2_def ex_frame_def ex_row2_def)
  have d: "obs_data ex_obs = Rft ([ex_well1] @ ex_well2 # [])"
    by (simp add: ex_obs_def)
  show ?thesis
    using h d empty_well_skipped [OF h, of Map.empty "[''out'', ''rft'']" "''PRESSURE''"
        "''gendata_rft''" "[ex_well1]" "[]" "(Map.empty, [], [], [])" ex_obs
        "[''out'', ''rft'', ''well_date_restart.txt'']" "[''out'']"]
    by simp
qed

section \<open>The text of the declarations\<close>

text \<open>
  C7. For every element and prefix, \<open>create_rft_ertobs_str\<close> returns the one line
  \<open>GENERAL_OBSERVATION <well>_<prefix>_OBS {DATA=<well>_<prefix>_SIM; RESTART = <restart>;
  OBS_FILE = <obs_file>;};\<close>, closed by a line feed: the name of the observation and the
  name after \<open>DATA=\<close> are built from the same well name and the same prefix.
\<close>

theorem create_rft_ertobs_str_form:
  "create_rft_ertobs_str e element prfx obs_file =
     ''GENERAL_OBSERVATION '' @ py_str e (well_name element) @ ''_'' @ prfx @ ''_OBS {DATA=''
     @ py_str e (well_name element) @ ''_'' @ prfx @ ''_SIM; RESTART = ''
     @ py_str e (restart element) @ ''; OBS_FILE = '' @ str_path obs_file @ '';};'' @ NL
   \<and> last (create_rft_ertobs_str e element prfx obs_file) = CHR 0x0A"
  by (simp add: create_rft_ertobs_str_def)

text \<open>
  C10. The name of the result file in the \<open>GEN_DATA\<close> line depends on the prefix: it is
  \<open><outfolder>/RFT_<well>_%d\<close> when the prefix is \<open>PRESSURE\<close>, and
  \<open><outfolder>/RFT_<prefix>_<well>_%d\<close> for every other prefix, a line that then
  differs from the one with the prefix left out of the file name.
\<close>

theorem create_rft_gendata_str_result_file:
  "(prfx = ''PRESSURE'' \<longrightarrow>
      create_rft_gendata_str e element prfx outfolder_name =
        ''GEN_DATA '' @ py_str e (well_name element) @ ''_PRESSURE_SIM RESULT_FILE:''
        @ outfolder_name @ ''/RFT_'' @ py_str e (well_name element) @ ''_%d REPORT_STEPS:''
        @ py_str e (restart element) @ NL)
   \<and> (prfx \<noteq> ''PRESSURE'' \<longrightarrow>
      create_rft_gendata_str e element prfx outfolder_name =
        ''GEN_DATA '' @ py_str e (well_name element) @ ''_'' @ prfx @ ''_SIM RESULT_FILE:''
        @ outfolder_name @ ''/RFT_'' @ prfx @ ''_'' @ py_str e (well_name element)
        @ ''_%d REPORT_STEPS:'' @ py_str e (restart element) @ NL
      \<and> create_rft_gendata_str e element prfx outfolder_name \<noteq>
        ''GEN_DATA '' @ py_str e (well_name element) @ ''_'' @ prfx @ ''_SIM RESULT_FILE:''
        @ outfolder_name @ ''/RFT_'' @ py_str e (well_name element)
        @ ''_%d REPORT_STEPS:'' @ py_str e (restart element) @ NL)"
proof -
  have neq: "prfx @ CHR ''_'' # w @ t \<noteq> w @ t" for w t :: string
  proof
    assume "prfx @ CHR ''_'' # w @ t = w @ t"
    then have "length (prfx @ CHR ''_'' # w @ t) = length (w @ t)" by simp
    then show False by simp
  qed
  show ?thesis
    by (simp add: create_rft_gendata_str_def neq)
qed

theorem create_rft_gendata_str_result_file_witness:
  "create_rft_gendata_str ex_env ex_well1 ''PRESSURE'' ''gendata_rft'' =
     ''GEN_DATA A1_PRESSURE_SIM RESULT_FILE:gendata_rft/RFT_A1_%d REPORT_STEPS:1'' @ NL
   \<and> create_rft_gendata_str ex_env ex_well1 ''SWAT'' ''gendata_rft'' =
     ''GEN_DATA A1_SWAT_SIM RESULT_FILE:gendata_rft/RFT_SWAT_A1_%d REPORT_STEPS:1'' @ NL
   \<and> create_rft_gendata_str ex_env ex_well1 ''SWAT'' ''gendata_rft'' \<noteq>
     ''GEN_DATA A1_SWAT_SIM RESULT_FILE:gendata_rft/RFT_A1_%d REPORT_STEPS:1'' @ NL"
  using create_rft_gendata_str_result_file [of "''PRESSURE''" ex_env ex_well1 "''gendata_rft''"]
    create_rft_gendata_str_result_file [of "''SWAT''" ex_env ex_well1 "''gendata_rft''"]
  by (simp add: ex_env_def ex_well1_def)

section \<open>Inactive measurements\<close>

lemma inactivate_rows_rows [simp]:
  "rows (inactivate_rows p fr) = filter (\<lambda>r. \<not> p r) (rows fr)"
  by (simp add: inactivate_rows_def)

lemma inactivate_rows_columns [simp]:
  "columns (inactivate_rows p fr) = columns fr"
  by (simp add: inactivate_rows_def)

lemma inactivate_rows_drop:
  "p r \<Longrightarrow> inactivate_rows p (fr\<lparr>rows := before @ r # after\<rparr>) =
     inactivate_rows p (fr\<lparr>rows := before @ after\<rparr>)"
  by (simp add: inactivate_rows_def)

lemma write_well_rft_files_cong:
  assumes eq1: "inactivate_rows (inactive e) (data a) = inactivate_rows (inactive e) (data b)"
    and eq2: "well_name a = well_name b"
  shows "write_well_rft_files e f folder prfx a = write_well_rft_files e f folder prfx b"
  unfolding write_well_rft_files_def eq1 eq2 ..

lemma ertobs_rows_cong:
  assumes eq1: "inactivate_rows (inactive e) (vector_data a) = inactivate_rows (inactive e) (vector_data b)"
    and eq2: "vector a = vector b"
  shows "ertobs_rows e a = ertobs_rows e b"
  unfolding ertobs_rows_def eq1 eq2 ..

lemma timeseries_frames_cong:
  assumes eq: "ertobs_rows e a = ertobs_rows e b"
  shows "timeseries_frames e (els1 @ a # els2) = timeseries_frames e (els1 @ b # els2)"
proof (induction els1)
  case Nil
  show ?case by (simp add: eq)
next
  case (Cons x xs)
  show ?case by (simp add: Cons.IH cong: sum.case_cong)
qed

text \<open>
  C3. The exclusion of inactive measurements is a filter on the rows, applied by
  \<open>write_well_rft_files\<close> and by \<open>write_timeseries_ertobs\<close> to the frame of an
  element before anything is formatted: a row that carries the sentinel can be taken
  out of the frame of an element without any change to what either function returns or
  writes; no row of the filtered frame is inactive; and the filter treats each row by
  itself, so that the filtered frame of two lists of rows is the two filtered frames,
  one after the other.
\<close>

theorem inactive_rows_excluded:
  assumes "inactive e r"
  shows "write_well_rft_files e f folder prfx (element\<lparr>data := fr\<lparr>rows := before @ r # after\<rparr>\<rparr>) =
           write_well_rft_files e f folder prfx (element\<lparr>data := fr\<lparr>rows := before @ after\<rparr>\<rparr>)
       \<and> write_timeseries_ertobs e
             (els1 @ sel\<lparr>vector_data := fr\<lparr>rows := before @ r # after\<rparr>\<rparr> # els2) =
           write_timeseries_ertobs e
             (els1 @ sel\<lparr>vector_data := fr\<lparr>rows := before @ after\<rparr>\<rparr> # els2)
       \<and> list_all (\<lambda>x. \<not> inactive e x) (rows (inactivate_rows (inactive e) fr))
       \<and> rows (inactivate_rows (inactive e) (fr\<lparr>rows := xs @ ys\<rparr>)) =
           rows (inactivate_rows (inactive e) (fr\<lparr>rows := xs\<rparr>))
           @ rows (inactivate_rows (inactive e) (fr\<lparr>rows := ys\<rparr>))
       \<and> rows (inactivate_rows (inactive e) (fr\<lparr>rows := [x]\<rparr>)) =
           (if inactive e x then [] else [x])"
proof -
  have drop: "inactivate_rows (inactive e) (fr\<lparr>rows := before @ r # after\<rparr>) =
      inactivate_rows (inactive e) (fr\<lparr>rows := before @ after\<rparr>)"
    using assms by (rule inactivate_rows_drop)
  have well: "write_well_rft_files e f folder prfx (element\<lparr>data := fr\<lparr>rows := before @ r # after\<rparr>\<rparr>) =
      write_well_rft_files e f folder prfx (element\<lparr>data := fr\<lparr>rows := before @ after\<rparr>\<rparr>)"
    by (rule write_well_rft_files_cong) (simp_all add: drop)
  have "ertobs_rows e (sel\<lparr>vector_data := fr\<lparr>rows := before @ r # after\<rparr>\<rparr>) =
      ertobs_rows e (sel\<lparr>vector_data := fr\<lparr>rows := before @ after\<rparr>\<rparr>)"
    by (rule ertobs_rows_cong) (simp_all add: drop)
  then have "timeseries_frames e
        (els1 @ sel\<lparr>vector_data := fr\<lparr>rows := before @ r # after\<rparr>\<rparr> # els2) =
      timeseries_frames e
        (els1 @ sel\<lparr>vector_data := fr\<lparr>rows := before @ after\<rparr>\<rparr> # els2)"
    by (rule timeseries_frames_cong)
  then have series: "write_timeseries_ertobs e
        (els1 @ sel\<lparr>vector_data := fr\<lparr>rows := before @ r # after\<rparr>\<rparr> # els2) =
      write_timeseries_ertobs e
        (els1 @ sel\<lparr>vector_data := fr\<lparr>rows := before @ after\<rparr>\<rparr> # els2)"
    by (simp add: write_timeseries_ertobs_def)
  have kept: "list_all (\<lambda>x. \<not> inactive e x) (rows (inactivate_rows (inactive e) fr))"
    by (simp add: list_all_iff)
  have split: "rows (inactivate_rows (inactive e) (fr\<lparr>rows := xs @ ys\<rparr>)) =
      rows (inactivate_rows (inactive e) (fr\<lparr>rows := xs\<rparr>))
      @ rows (inactivate_rows (inactive e) (fr\<lparr>rows := ys\<rparr>))"
    by simp
  have single: "rows (inactivate_rows (inactive e) (fr\<lparr>rows := [x]\<rparr>)) =
      (if inactive e x then [] else [x])"
    by simp
  from well series kept split single show ?thesis
    by (intro conjI)
qed

theorem inactive_rows_excluded_witness:
  "inactive ex_env ex_row2
   \<and> write_well_rft_files ex_env ex_store [''out'', ''rft''] ''PRESSURE''
       (ex_well1\<lparr>data := ex_frame\<lparr>rows := [ex_row1, ex_row2]\<rparr>\<rparr>) =
     write_well_rft_files ex_env ex_store [''out'', ''rft''] ''PRESSURE''
       (ex_well1\<lparr>data := ex_frame\<lparr>rows := [ex_row1]\<rparr>\<rparr>)
   \<and> write_timeseries_ertobs ex_env
       [\<lparr>vector = ''FOPR'', vector_data = ex_frame\<lparr>rows := [ex_row1, ex_row2]\<rparr>\<rparr>] =
     write_timeseries_ertobs ex_env
       [\<lparr>vector = ''FOPR'', vector_data = ex_frame\<lparr>rows := [ex_row1]\<rparr>\<rparr>]"
proof -
  have h: "inactive ex_env ex_row2"
    by (simp add: ex_env_def ex_row2_def)
  show ?thesis
    using h inactive_rows_excluded [OF h, where f = ex_store and folder = "[''out'', ''rft'']"
        and prfx = "''PRESSURE''" and element = ex_well1 and fr = ex_frame
        and before = "[ex_row1]" and after = "[]" and ?els1.0 = "[]"
        and sel = "\<lparr>vector = ''FOPR'', vector_data = ex_frame\<rparr>" and ?els2.0 = "[]"]
    by simp
qed

section \<open>The two files of a well\<close>

lemma write_text_Inr:
  "write_text g p s = Inr g' \<Longrightarrow> g' = g(p \<mapsto> File s)"
  by (auto simp: write_text_def split: if_splits)

lemma write_text_ok:
  "\<not> is_dir g p \<Longrightarrow> is_dir g (butlast p) \<Longrightarrow> write_text g p s = Inr (g(p \<mapsto> File s))"
  by (simp add: write_text_def)

lemma is_file_upd: "is_file g q \<Longrightarrow> is_file (g(p \<mapsto> File s)) q"
  by (simp add: is_file_def)

lemma is_file_upd_same: "is_file (g(p \<mapsto> File s)) p"
  by (simp add: is_file_def)

lemma is_dir_upd_file:
  "is_dir g q \<Longrightarrow> \<not> is_dir g p \<Longrightarrow> is_dir (g(p \<mapsto> File s)) q"
  by (auto simp: is_dir_def)

lemma not_is_dir_upd_file:
  "\<not> is_dir g q \<Longrightarrow> \<not> is_dir (g(p \<mapsto> File s)) q"
  by (auto simp: is_dir_def)

lemma to_csv_pairs:
  "to_csv cf (map (\<lambda>r. [r a, r b]) rs) = concat (map (\<lambda>r. cf (r a) @ '' '' @ cf (r b) @ NL) rs)"
  by (simp add: to_csv_def comp_def)

lemma to_csv_five:
  "to_csv cf (map (\<lambda>r. [r a, r b, r c, r d, r z]) rs) =
     concat (map (\<lambda>r. cf (r a) @ '' '' @ cf (r b) @ '' '' @ cf (r c) @ '' '' @ cf (r d) @ '' '' @ cf (r z) @ NL) rs)"
  by (simp add: to_csv_def comp_def)

lemma write_well_rft_files_written:
  assumes nonempty: "\<not> empty (inactivate_rows (inactive e) (data element))"
    and cols: "list_all (\<lambda>c. c \<in> set (columns (data element)))
                 [''value'', ''error'', ''x'', ''y'', ''md'', ''tvd'', ''zone'']"
    and obs: "obs_file = resolve e (pjoin parent_folder
                 (lower prfx @ ''_'' @ check_and_fix_str e (well_name element) @ ''.obs''))"
    and pos: "position_file = pjoin parent_folder (check_and_fix_str e (well_name element) @ ''.txt'')"
    and d1: "is_dir f (butlast obs_file)" and n1: "\<not> is_dir f obs_file"
    and d2: "is_dir f (butlast position_file)" and n2: "\<not> is_dir f position_file"
    and active: "active = filter (\<lambda>r. \<not> inactive e r) (rows (data element))"
  shows "write_well_rft_files e f parent_folder prfx element =
     Inr (f(obs_file \<mapsto> File (concat (map (\<lambda>r. csv_field e (r ''value'') @ '' ''
                                            @ csv_field e (r ''error'') @ NL) active)),
            position_file \<mapsto> File (concat (map (\<lambda>r. csv_field e (r ''x'') @ '' ''
                                            @ csv_field e (r ''y'') @ '' ''
                                            @ csv_field e (r ''md'') @ '' ''
                                            @ csv_field e (r ''tvd'') @ '' ''
                                            @ csv_field e (r ''zone'') @ NL) active))),
          Some obs_file)"
proof -
  let ?wf = "inactivate_rows (inactive e) (data element)"
  let ?obs_text = "concat (map (\<lambda>r. csv_field e (r ''value'') @ '' ''
                                            @ csv_field e (r ''error'') @ NL) active)"
  have s1: "select_columns ?wf [''value'', ''error''] =
      Inr (map (\<lambda>r. [r ''value'', r ''error'']) active)"
    using cols by (simp add: select_columns_def active)
  have s2: "select_columns ?wf [''x'', ''y'', ''md'', ''tvd'', ''zone''] =
      Inr (map (\<lambda>r. [r ''x'', r ''y'', r ''md'', r ''tvd'', r ''zone'']) active)"
    using cols by (simp add: select_columns_def active)
  have w1: "write_csv_with_comment e f obs_file (map (\<lambda>r. [r ''value'', r ''error'']) active) =
      Inr (f(obs_file \<mapsto> File ?obs_text))"
    unfolding write_csv_with_comment_def to_csv_pairs using n1 d1 by (rule write_text_ok)
  have d2': "is_dir (f(obs_file \<mapsto> File ?obs_text)) (butlast position_file)"
    using d2 n1 by (rule is_dir_upd_file)
  have n2': "\<not> is_dir (f(obs_file \<mapsto> File ?obs_text)) position_file"
    using n2 by (rule not_is_dir_upd_file)
  have w2: "write_csv_with_comment e (f(obs_file \<mapsto> File ?obs_text)) position_file
        (map (\<lambda>r. [r ''x'', r ''y'', r ''md'', r ''tvd'', r ''zone'']) active) =
      Inr (f(obs_file \<mapsto> File ?obs_text,
             position_file \<mapsto> File (concat (map (\<lambda>r. csv_field e (r ''x'') @ '' ''
                                            @ csv_field e (r ''y'') @ '' ''
                                            @ csv_field e (r ''md'') @ '' ''
                                            @ csv_field e (r ''tvd'') @ '' ''
                                            @ csv_field e (r ''zone'') @ NL) active))))"
    unfolding write_csv_with_comment_def to_csv_five using n2' d2' by (rule write_text_ok)
  show ?thesis
    unfolding write_well_rft_files_def Let_def obs [symmetric] pos [symmetric]
    by (simp only: nonempty if_False s1 s2 w1 w2 sum.case)
qed


lemma split_char_nonempty [simp]: "split_char c s \<noteq> []"
  by (induction s) (auto split: list.splits)

lemma last_split_char_suffix:
  "c \<notin> set t \<Longrightarrow> \<exists>u. last (split_char c (s @ t)) = u @ t"
proof (induction s)
  case Nil
  then have "split_char c t = [t]"
    by (induction t) auto
  then show ?case by simp
next
  case (Cons x xs)
  then obtain u where u: "last (split_char c (xs @ t)) = u @ t" by blast
  show ?case
  proof (cases "x = c")
    case True
    then show ?thesis using u by simp
  next
    case False
    obtain y ys where ys: "split_char c (xs @ t) = y # ys"
      by (cases "split_char c (xs @ t)") auto
    show ?thesis
    proof (cases ys)
      case Nil
      with ys u have "y = u @ t" by simp
      with ys Nil False show ?thesis by simp
    next
      case (Cons z zs)
      with ys u False show ?thesis by simp
    qed
  qed
qed

lemma last_filter_keep:
  assumes "xs \<noteq> []" and "P (last xs)"
  shows "filter P xs \<noteq> [] \<and> last (filter P xs) = last xs"
proof -
  have "xs = butlast xs @ [last xs]" using assms(1) by simp
  then have "filter P xs = filter P (butlast xs) @ [last xs]"
    using assms(2) by (metis filter.simps(1) filter.simps(2) filter_append)
  then show ?thesis by simp
qed

lemma last_path_parts:
  assumes "CHR ''/'' \<notin> set t" and "2 \<le> length t"
  shows "\<exists>u. path_parts (s @ t) \<noteq> [] \<and> last (path_parts (s @ t)) = u @ t"
proof -
  obtain u where u: "last (split_char (CHR ''/'') (s @ t)) = u @ t"
    using last_split_char_suffix [OF assms(1)] by blast
  have len: "2 \<le> length (u @ t)" using assms(2) by simp
  have "u @ t \<noteq> ''.''"
  proof
    assume "u @ t = ''.''"
    then have "length (u @ t) = length ''.''" by (rule arg_cong)
    with len show False by simp
  qed
  moreover have "u @ t \<noteq> []" using len by auto
  ultimately have "u @ t \<noteq> [] \<and> u @ t \<noteq> ''.''" by simp
  then have "path_parts (s @ t) \<noteq> [] \<and> last (path_parts (s @ t)) = u @ t"
    unfolding path_parts_def using last_filter_keep [of "split_char (CHR ''/'') (s @ t)"
        "\<lambda>p. p \<noteq> [] \<and> p \<noteq> ''.''"] u by simp
  then show ?thesis by blast
qed

lemma last_pjoin:
  assumes "CHR ''/'' \<notin> set t" and "2 \<le> length t"
  shows "\<exists>u. last (pjoin p (s @ t)) = u @ t"
proof -
  obtain u where u: "path_parts (s @ t) \<noteq> []" "last (path_parts (s @ t)) = u @ t"
    using last_path_parts [OF assms] by blast
  have "s @ t \<noteq> []" using assms(2) by auto
  then have "last (pjoin p (s @ t)) = last (path_parts (s @ t))"
    using u(1) by (auto simp: pjoin_def split: list.splits)
  with u(2) have "last (pjoin p (s @ t)) = u @ t" by simp
  then show ?thesis ..
qed

lemma obs_path_not_position_path:
  "pjoin p (a @ ''.obs'') \<noteq> pjoin q (b @ ''.txt'')"
proof
  assume eq: "pjoin p (a @ ''.obs'') = pjoin q (b @ ''.txt'')"
  obtain u where u: "last (pjoin p (a @ ''.obs'')) = u @ ''.obs''"
    using last_pjoin [of "''.obs''" p a] by auto
  obtain v where v: "last (pjoin q (b @ ''.txt'')) = v @ ''.txt''"
    using last_pjoin [of "''.txt''" q b] by auto
  from eq u v have "u @ ''.obs'' = v @ ''.txt''" by simp
  then have "last (u @ ''.obs'') = last (v @ ''.txt'')" by simp
  then show False by simp
qed

text \<open>
  C6. For an element whose filtered frame is not empty and has the columns that are
  selected, in a folder where the two files can be opened, \<open>write_well_rft_files\<close>
  changes the store at two paths and nowhere else: the \<open>.obs\<close> file holds one line per
  active row, the value and the error separated by one blank, and the position file
  holds one line per active row with \<open>x\<close>, \<open>y\<close>, \<open>md\<close>, \<open>tvd\<close> and \<open>zone\<close> in
  this order; neither has a header or an index. The path of the \<open>.obs\<close> file is
  returned, and the two names differ.
\<close>

theorem write_well_rft_files_two_files:
  assumes "\<not> empty (inactivate_rows (inactive e) (data element))"
    and "list_all (\<lambda>c. c \<in> set (columns (data element)))
           [''value'', ''error'', ''x'', ''y'', ''md'', ''tvd'', ''zone'']"
    and "obs_path = pjoin parent_folder
           (lower prfx @ ''_'' @ check_and_fix_str e (well_name element) @ ''.obs'')"
    and "obs_file = resolve e obs_path"
    and "position_file = pjoin parent_folder (check_and_fix_str e (well_name element) @ ''.txt'')"
    and "is_dir f (butlast obs_file)" and "\<not> is_dir f obs_file"
    and "is_dir f (butlast position_file)" and "\<not> is_dir f position_file"
    and "active = filter (\<lambda>r. \<not> inactive e r) (rows (data element))"
  shows "write_well_rft_files e f parent_folder prfx element =
     Inr (f(obs_file \<mapsto> File (concat (map (\<lambda>r. csv_field e (r ''value'') @ '' ''
                                            @ csv_field e (r ''error'') @ NL) active)),
            position_file \<mapsto> File (concat (map (\<lambda>r. csv_field e (r ''x'') @ '' ''
                                            @ csv_field e (r ''y'') @ '' ''
                                            @ csv_field e (r ''md'') @ '' ''
                                            @ csv_field e (r ''tvd'') @ '' ''
                                            @ csv_field e (r ''zone'') @ NL) active))),
          Some obs_file)
     \<and> obs_path \<noteq> position_file"
proof -
  have "obs_path \<noteq> position_file"
    unfolding assms(3) assms(5)
    using obs_path_not_position_path
      [of parent_folder "lower prfx @ ''_'' @ check_and_fix_str e (well_name element)"
          parent_folder "check_and_fix_str e (well_name element)"]
    by simp
  moreover have "write_well_rft_files e f parent_folder prfx element =
     Inr (f(obs_file \<mapsto> File (concat (map (\<lambda>r. csv_field e (r ''value'') @ '' ''
                                            @ csv_field e (r ''error'') @ NL) active)),
            position_file \<mapsto> File (concat (map (\<lambda>r. csv_field e (r ''x'') @ '' ''
                                            @ csv_field e (r ''y'') @ '' ''
                                            @ csv_field e (r ''md'') @ '' ''
                                            @ csv_field e (r ''tvd'') @ '' ''
                                            @ csv_field e (r ''zone'') @ NL) active))),
          Some obs_file)"
    using assms(1,2) _ assms(5-10)
  proof (rule write_well_rft_files_written)
    show "obs_file = resolve e (pjoin parent_folder
        (lower prfx @ ''_'' @ check_and_fix_str e (well_name element) @ ''.obs''))"
      unfolding assms(4) assms(3) ..
  qed
  ultimately show ?thesis by (intro conjI)
qed

lemma lower_PRESSURE: "lower ''PRESSURE'' = ''pressure''"
  by code_simp

lemma ex_paths:
  "pjoin [''out'', ''rft''] ''pressure_A1.obs'' = [''out'', ''rft'', ''pressure_A1.obs'']"
  "pjoin [''out'', ''rft''] ''A1.txt'' = [''out'', ''rft'', ''A1.txt'']"
  by (simp_all add: pjoin_def path_parts_def)

theorem write_well_rft_files_two_files_witness:
  "write_well_rft_files ex_env ex_store [''out'', ''rft''] ''PRESSURE'' ex_well1 =
     Inr (ex_store([''out'', ''rft'', ''pressure_A1.obs''] \<mapsto> File (''250.5 3.0'' @ NL),
                   [''out'', ''rft'', ''A1.txt''] \<mapsto> File (''1.0 1.0 1.0 1.0 Z1'' @ NL)),
          Some [''out'', ''rft'', ''pressure_A1.obs''])
   \<and> [''out'', ''rft'', ''pressure_A1.obs''] \<noteq> [''out'', ''rft'', ''A1.txt'']"
proof -
  have a: "\<not> empty (inactivate_rows (inactive ex_env) (data ex_well1))"
    by (simp add: empty_def ex_env_def ex_well1_def ex_frame_def ex_row1_def ex_row2_def)
  have b: "list_all (\<lambda>c. c \<in> set (columns (data ex_well1)))
      [''value'', ''error'', ''x'', ''y'', ''md'', ''tvd'', ''zone'']"
    by (simp add: ex_well1_def ex_frame_def)
  have c: "[''out'', ''rft'', ''pressure_A1.obs''] = pjoin [''out'', ''rft'']
      (lower ''PRESSURE'' @ ''_'' @ check_and_fix_str ex_env (well_name ex_well1) @ ''.obs'')"
    using ex_paths(1) by (simp add: lower_PRESSURE ex_env_def ex_well1_def)
  have d: "[''out'', ''rft'', ''pressure_A1.obs''] = resolve ex_env [''out'', ''rft'', ''pressure_A1.obs'']"
    by (simp add: ex_env_def)
  have p: "[''out'', ''rft'', ''A1.txt''] =
      pjoin [''out'', ''rft''] (check_and_fix_str ex_env (well_name ex_well1) @ ''.txt'')"
    using ex_paths(2) by (simp add: ex_env_def ex_well1_def)
  have dirs: "is_dir ex_store (butlast [''out'', ''rft'', ''pressure_A1.obs''])"
    "\<not> is_dir ex_store [''out'', ''rft'', ''pressure_A1.obs'']"
    "is_dir ex_store (butlast [''out'', ''rft'', ''A1.txt''])"
    "\<not> is_dir ex_store [''out'', ''rft'', ''A1.txt'']"
    by (simp_all add: is_dir_def ex_store_def)
  have act: "[ex_row1] = filter (\<lambda>r. \<not> inactive ex_env r) (rows (data ex_well1))"
    by (simp add: ex_env_def ex_well1_def ex_frame_def ex_row1_def ex_row2_def)
  show ?thesis
    using write_well_rft_files_two_files [OF a b c d p dirs act]
    by (simp add: ex_env_def ex_row1_def)
qed

section \<open>The wells named by the three outputs\<close>

lemma write_well_rft_files_result:
  assumes "write_well_rft_files e f d prfx el = Inr (f1, r)"
  shows "(r \<noteq> None) = (\<not> empty (inactivate_rows (inactive e) (data el)))"
    and "r \<noteq> None \<Longrightarrow>
           r = Some (resolve e (pjoin d (lower prfx @ ''_'' @ check_and_fix_str e (well_name el) @ ''.obs'')))
           \<and> is_file f1 (resolve e (pjoin d (lower prfx @ ''_'' @ check_and_fix_str e (well_name el) @ ''.obs'')))"
    and "is_file f q \<Longrightarrow> is_file f1 q"
  using assms
  by (auto simp: write_well_rft_files_def Let_def write_csv_with_comment_def is_file_def
      split: if_splits sum.splits dest!: write_text_Inr)

lemma rft_loop_result:
  assumes "rft_loop e d prfx out els (f, wdl, ro, gd) = Inr (f', wdl', ro', gd')"
    and "written = filter (\<lambda>el. \<not> empty (inactivate_rows (inactive e) (data el))) els"
    and "obs_file = (\<lambda>el. resolve e (pjoin d
           (lower prfx @ ''_'' @ check_and_fix_str e (well_name el) @ ''.obs'')))"
  shows "wdl' = wdl @ map (\<lambda>el. [well_name el, date el, restart el]) written
       \<and> ro' = ro @ concat (map (\<lambda>el. create_rft_ertobs_str e el prfx (obs_file el)) written)
       \<and> gd' = gd @ concat (map (\<lambda>el. create_rft_gendata_str e el prfx out) written)
       \<and> list_all (\<lambda>el. is_file f' (obs_file el)) written
       \<and> (\<forall>q. is_file f q \<longrightarrow> is_file f' q)"
  using assms(1) unfolding assms(2) assms(3)
proof (induction els arbitrary: f wdl ro gd)
  case Nil
  then show ?case by simp
next
  case (Cons el els)
  from Cons.prems obtain f1 r where
    w: "write_well_rft_files e f d prfx el = Inr (f1, r)"
    by (auto split: sum.splits)
  note res = write_well_rft_files_result [OF w]
  show ?case
  proof (cases r)
    case None
    with Cons.prems w have
      "rft_loop e d prfx out els (f1, wdl, ro, gd) = Inr (f', wdl', ro', gd')" by simp
    from Cons.IH [OF this] res(1) res(3) None show ?thesis by simp
  next
    case (Some p)
    with res(2) have p: "p = resolve e (pjoin d
        (lower prfx @ ''_'' @ check_and_fix_str e (well_name el) @ ''.obs''))"
      and fp: "is_file f1 p" by auto
    from Cons.prems w Some have
      "rft_loop e d prfx out els
         (f1, wdl @ [[well_name el, date el, restart el]],
          ro @ create_rft_ertobs_str e el prfx p,
          gd @ create_rft_gendata_str e el prfx out) = Inr (f', wdl', ro', gd')" by simp
    from Cons.IH [OF this] res(1) res(3) Some fp show ?thesis by (simp add: p)
  qed
qed

text \<open>
  C8. In a run of \<open>write_rft_ertobs\<close> that returns, the three outputs are made from
  one list, in one order: the elements whose filtered frame is not empty, which are the
  elements for which \<open>write_well_rft_files\<close> returned a path. The file of wells, dates
  and restarts holds one row for each of them, the returned \<open>GENERAL_OBSERVATION\<close>
  string one declaration for each, the returned \<open>GEN_DATA\<close> string one declaration for
  each, and the \<open>.obs\<close> file that each declaration names is a file of the store after
  the run.
\<close>

theorem write_rft_ertobs_same_wells:
  assumes "write_rft_ertobs e f rft_dict well_date_file parent_folder =
             Inr (f', rft_ertobs_str, gen_data)"
    and "obs_data rft_dict = Rft els"
    and "written = filter (\<lambda>el. \<not> empty (inactivate_rows (inactive e) (data el))) els"
    and "prfx = subtype_name (config rft_dict)"
    and "obs_file = (\<lambda>el. resolve e (pjoin (pjoin parent_folder ''rft'')
           (lower prfx @ ''_'' @ check_and_fix_str e (well_name el) @ ''.obs'')))"
  shows "f' well_date_file =
           Some (File (to_csv (csv_field e) (map (\<lambda>el. [well_name el, date el, restart el]) written)))
       \<and> rft_ertobs_str = concat (map (\<lambda>el. create_rft_ertobs_str e el prfx (obs_file el)) written)
       \<and> gen_data = concat (map (\<lambda>el. create_rft_gendata_str e el prfx ''gendata_rft'') written)
       \<and> list_all (\<lambda>el. is_file f' (obs_file el)) written
       \<and> (write_well_rft_files e g (pjoin parent_folder ''rft'') prfx el = Inr (g', r) \<longrightarrow>
            (r \<noteq> None) = (\<not> empty (inactivate_rows (inactive e) (data el))))"
proof -
  from assms(1) obtain f1 f2 wdl where
    loop: "rft_loop e (pjoin parent_folder ''rft'') prfx ''gendata_rft'' els (f1, [], [], []) =
        Inr (f2, wdl, rft_ertobs_str, gen_data)"
    and wr: "write_csv_with_comment e f2 well_date_file wdl = Inr f'"
    unfolding write_rft_ertobs_def Let_def assms(2) assms(4)
    by (auto split: sum.splits)
  note res = rft_loop_result [OF loop assms(3) assms(5)]
  from wr have f': "f' = f2(well_date_file \<mapsto> File (to_csv (csv_field e) wdl))"
    unfolding write_csv_with_comment_def by (rule write_text_Inr)
  have files: "list_all (\<lambda>el. is_file f' (obs_file el)) written"
    using res unfolding f' by (auto simp: list_all_iff intro: is_file_upd)
  have ret: "write_well_rft_files e g (pjoin parent_folder ''rft'') prfx el = Inr (g', r) \<longrightarrow>
      (r \<noteq> None) = (\<not> empty (inactivate_rows (inactive e) (data el)))"
    using write_well_rft_files_result(1) by blast
  from res f' files ret show ?thesis by simp
qed

lemma ex_rft_folder: "pjoin [''out''] ''rft'' = [''out'', ''rft'']"
  by (simp add: pjoin_def path_parts_def)

lemma ex_well1_files:
  "write_well_rft_files ex_env ex_store [''out'', ''rft''] ''PRESSURE'' ex_well1 =
     Inr (ex_store([''out'', ''rft'', ''pressure_A1.obs''] \<mapsto> File (''250.5 3.0'' @ NL),
                   [''out'', ''rft'', ''A1.txt''] \<mapsto> File (''1.0 1.0 1.0 1.0 Z1'' @ NL)),
          Some [''out'', ''rft'', ''pressure_A1.obs''])"
  by (simp add: write_well_rft_files_def Let_def inactivate_rows_def empty_def select_columns_def
      write_csv_with_comment_def write_text_def is_dir_def to_csv_def lower_PRESSURE ex_paths
      ex_env_def ex_well1_def ex_frame_def ex_row1_def ex_row2_def ex_store_def)

lemma ex_well2_files:
  "write_well_rft_files ex_env g [''out'', ''rft''] ''PRESSURE'' ex_well2 = Inr (g, None)"
  by (simp add: write_well_rft_files_def Let_def inactivate_rows_def empty_def
      ex_env_def ex_well2_def ex_frame_def ex_row2_def)

lemma ex_run:
  "write_rft_ertobs ex_env ex_store ex_obs [''out'', ''rft'', ''well_date_restart.txt''] [''out''] =
     Inr (ex_store([''out'', ''rft'', ''pressure_A1.obs''] \<mapsto> File (''250.5 3.0'' @ NL),
                   [''out'', ''rft'', ''A1.txt''] \<mapsto> File (''1.0 1.0 1.0 1.0 Z1'' @ NL),
                   [''out'', ''rft'', ''well_date_restart.txt''] \<mapsto> File (''A1 2020-01-01 1'' @ NL)),
          ''GENERAL_OBSERVATION A1_PRESSURE_OBS {DATA=A1_PRESSURE_SIM; RESTART = 1; OBS_FILE = out/rft/pressure_A1.obs;};'' @ NL,
          ''GEN_DATA A1_PRESSURE_SIM RESULT_FILE:gendata_rft/RFT_A1_%d REPORT_STEPS:1'' @ NL)"
proof -
  have m: "mkdir ex_store [''out'', ''rft''] True = Inr ex_store"
    by (simp add: mkdir_def is_dir_def ex_store_def)
  have s1: "create_rft_ertobs_str ex_env ex_well1 ''PRESSURE'' [''out'', ''rft'', ''pressure_A1.obs''] =
      ''GENERAL_OBSERVATION A1_PRESSURE_OBS {DATA=A1_PRESSURE_SIM; RESTART = 1; OBS_FILE = out/rft/pressure_A1.obs;};'' @ NL"
    by (simp add: create_rft_ertobs_str_def str_path_def ex_env_def ex_well1_def)
  have s2: "create_rft_gendata_str ex_env ex_well1 ''PRESSURE'' ''gendata_rft'' =
      ''GEN_DATA A1_PRESSURE_SIM RESULT_FILE:gendata_rft/RFT_A1_%d REPORT_STEPS:1'' @ NL"
    by (simp add: create_rft_gendata_str_def ex_env_def ex_well1_def)
  have w: "write_csv_with_comment ex_env g [''out'', ''rft'', ''well_date_restart.txt'']
      [[well_name ex_well1, date ex_well1, restart ex_well1]] =
      Inr (g([''out'', ''rft'', ''well_date_restart.txt''] \<mapsto> File (''A1 2020-01-01 1'' @ NL)))"
    if "g [''out'', ''rft''] = Some Dir" and "g [''out'', ''rft'', ''well_date_restart.txt''] = None" for g
    using that
    by (simp add: write_csv_with_comment_def write_text_def is_dir_def to_csv_def ex_env_def ex_well1_def)
  have st: "ex_store [''out'', ''rft''] = Some Dir"
    "ex_store [''out'', ''rft'', ''well_date_restart.txt''] = None"
    by (simp_all add: ex_store_def)
  show ?thesis
    unfolding write_rft_ertobs_def Let_def ex_rft_folder
    by (simp add: m ex_obs_def ex_config_def ex_well1_files ex_well2_files s1 s2 w st)
qed

theorem write_rft_ertobs_same_wells_witness:
  "write_rft_ertobs ex_env ex_store ex_obs [''out'', ''rft'', ''well_date_restart.txt''] [''out''] =
     Inr (ex_store([''out'', ''rft'', ''pressure_A1.obs''] \<mapsto> File (''250.5 3.0'' @ NL),
                   [''out'', ''rft'', ''A1.txt''] \<mapsto> File (''1.0 1.0 1.0 1.0 Z1'' @ NL),
                   [''out'', ''rft'', ''well_date_restart.txt''] \<mapsto> File (''A1 2020-01-01 1'' @ NL)),
          ''GENERAL_OBSERVATION A1_PRESSURE_OBS {DATA=A1_PRESSURE_SIM; RESTART = 1; OBS_FILE = out/rft/pressure_A1.obs;};'' @ NL,
          ''GEN_DATA A1_PRESSURE_SIM RESULT_FILE:gendata_rft/RFT_A1_%d REPORT_STEPS:1'' @ NL)
   \<and> filter (\<lambda>el. \<not> empty (inactivate_rows (inactive ex_env) (data el))) [ex_well1, ex_well2] = [ex_well1]
   \<and> ''GENERAL_OBSERVATION A1_PRESSURE_OBS {DATA=A1_PRESSURE_SIM; RESTART = 1; OBS_FILE = out/rft/pressure_A1.obs;};'' @ NL =
       concat (map (\<lambda>el. create_rft_ertobs_str ex_env el ''PRESSURE''
                 (resolve ex_env (pjoin (pjoin [''out''] ''rft'')
                    (lower ''PRESSURE'' @ ''_'' @ check_and_fix_str ex_env (well_name el) @ ''.obs''))))
               [ex_well1])
   \<and> ''GEN_DATA A1_PRESSURE_SIM RESULT_FILE:gendata_rft/RFT_A1_%d REPORT_STEPS:1'' @ NL =
       concat (map (\<lambda>el. create_rft_gendata_str ex_env el ''PRESSURE'' ''gendata_rft'') [ex_well1])"
proof -
  have d: "obs_data ex_obs = Rft [ex_well1, ex_well2]"
    by (simp add: ex_obs_def)
  have wr: "[ex_well1] =
      filter (\<lambda>el. \<not> empty (inactivate_rows (inactive ex_env) (data el))) [ex_well1, ex_well2]"
    by (simp add: empty_def inactivate_rows_def ex_env_def ex_well1_def ex_well2_def ex_frame_def
        ex_row1_def ex_row2_def)
  have p: "''PRESSURE'' = subtype_name (config ex_obs)"
    by (simp add: ex_obs_def ex_config_def)
  show ?thesis
    using ex_run wr [symmetric]
      write_rft_ertobs_same_wells [OF ex_run d wr p refl, where g = ex_store and el = ex_well2]
    by simp
qed

section \<open>The whole call\<close>

lemma pjoin_relative:
  "\<not> prefix ''/'' s \<Longrightarrow> pjoin p s = p @ path_parts s"
  by (cases s) (auto simp: pjoin_def path_parts_def)

lemma prefix_pjoin:
  "\<not> prefix ''/'' s \<Longrightarrow> prefix p q \<Longrightarrow> prefix p (pjoin q s)"
  by (simp add: pjoin_relative prefix_prefix)

lemma wipe_upd:
  "prefix p q \<Longrightarrow> wipe p (g(q \<mapsto> x)) = wipe p g"
  by (auto simp: wipe_def fun_eq_iff)

lemma wipe_write_text:
  "write_text g q s = Inr g' \<Longrightarrow> prefix p q \<Longrightarrow> wipe p g' = wipe p g"
  by (auto dest!: write_text_Inr simp: wipe_upd)

lemma wipe_mkdir:
  "mkdir g q b = Inr g' \<Longrightarrow> prefix p q \<Longrightarrow> wipe p g' = wipe p g"
  by (auto simp: mkdir_def wipe_upd split: if_splits)

lemma dir_write_text:
  "write_text g q s = Inr g' \<Longrightarrow> g p = Some Dir \<Longrightarrow> g' p = Some Dir"
  by (auto simp: write_text_def is_dir_def split: if_splits)

lemma dir_mkdir:
  "mkdir g q b = Inr g' \<Longrightarrow> g p = Some Dir \<Longrightarrow> g' p = Some Dir"
  by (auto simp: mkdir_def is_dir_def split: if_splits)

lemma lower_char_slash:
  assumes "lower_char c = CHR ''/''"
  shows "c = CHR ''/''"
proof (rule ccontr)
  assume neq: "c \<noteq> CHR ''/''"
  with assms have range: "65 \<le> (of_char c :: nat)" "(of_char c :: nat) \<le> 90"
    and eq: "char_of (of_char c + 32 :: nat) = CHR ''/''"
    by (auto simp: lower_char_def Let_def split: if_splits)
  from eq have "(of_char (char_of (of_char c + 32 :: nat)) :: nat) = of_char (CHR ''/'')"
    by simp
  then have "(of_char c + 32) mod 256 = (47 :: nat)"
    by (simp add: of_char_of)
  with range show False by simp
qed

lemma lower_no_slash:
  "\<not> prefix ''/'' s \<Longrightarrow> \<not> prefix ''/'' (lower s @ CHR ''_'' # t)"
  by (cases s) (auto simp: lower_def dest: lower_char_slash [OF sym])

lemma pjoin_names:
  "pjoin parent ''rft'' = parent @ [''rft'']"
  "pjoin parent ''rft/well_date_restart.txt'' = parent @ [''rft'', ''well_date_restart.txt'']"
  "pjoin parent ''readme.txt'' = parent @ [''readme.txt'']"
  "pjoin parent ''ert_observations.obs'' = parent @ [''ert_observations.obs'']"
  "pjoin parent ''gen_data_rft_wells.ert'' = parent @ [''gen_data_rft_wells.ert'']"
  by (simp_all add: pjoin_def path_parts_def)

lemma write_dict_to_ertobs_body:
  "write_dict_to_ertobs e w obs_list parent =
     (case (if exists (files w) parent
            then (case rmtree (files w) parent of
                    Inl err \<Rightarrow> Inl err
                  | Inr f \<Rightarrow> Inr (w\<lparr>files := f, log := log w @ [exists_warning parent],
                                   modes := wipe parent (modes w)\<rparr>))
            else Inr w) of
        Inl err \<Rightarrow> Inl err
      | Inr w1 \<Rightarrow> write_dict_body e w1 obs_list parent)"
  unfolding write_dict_to_ertobs_def write_dict_body_def ..

lemma mkdir_new:
  "mkdir g p False = Inr g' \<Longrightarrow> g' = g(p \<mapsto> Dir)"
  by (auto simp: mkdir_def split: if_splits)

text \<open>What is a directory stays one, and what is a file stays one.\<close>

lemma kept_write_text:
  assumes "write_text g q s = Inr g'"
  shows "(g p = Some Dir \<longrightarrow> g' p = Some Dir) \<and> (is_file g p \<longrightarrow> is_file g' p)"
  using assms by (auto simp: write_text_def is_dir_def is_file_def split: if_splits)

lemma kept_mkdir:
  assumes "mkdir g q b = Inr g'"
  shows "(g p = Some Dir \<longrightarrow> g' p = Some Dir) \<and> (is_file g p \<longrightarrow> is_file g' p)"
  using assms by (auto simp: mkdir_def is_dir_def is_file_def split: if_splits)

lemma kept_write_well_rft_files:
  assumes "write_well_rft_files e g d prfx el = Inr (g', r)"
  shows "(g p = Some Dir \<longrightarrow> g' p = Some Dir) \<and> (is_file g p \<longrightarrow> is_file g' p)"
proof (cases "empty (inactivate_rows (inactive e) (data el))")
  case True
  with assms show ?thesis by (simp add: write_well_rft_files_empty)
next
  case False
  from assms False obtain q1 a q2 b g1 where
    w1: "write_text g q1 a = Inr g1" and w2: "write_text g1 q2 b = Inr g'"
    unfolding write_well_rft_files_def Let_def write_csv_with_comment_def
    by (auto split: sum.splits)
  from kept_write_text [OF w1, of p] kept_write_text [OF w2, of p] show ?thesis by simp
qed

lemma kept_rft_loop:
  assumes "rft_loop e d prfx out els (g, wdl, ro, gd) = Inr (g', wdl', ro', gd')"
  shows "(g p = Some Dir \<longrightarrow> g' p = Some Dir) \<and> (is_file g p \<longrightarrow> is_file g' p)"
  using assms
proof (induction els arbitrary: g wdl ro gd)
  case Nil
  then show ?case by simp
next
  case (Cons el els)
  from Cons.prems obtain g1 r where
    w: "write_well_rft_files e g d prfx el = Inr (g1, r)"
    by (auto split: sum.splits)
  from Cons.prems w obtain wdl1 ro1 gd1 where
    "rft_loop e d prfx out els (g1, wdl1, ro1, gd1) = Inr (g', wdl', ro', gd')"
    by (cases r) auto
  from Cons.IH [OF this] kept_write_well_rft_files [OF w, of p] show ?case by simp
qed

lemma kept_write_rft_ertobs:
  assumes "write_rft_ertobs e g obs wdf parent = Inr (g', ro, gd)"
  shows "(g p = Some Dir \<longrightarrow> g' p = Some Dir) \<and> (is_file g p \<longrightarrow> is_file g' p)"
proof -
  from assms obtain g1 els g2 wdl where
    m: "mkdir g (pjoin parent ''rft'') True = Inr g1"
    and loop: "rft_loop e (pjoin parent ''rft'') (subtype_name (config obs)) ''gendata_rft'' els
        (g1, [], [], []) = Inr (g2, wdl, ro, gd)"
    and wr: "write_text g2 wdf (to_csv (csv_field e) wdl) = Inr g'"
    unfolding write_rft_ertobs_def Let_def write_csv_with_comment_def
    by (auto split: sum.splits)
  from kept_mkdir [OF m, of p] kept_rft_loop [OF loop, of p] kept_write_text [OF wr, of p]
  show ?thesis by simp
qed

lemma kept_obs_step:
  assumes "obs_step e parent wdf gfn obs (w, grs, os, gd) = Inr (w1, grs1, os1, gd1)"
  shows "(files w p = Some Dir \<longrightarrow> files w1 p = Some Dir)
       \<and> (is_file (files w) p \<longrightarrow> is_file (files w1) p) \<and> modes w1 = modes w"
proof (cases "type (config obs) = RFT")
  case True
  with assms obtain g' ro gd' where
    r: "write_rft_ertobs e (files w) obs wdf parent = Inr (g', ro, gd')"
    and g': "files w1 = g'" and m: "modes w1 = modes w"
    unfolding obs_step_def Let_def by (auto split: sum.splits prod.splits if_splits)
  from kept_write_rft_ertobs [OF r, of p] g' m show ?thesis by simp
next
  case False
  with assms have "files w1 = files w" and "modes w1 = modes w"
    unfolding obs_step_def Let_def by (auto split: sum.splits if_splits)
  then show ?thesis by simp
qed

lemma kept_obs_loop:
  assumes "obs_loop e parent wdf gfn obs_list st = Inr st1"
  shows "(files (fst st) p = Some Dir \<longrightarrow> files (fst st1) p = Some Dir)
       \<and> (is_file (files (fst st)) p \<longrightarrow> is_file (files (fst st1)) p)
       \<and> modes (fst st1) = modes (fst st)"
  using assms
proof (induction obs_list arbitrary: st)
  case Nil
  then show ?case by simp
next
  case (Cons obs rest)
  obtain w grs os gd where st: "st = (w, grs, os, gd)" by (cases st) auto
  from Cons.prems obtain w2 grs2 os2 gd2 where
    s: "obs_step e parent wdf gfn obs (w, grs, os, gd) = Inr (w2, grs2, os2, gd2)"
    and l: "obs_loop e parent wdf gfn rest (w2, grs2, os2, gd2) = Inr st1"
    unfolding st by (auto split: sum.splits)
  from kept_obs_step [OF s, of p] Cons.IH [OF l] show ?case unfolding st by simp
qed

text \<open>
  A turn of the loop appends to the log and to the observation string, and reads
  neither: it is its run on the empty log and the empty string, with what this run
  gives put behind what was there.
\<close>

lemma obs_step_delta:
  "obs_step e parent wdf gfn obs (w, grs, os, gd) =
     (case obs_step e parent wdf gfn obs (w\<lparr>log := []\<rparr>, grs, [], gd) of
        Inl err \<Rightarrow> Inl err
      | Inr (w', grs', d, gd') \<Rightarrow> Inr (w'\<lparr>log := log w @ log w'\<rparr>, grs', os @ d, gd'))"
  unfolding obs_step_def Let_def write_genrft_str_def
  by (auto split: sum.splits prod.splits)

lemma obs_loop_delta:
  "obs_loop e parent wdf gfn obs_list (w, grs, os, gd) =
     (case obs_loop e parent wdf gfn obs_list (w\<lparr>log := []\<rparr>, grs, [], gd) of
        Inl err \<Rightarrow> Inl err
      | Inr (w', grs', d, gd') \<Rightarrow> Inr (w'\<lparr>log := log w @ log w'\<rparr>, grs', os @ d, gd'))"
proof (induction obs_list arbitrary: w grs os gd)
  case Nil
  show ?case by simp
next
  case (Cons obs rest)
  show ?case
  proof (cases "obs_step e parent wdf gfn obs (w\<lparr>log := []\<rparr>, grs, [], gd)")
    case (Inl err)
    then show ?thesis
      by (simp add: obs_step_delta [of e parent wdf gfn obs w grs os gd])
  next
    case (Inr st1)
    obtain w1 grs1 d1 gd1 where st1: "st1 = (w1, grs1, d1, gd1)" by (cases st1) auto
    have step: "obs_step e parent wdf gfn obs (w, grs, os, gd) =
        Inr (w1\<lparr>log := log w @ log w1\<rparr>, grs1, os @ d1, gd1)"
      by (simp add: obs_step_delta [of e parent wdf gfn obs w grs os gd] Inr st1)
    show ?thesis
      unfolding obs_loop.simps step Inr st1 sum.case
      by (simp add: Cons.IH [of "w1\<lparr>log := log w @ log w1\<rparr>" grs1 "os @ d1" gd1]
          Cons.IH [of w1 grs1 d1 gd1] split: sum.splits)
  qed
qed

lemma write_dict_body_finish:
  "write_dict_body e w1 obs_list parent =
     (case mkdir (files w1) parent False of
        Inl err \<Rightarrow> Inl err
      | Inr f2 \<Rightarrow>
          (case write_text f2 (pjoin parent ''readme.txt'') (add_time_stamp e 1 [] ''d'' ''--'') of
             Inl err \<Rightarrow> Inl err
           | Inr f3 \<Rightarrow>
               (case obs_loop e parent (pjoin parent ''rft/well_date_restart.txt'') ''gendata_rft''
                       obs_list (w1\<lparr>files := f3\<rparr>, [], add_time_stamp e 0 [] ''f'' ''--'', []) of
                  Inl err \<Rightarrow> Inl err
                | Inr st \<Rightarrow> write_dict_finish e parent st)))"
  unfolding write_dict_body_def write_dict_finish_def Let_def
  by (simp split: sum.splits prod.splits)

lemma write_dict_finish_result:
  assumes "write_dict_finish e parent (w, grs, os, gd) = Inr (w1, s)"
  shows "s = os" and "log w1 = log w" and "modes w1 = (modes w)(parent \<mapsto> 508)"
    and "files w1 (pjoin parent ''ert_observations.obs'') = Some (File os)"
    and "\<exists>g. files w1 = (if gd = [] then (files w)(pjoin parent ''ert_observations.obs'' \<mapsto> File os)
           else (files w)(pjoin parent ''ert_observations.obs'' \<mapsto> File os,
                          pjoin parent ''gen_data_rft_wells.ert'' \<mapsto> File g))"
  using assms
  unfolding write_dict_finish_def chmod_def
  by (auto simp: pjoin_names split: sum.splits if_splits dest!: write_text_Inr)

section \<open>Unsupported observation types\<close>

lemma write_text_content:
  "write_text g q t = (case write_text g q s of Inl err \<Rightarrow> Inl err | Inr g' \<Rightarrow> Inr (g'(q \<mapsto> File t)))"
  by (simp add: write_text_def)

text \<open>
  The last statements read neither the log nor the observation string: with another
  log and another string they fail as before, or differ in the log, in the returned
  string and in what \<open>ert_observations.obs\<close> holds.
\<close>

lemma write_text_beside:
  assumes "q \<noteq> p" and "butlast q \<noteq> p"
  shows "write_text (g(p \<mapsto> File t)) q c =
     (case write_text (g(p \<mapsto> File s)) q c of
        Inl err \<Rightarrow> Inl err
      | Inr g' \<Rightarrow> Inr (g'(p \<mapsto> File t)))"
  using assms by (auto simp: write_text_def is_dir_def fun_eq_iff)

lemma write_dict_finish_insert:
  "write_dict_finish e parent (w\<lparr>log := k\<rparr>, grs, t, gd) =
     (case write_dict_finish e parent (w, grs, s, gd) of
        Inl err \<Rightarrow> Inl err
      | Inr (w0, s0) \<Rightarrow>
          Inr (w0\<lparr>files := (files w0)(pjoin parent ''ert_observations.obs'' \<mapsto> File t),
                 log := k\<rparr>, t))"
proof (cases "write_text (files w) (parent @ [''ert_observations.obs'']) s")
  case (Inl err)
  then show ?thesis
    using write_text_content [of "files w" "parent @ [''ert_observations.obs'']" t s]
    by (simp add: write_dict_finish_def pjoin_names)
next
  case (Inr f5)
  let ?E = "parent @ [''ert_observations.obs'']"
  let ?G = "parent @ [''gen_data_rft_wells.ert'']"
  let ?c = "add_time_stamp e 2 (grs @ GENDATA_EXPLAINER @ gd) ''f'' ''--''"
  from Inr have f5: "f5 = (files w)(?E \<mapsto> File s)" by (rule write_text_Inr)
  have first: "write_text (files w) ?E t = Inr ((files w)(?E \<mapsto> File t))"
    using write_text_content [of "files w" ?E t s] Inr by (simp add: f5)
  have second: "write_text ((files w)(?E \<mapsto> File t)) ?G ?c =
      (case write_text f5 ?G ?c of Inl err \<Rightarrow> Inl err | Inr g' \<Rightarrow> Inr (g'(?E \<mapsto> File t)))"
    unfolding f5 by (rule write_text_beside) simp_all
  have ch: "chmod (w\<lparr>log := k, files := g(?E \<mapsto> File t)\<rparr>) parent 508 =
      (case chmod (w\<lparr>files := g\<rparr>) parent 508 of
         Inl err \<Rightarrow> Inl err
       | Inr w7 \<Rightarrow> Inr (w7\<lparr>files := (files w7)(?E \<mapsto> File t), log := k\<rparr>))" for g
    by (simp add: chmod_def exists_def is_dir_def)
  have same: "f5(?E \<mapsto> File t) = (files w)(?E \<mapsto> File t)"
    by (simp add: f5)
  show ?thesis
  proof (cases "gd = []")
    case True
    show ?thesis
      unfolding write_dict_finish_def pjoin_names prod.case
      using ch [of f5] True
      by (simp add: Inr first same split: sum.splits)
  next
    case False
    show ?thesis
    proof (cases "write_text f5 ?G ?c")
      case (Inl err)
      then show ?thesis
        unfolding write_dict_finish_def pjoin_names prod.case
        using False second by (simp add: Inr first)
    next
      case g: (Inr f6)
      show ?thesis
        unfolding write_dict_finish_def pjoin_names prod.case
        using False second ch [of f6] g
        by (simp add: Inr first split: sum.splits)
    qed
  qed
qed

lemma obs_loop_without:
  "obs_loop e parent wdf gfn (before @ after) st =
     (case obs_loop e parent wdf gfn before st of
        Inl err \<Rightarrow> Inl err
      | Inr (wB, grsB, osB, gdB) \<Rightarrow>
          (case obs_loop e parent wdf gfn after (wB\<lparr>log := []\<rparr>, grsB, [], gdB) of
             Inl err \<Rightarrow> Inl err
           | Inr (w', grs', d, gd') \<Rightarrow>
               Inr (w'\<lparr>log := log wB @ log w'\<rparr>, grs', osB @ d, gd')))"
proof (cases "obs_loop e parent wdf gfn before st")
  case (Inl err)
  then show ?thesis by (simp add: obs_loop_append)
next
  case (Inr stB)
  obtain wB grsB osB gdB where stB: "stB = (wB, grsB, osB, gdB)" by (cases stB) auto
  show ?thesis
    unfolding obs_loop_append Inr stB sum.case prod.case
    by (rule obs_loop_delta)
qed

lemma obs_loop_with:
  assumes "type (config obs) \<noteq> SUMMARY" and "type (config obs) \<noteq> RFT"
  shows "obs_loop e parent wdf gfn (before @ obs # after) st =
     (case obs_loop e parent wdf gfn before st of
        Inl err \<Rightarrow> Inl err
      | Inr (wB, grsB, osB, gdB) \<Rightarrow>
          (case obs_loop e parent wdf gfn after (wB\<lparr>log := []\<rparr>, grsB, [], gdB) of
             Inl err \<Rightarrow> Inl err
           | Inr (w', grs', d, gd') \<Rightarrow>
               Inr (w'\<lparr>log := log wB @ [unsupported_warning] @ log w'\<rparr>, grs',
                    osB @ (''--'' @ NL @ ''--'' @ name (config obs) @ NL) @ d, gd')))"
proof (cases "obs_loop e parent wdf gfn before st")
  case (Inl err)
  then show ?thesis by (simp add: obs_loop_append)
next
  case (Inr stB)
  obtain wB grsB osB gdB where stB: "stB = (wB, grsB, osB, gdB)" by (cases stB) auto
  have "obs_loop e parent wdf gfn (obs # after) (wB, grsB, osB, gdB) =
      obs_loop e parent wdf gfn after
        (wB\<lparr>log := log wB @ [unsupported_warning]\<rparr>, grsB,
         osB @ ''--'' @ NL @ ''--'' @ name (config obs) @ NL, gdB)"
    by (simp add: obs_step_unsupported [OF assms])
  also have "\<dots> =
      (case obs_loop e parent wdf gfn after (wB\<lparr>log := []\<rparr>, grsB, [], gdB) of
         Inl err \<Rightarrow> Inl err
       | Inr (w', grs', d, gd') \<Rightarrow>
           Inr (w'\<lparr>log := log wB @ [unsupported_warning] @ log w'\<rparr>, grs',
                osB @ (''--'' @ NL @ ''--'' @ name (config obs) @ NL) @ d, gd'))"
    using obs_loop_delta [of e parent wdf gfn after "wB\<lparr>log := log wB @ [unsupported_warning]\<rparr>"
        grsB "osB @ ''--'' @ NL @ ''--'' @ name (config obs) @ NL" gdB]
    by (simp cong: sum.case_cong prod.case_cong)
  finally show ?thesis
    unfolding obs_loop_append [of e parent wdf gfn before "obs # after"] Inr stB sum.case prod.case .
qed

text \<open>
  The whole call from \<open>parent.mkdir()\<close> on, with such an entry at the end of the list:
  the call without it, then the warning, and the two lines behind the string that is
  returned and written.
\<close>

lemma write_dict_body_last:
  assumes "type (config obs) \<noteq> SUMMARY" and "type (config obs) \<noteq> RFT"
  shows "write_dict_body e w (before @ [obs]) parent =
     (case write_dict_body e w before parent of
        Inl err \<Rightarrow> Inl err
      | Inr (w0, s0) \<Rightarrow>
          Inr (w0\<lparr>files := (files w0)(pjoin parent ''ert_observations.obs'' \<mapsto>
                                File (s0 @ ''--'' @ NL @ ''--'' @ name (config obs) @ NL)),
                 log := log w0 @ [unsupported_warning]\<rparr>,
               s0 @ ''--'' @ NL @ ''--'' @ name (config obs) @ NL))"
proof (cases "mkdir (files w) parent False")
  case (Inl err)
  then show ?thesis by (simp add: write_dict_body_finish)
next
  case m: (Inr f2)
  show ?thesis
  proof (cases "write_text f2 (pjoin parent ''readme.txt'') (add_time_stamp e 1 [] ''d'' ''--'')")
    case (Inl err)
    then show ?thesis by (simp add: write_dict_body_finish m)
  next
    case r: (Inr f3)
    let ?wd = "pjoin parent ''rft/well_date_restart.txt''"
    let ?st = "(w\<lparr>files := f3\<rparr>, [], add_time_stamp e 0 [] ''f'' ''--'', [])"
    have body: "write_dict_body e w l parent =
        (case obs_loop e parent ?wd ''gendata_rft'' l ?st of
           Inl err \<Rightarrow> Inl err
         | Inr st \<Rightarrow> write_dict_finish e parent st)" for l
      using r by (simp add: write_dict_body_finish m)
    show ?thesis
    proof (cases "obs_loop e parent ?wd ''gendata_rft'' before ?st")
      case (Inl err)
      then show ?thesis unfolding body by (simp add: obs_loop_append)
    next
      case b: (Inr stB)
      obtain wB grsB osB gdB where stB: "stB = (wB, grsB, osB, gdB)" by (cases stB) auto
      have bef: "write_dict_body e w before parent = write_dict_finish e parent (wB, grsB, osB, gdB)"
        unfolding body b stB by simp
      have aft: "write_dict_body e w (before @ [obs]) parent =
          write_dict_finish e parent
            (wB\<lparr>log := log wB @ [unsupported_warning]\<rparr>, grsB,
             osB @ ''--'' @ NL @ ''--'' @ name (config obs) @ NL, gdB)"
        unfolding body obs_loop_append b stB
        by (simp add: obs_step_unsupported [OF assms])
      show ?thesis
      proof (cases "write_dict_finish e parent (wB, grsB, osB, gdB)")
        case (Inl err)
        with write_dict_finish_insert [where e = e and parent = parent and w = wB
            and k = "log wB @ [unsupported_warning]" and grs = grsB
            and t = "osB @ ''--'' @ NL @ ''--'' @ name (config obs) @ NL" and gd = gdB and s = osB]
        show ?thesis unfolding bef aft by simp
      next
        case f: (Inr res)
        obtain w0 s0 where res: "res = (w0, s0)" by (cases res) auto
        from f have f': "write_dict_finish e parent (wB, grsB, osB, gdB) = Inr (w0, s0)"
          unfolding res .
        from write_dict_finish_result(1,2) [OF f'] have eqs: "s0 = osB" "log w0 = log wB" .
        from write_dict_finish_insert [where e = e and parent = parent and w = wB
            and k = "log wB @ [unsupported_warning]" and grs = grsB
            and t = "osB @ ''--'' @ NL @ ''--'' @ name (config obs) @ NL" and gd = gdB and s = osB] f'
        show ?thesis unfolding bef aft by (simp add: eqs)
      qed
    qed
  qed
qed

text \<open>The same with the entry anywhere in the list.\<close>

lemma write_dict_body_skip:
  assumes "type (config obs) \<noteq> SUMMARY" and "type (config obs) \<noteq> RFT"
  shows "(\<exists>err. write_dict_body e w (before @ after) parent = Inl err
            \<and> write_dict_body e w (before @ obs # after) parent = Inl err)
       \<or> (\<exists>w0 a b la lb.
            write_dict_body e w (before @ after) parent = Inr (w0, a @ b)
          \<and> log w0 = la @ lb
          \<and> (\<forall>wb sb. write_dict_body e w before parent = Inr (wb, sb) \<longrightarrow> a = sb \<and> la = log wb)
          \<and> write_dict_body e w (before @ obs # after) parent =
              Inr (w0\<lparr>files := (files w0)(pjoin parent ''ert_observations.obs'' \<mapsto>
                                    File (a @ (''--'' @ NL @ ''--'' @ name (config obs) @ NL) @ b)),
                     log := la @ [unsupported_warning] @ lb\<rparr>,
                   a @ (''--'' @ NL @ ''--'' @ name (config obs) @ NL) @ b))"
proof (cases "mkdir (files w) parent False")
  case (Inl err)
  then show ?thesis by (simp add: write_dict_body_finish)
next
  case m: (Inr f2)
  show ?thesis
  proof (cases "write_text f2 (pjoin parent ''readme.txt'') (add_time_stamp e 1 [] ''d'' ''--'')")
    case (Inl err)
    then show ?thesis by (simp add: write_dict_body_finish m)
  next
    case r: (Inr f3)
    let ?wd = "pjoin parent ''rft/well_date_restart.txt''"
    let ?st = "(w\<lparr>files := f3\<rparr>, [], add_time_stamp e 0 [] ''f'' ''--'', [])"
    let ?h = "''--'' @ NL @ ''--'' @ name (config obs) @ NL"
    have body: "write_dict_body e w l parent =
        (case obs_loop e parent ?wd ''gendata_rft'' l ?st of
           Inl err \<Rightarrow> Inl err
         | Inr st \<Rightarrow> write_dict_finish e parent st)" for l
      using r by (simp add: write_dict_body_finish m)
    show ?thesis
    proof (cases "obs_loop e parent ?wd ''gendata_rft'' before ?st")
      case (Inl err)
      then show ?thesis unfolding body by (simp add: obs_loop_append)
    next
      case b: (Inr stB)
      obtain wB grsB osB gdB where stB: "stB = (wB, grsB, osB, gdB)" by (cases stB) auto
      have bef: "write_dict_body e w before parent = write_dict_finish e parent (wB, grsB, osB, gdB)"
        unfolding body b stB by simp
      have loop_without: "obs_loop e parent ?wd ''gendata_rft'' (before @ after) ?st =
          (case obs_loop e parent ?wd ''gendata_rft'' after (wB\<lparr>log := []\<rparr>, grsB, [], gdB) of
             Inl err \<Rightarrow> Inl err
           | Inr (w', grs', d, gd') \<Rightarrow>
               Inr (w'\<lparr>log := log wB @ log w'\<rparr>, grs', osB @ d, gd'))"
        unfolding obs_loop_without [of e parent ?wd "''gendata_rft''" before after ?st] b stB
        by simp
      have loop_with: "obs_loop e parent ?wd ''gendata_rft'' (before @ obs # after) ?st =
          (case obs_loop e parent ?wd ''gendata_rft'' after (wB\<lparr>log := []\<rparr>, grsB, [], gdB) of
             Inl err \<Rightarrow> Inl err
           | Inr (w', grs', d, gd') \<Rightarrow>
               Inr (w'\<lparr>log := log wB @ [unsupported_warning] @ log w'\<rparr>, grs',
                    osB @ ?h @ d, gd'))"
        unfolding obs_loop_with [OF assms, of e parent ?wd "''gendata_rft''" before after ?st] b stB
        by simp
      show ?thesis
      proof (cases "obs_loop e parent ?wd ''gendata_rft'' after (wB\<lparr>log := []\<rparr>, grsB, [], gdB)")
        case (Inl err)
        then show ?thesis
          unfolding body loop_with loop_without by simp
      next
        case a: (Inr stA)
        obtain w' grs' d gd' where stA: "stA = (w', grs', d, gd')" by (cases stA) auto
        have without: "write_dict_body e w (before @ after) parent =
            write_dict_finish e parent (w'\<lparr>log := log wB @ log w'\<rparr>, grs', osB @ d, gd')"
          unfolding body loop_without a stA by simp
        have incl: "write_dict_body e w (before @ obs # after) parent =
            write_dict_finish e parent
              (w'\<lparr>log := log wB @ [unsupported_warning] @ log w'\<rparr>, grs', osB @ ?h @ d, gd')"
          unfolding body loop_with a stA by simp
        have ins: "write_dict_finish e parent
              (w'\<lparr>log := log wB @ [unsupported_warning] @ log w'\<rparr>, grs', osB @ ?h @ d, gd') =
            (case write_dict_finish e parent (w'\<lparr>log := log wB @ log w'\<rparr>, grs', osB @ d, gd') of
               Inl err \<Rightarrow> Inl err
             | Inr (w0, s0) \<Rightarrow>
                 Inr (w0\<lparr>files := (files w0)(pjoin parent ''ert_observations.obs'' \<mapsto>
                                       File (osB @ ?h @ d)),
                        log := log wB @ [unsupported_warning] @ log w'\<rparr>, osB @ ?h @ d))"
          using write_dict_finish_insert [where e = e and parent = parent
              and w = "w'\<lparr>log := log wB @ log w'\<rparr>"
              and k = "log wB @ [unsupported_warning] @ log w'" and grs = grs'
              and t = "osB @ ?h @ d" and gd = gd' and s = "osB @ d"]
          by simp
        show ?thesis
        proof (cases "write_dict_finish e parent (w'\<lparr>log := log wB @ log w'\<rparr>, grs', osB @ d, gd')")
          case (Inl err)
          then show ?thesis unfolding without incl ins by simp
        next
          case f: (Inr res)
          obtain w0 s0 where res: "res = (w0, s0)" by (cases res) auto
          from f have f': "write_dict_finish e parent
              (w'\<lparr>log := log wB @ log w'\<rparr>, grs', osB @ d, gd') = Inr (w0, s0)"
            unfolding res .
          from write_dict_finish_result(1,2) [OF f']
          have eqs: "s0 = osB @ d" "log w0 = log wB @ log w'" by simp_all
          have pos: "\<forall>wb sb. write_dict_body e w before parent = Inr (wb, sb)
              \<longrightarrow> osB = sb \<and> log wB = log wb"
            unfolding bef by (auto dest: write_dict_finish_result(1,2))
          have res_with: "write_dict_body e w (before @ obs # after) parent =
              Inr (w0\<lparr>files := (files w0)(pjoin parent ''ert_observations.obs'' \<mapsto>
                                    File (osB @ ?h @ d)),
                     log := log wB @ [unsupported_warning] @ log w'\<rparr>, osB @ ?h @ d)"
            unfolding incl ins f' by simp
          have res_without: "write_dict_body e w (before @ after) parent = Inr (w0, osB @ d)"
            unfolding without f' eqs ..
          from res_without eqs(2) pos res_with show ?thesis by blast
        qed
      qed
    qed
  qed
qed

text \<open>
  The statements before \<open>parent.mkdir()\<close> do not read the list: they raise, or leave a
  world from which the rest of the call goes on, whatever the list.
\<close>

lemma write_dict_to_ertobs_prelude:
  "(\<exists>err. \<forall>l. write_dict_to_ertobs e w l parent = Inl err)
   \<or> (\<exists>w1. \<forall>l. write_dict_to_ertobs e w l parent = write_dict_body e w1 l parent)"
proof (cases "exists (files w) parent")
  case False
  then show ?thesis by (auto simp: write_dict_to_ertobs_body)
next
  case True
  then show ?thesis
    by (cases "rmtree (files w) parent") (auto simp: write_dict_to_ertobs_body)
qed

text \<open>
  Where there is nothing at \<open>parent\<close> and nothing below it, and the directory above is
  there, the call on entries of unsupported types only returns, and what it leaves is
  known in full.
\<close>

lemma write_dict_body_fresh:
  assumes "\<not> exists (files w) parent" and "is_dir (files w) (butlast parent)"
    and "wipe parent (files w) = files w"
  shows "write_dict_body e w [] parent =
     Inr (w\<lparr>files := (files w)
                (parent \<mapsto> Dir,
                 pjoin parent ''readme.txt'' \<mapsto> File (add_time_stamp e 1 [] ''d'' ''--''),
                 pjoin parent ''ert_observations.obs'' \<mapsto> File (add_time_stamp e 0 [] ''f'' ''--'')),
            modes := (modes w)(parent \<mapsto> 508)\<rparr>,
          add_time_stamp e 0 [] ''f'' ''--'')"
proof -
  have none: "files w (parent @ x) = None" for x
    using fun_cong [OF assms(3), of "parent @ x"] by (simp add: wipe_def)
  from assms(1) have np: "parent \<noteq> []" "parent \<noteq> [''/'']" "files w parent = None"
    by (auto simp: exists_def is_dir_def)
  have m: "mkdir (files w) parent False = Inr ((files w)(parent \<mapsto> Dir))"
    using np assms(2) by (simp add: mkdir_def is_dir_def)
  have r: "write_text ((files w)(parent \<mapsto> Dir)) (parent @ [''readme.txt'']) c =
      Inr ((files w)(parent \<mapsto> Dir, parent @ [''readme.txt''] \<mapsto> File c))" for c
    using none [of "[''readme.txt'']"] by (simp add: write_text_def is_dir_def)
  have o: "write_text ((files w)(parent \<mapsto> Dir, parent @ [''readme.txt''] \<mapsto> File c))
        (parent @ [''ert_observations.obs'']) s =
      Inr ((files w)(parent \<mapsto> Dir, parent @ [''readme.txt''] \<mapsto> File c,
                     parent @ [''ert_observations.obs''] \<mapsto> File s))" for c s
    using none [of "[''ert_observations.obs'']"] by (simp add: write_text_def is_dir_def)
  show ?thesis
    by (simp add: write_dict_body_finish pjoin_names m r o write_dict_finish_def
        chmod_def exists_def is_dir_def)
qed

lemma write_dict_body_unsupported:
  assumes "\<not> exists (files w) parent" and "is_dir (files w) (butlast parent)"
    and "wipe parent (files w) = files w"
    and "list_all (\<lambda>obs. type (config obs) \<noteq> SUMMARY \<and> type (config obs) \<noteq> RFT) others"
  shows "write_dict_body e w others parent =
     Inr (w\<lparr>files := (files w)
                (parent \<mapsto> Dir,
                 pjoin parent ''readme.txt'' \<mapsto> File (add_time_stamp e 1 [] ''d'' ''--''),
                 pjoin parent ''ert_observations.obs'' \<mapsto>
                   File (add_time_stamp e 0 [] ''f'' ''--''
                         @ concat (map (\<lambda>obs. ''--'' @ NL @ ''--'' @ name (config obs) @ NL) others))),
            log := log w @ replicate (length others) unsupported_warning,
            modes := (modes w)(parent \<mapsto> 508)\<rparr>,
          add_time_stamp e 0 [] ''f'' ''--''
          @ concat (map (\<lambda>obs. ''--'' @ NL @ ''--'' @ name (config obs) @ NL) others))"
  using assms(4)
proof (induction others rule: rev_induct)
  case Nil
  have eq: "w\<lparr>files := F, log := log w @ replicate 0 unsupported_warning, modes := M\<rparr> =
      w\<lparr>files := F, modes := M\<rparr>" for F M
    by (cases w) simp
  show ?case
    unfolding list.size(3) list.map concat.simps append_Nil2 eq
    by (rule write_dict_body_fresh [OF assms(1-3)])
next
  case (snoc obs others)
  from snoc.prems have ty: "type (config obs) \<noteq> SUMMARY" "type (config obs) \<noteq> RFT"
    and rest: "list_all (\<lambda>obs. type (config obs) \<noteq> SUMMARY \<and> type (config obs) \<noteq> RFT) others"
    by simp_all
  show ?case
    unfolding write_dict_body_last [OF ty] snoc.IH [OF rest] sum.case prod.case
    by (cases w) (simp add: replicate_append_same fun_eq_iff)
qed

lemma header_lines:
  assumes "CHR 0x0A \<notin> set n"
  shows "split_char (CHR 0x0A) (''--'' @ NL @ ''--'' @ n @ NL) = [''--'', ''--'' @ n, []]"
  using split_char_line [of "CHR 0x0A" "''--''" "''--'' @ n @ NL"]
    split_char_line [of "CHR 0x0A" "''--'' @ n" "[]"] assms
  by simp


lemma ex_fresh_call:
  assumes "type (config obs) \<noteq> SUMMARY" and "type (config obs) \<noteq> RFT"
  shows "write_dict_to_ertobs ex_env ex_fresh [obs] [''out''] =
     Inr (\<lparr>files = [[''out''] \<mapsto> Dir,
                     [''out'', ''readme.txt''] \<mapsto> File (add_time_stamp ex_env 1 [] ''d'' ''--''),
                     [''out'', ''ert_observations.obs''] \<mapsto>
                       File (add_time_stamp ex_env 0 [] ''f'' ''--''
                             @ ''--'' @ NL @ ''--'' @ name (config obs) @ NL)],
            log = [unsupported_warning],
            modes = [[''out''] \<mapsto> 508]\<rparr>,
          add_time_stamp ex_env 0 [] ''f'' ''--'' @ ''--'' @ NL @ ''--'' @ name (config obs) @ NL)"
proof -
  have fresh: "\<not> exists (files ex_fresh) [''out'']" "is_dir (files ex_fresh) (butlast [''out''])"
    "wipe [''out''] (files ex_fresh) = files ex_fresh"
    by (simp_all add: ex_fresh_def exists_def is_dir_def wipe_def)
  from assms
  have "list_all (\<lambda>obs. type (config obs) \<noteq> SUMMARY \<and> type (config obs) \<noteq> RFT) [obs]"
    by simp
  from write_dict_body_unsupported [OF fresh this, of ex_env] fresh(1)
  show ?thesis
    by (simp add: write_dict_to_ertobs_body pjoin_names ex_fresh_def)
qed


lemma write_dict_to_ertobs_last:
  assumes "type (config obs) \<noteq> SUMMARY" and "type (config obs) \<noteq> RFT"
  shows "write_dict_to_ertobs e w (before @ [obs]) parent =
     (case write_dict_to_ertobs e w before parent of
        Inl err \<Rightarrow> Inl err
      | Inr (w0, s0) \<Rightarrow>
          Inr (w0\<lparr>files := (files w0)(pjoin parent ''ert_observations.obs'' \<mapsto>
                                File (s0 @ ''--'' @ NL @ ''--'' @ name (config obs) @ NL)),
                 log := log w0 @ [unsupported_warning]\<rparr>,
               s0 @ ''--'' @ NL @ ''--'' @ name (config obs) @ NL))"
  using write_dict_to_ertobs_prelude [of e w parent]
proof (elim disjE exE)
  fix err0
  assume raised: "\<forall>l. write_dict_to_ertobs e w l parent = Inl err0"
  show ?thesis unfolding raised [THEN spec] by simp
next
  fix w'
  assume body: "\<forall>l. write_dict_to_ertobs e w l parent = write_dict_body e w' l parent"
  show ?thesis unfolding body [THEN spec] by (rule write_dict_body_last [OF assms])
qed

lemma write_dict_to_ertobs_skip:
  assumes "type (config obs) \<noteq> SUMMARY" and "type (config obs) \<noteq> RFT"
  shows "(\<exists>err. write_dict_to_ertobs e w (before @ after) parent = Inl err
            \<and> write_dict_to_ertobs e w (before @ obs # after) parent = Inl err)
       \<or> (\<exists>w0 a b la lb.
            write_dict_to_ertobs e w (before @ after) parent = Inr (w0, a @ b)
          \<and> log w0 = la @ lb
          \<and> (\<forall>wb sb. write_dict_to_ertobs e w before parent = Inr (wb, sb) \<longrightarrow> a = sb \<and> la = log wb)
          \<and> write_dict_to_ertobs e w (before @ obs # after) parent =
              Inr (w0\<lparr>files := (files w0)(pjoin parent ''ert_observations.obs'' \<mapsto>
                                    File (a @ (''--'' @ NL @ ''--'' @ name (config obs) @ NL) @ b)),
                     log := la @ [unsupported_warning] @ lb\<rparr>,
                   a @ (''--'' @ NL @ ''--'' @ name (config obs) @ NL) @ b))"
  using write_dict_to_ertobs_prelude [of e w parent]
proof (elim disjE exE)
  fix err0
  assume raised: "\<forall>l. write_dict_to_ertobs e w l parent = Inl err0"
  show ?thesis unfolding raised [THEN spec] by simp
next
  fix w'
  assume body: "\<forall>l. write_dict_to_ertobs e w l parent = write_dict_body e w' l parent"
  show ?thesis unfolding body [THEN spec] by (rule write_dict_body_skip [OF assms])
qed

text \<open>
  C1. An entry of the observation list whose configured type is neither \<open>SUMMARY\<close> nor
  \<open>RFT\<close> is skipped after a warning, and what it adds is a comment when its configured
  name has no line break. Its turn of the loop returns: it appends the warning to the
  log, leaves every file and the \<open>GEN_DATA\<close> text as they are, and adds to the
  observation string the two lines \<open>--\<close> and \<open>--<name>\<close>. For the call of
  \<open>write_dict_to_ertobs\<close> as a whole: with the entry at the end of the list, the call is
  the call on the list without it, followed by the warning and by the two lines behind
  the string that is returned and written to \<open>ert_observations.obs\<close>; with the entry
  anywhere in the list, the call raises exactly the errors of the call without it, and
  where that one returns, the call with the entry returns the same world, but for the
  warning in the log and the two lines in the returned string and in
  \<open>ert_observations.obs\<close>, which stand behind what the entries before it have given;
  no other file differs. On a list of such entries only, where nothing is at \<open>parent\<close>
  or below it and the directory above is there, the call returns: it leaves the
  directory with the readme file and \<open>ert_observations.obs\<close>, nothing else, one warning
  for each entry, and the string made of the stamp and the two lines of each entry. When
  the configured name has no line break, each of the two lines starts with the comment
  mark, so that none of them is a declaration.
\<close>


theorem unsupported_observation_skipped:
  assumes "type (config obs) \<noteq> SUMMARY" and "type (config obs) \<noteq> RFT"
  shows "obs_step e parent wdf gfn obs (v, grs, os, gd) =
           Inr (v\<lparr>log := log v @ [unsupported_warning]\<rparr>, grs,
                os @ ''--'' @ NL @ ''--'' @ name (config obs) @ NL, gd)
       \<and> write_dict_to_ertobs e w (before @ [obs]) parent =
           (case write_dict_to_ertobs e w before parent of
              Inl err \<Rightarrow> Inl err
            | Inr (w0, s0) \<Rightarrow>
                Inr (w0\<lparr>files := (files w0)(pjoin parent ''ert_observations.obs'' \<mapsto>
                                      File (s0 @ ''--'' @ NL @ ''--'' @ name (config obs) @ NL)),
                       log := log w0 @ [unsupported_warning]\<rparr>,
                     s0 @ ''--'' @ NL @ ''--'' @ name (config obs) @ NL))
       \<and> ((write_dict_to_ertobs e w (before @ obs # after) parent = Inl err)
            = (write_dict_to_ertobs e w (before @ after) parent = Inl err))
       \<and> (write_dict_to_ertobs e w (before @ after) parent = Inr (w1, s1) \<longrightarrow>
            (\<exists>a b la lb.
               s1 = a @ b \<and> log w1 = la @ lb
             \<and> (\<forall>wb sb. write_dict_to_ertobs e w before parent = Inr (wb, sb)
                    \<longrightarrow> a = sb \<and> la = log wb)
             \<and> write_dict_to_ertobs e w (before @ obs # after) parent =
                 Inr (w1\<lparr>files := (files w1)(pjoin parent ''ert_observations.obs'' \<mapsto>
                                       File (a @ (''--'' @ NL @ ''--'' @ name (config obs) @ NL) @ b)),
                        log := la @ [unsupported_warning] @ lb\<rparr>,
                      a @ (''--'' @ NL @ ''--'' @ name (config obs) @ NL) @ b)))
       \<and> (\<not> exists (files w) parent \<and> is_dir (files w) (butlast parent)
            \<and> wipe parent (files w) = files w
            \<and> list_all (\<lambda>x. type (config x) \<noteq> SUMMARY \<and> type (config x) \<noteq> RFT) others \<longrightarrow>
            write_dict_to_ertobs e w others parent =
              Inr (w\<lparr>files := (files w)
                         (parent \<mapsto> Dir,
                          pjoin parent ''readme.txt'' \<mapsto> File (add_time_stamp e 1 [] ''d'' ''--''),
                          pjoin parent ''ert_observations.obs'' \<mapsto>
                            File (add_time_stamp e 0 [] ''f'' ''--''
                                  @ concat (map (\<lambda>x. ''--'' @ NL @ ''--'' @ name (config x) @ NL) others))),
                     log := log w @ replicate (length others) unsupported_warning,
                     modes := (modes w)(parent \<mapsto> 508)\<rparr>,
                   add_time_stamp e 0 [] ''f'' ''--''
                   @ concat (map (\<lambda>x. ''--'' @ NL @ ''--'' @ name (config x) @ NL) others)))
       \<and> (CHR 0x0A \<notin> set (name (config obs)) \<longrightarrow>
            list_all (\<lambda>l. l = [] \<or> prefix ''--'' l)
              (split_char (CHR 0x0A) (''--'' @ NL @ ''--'' @ name (config obs) @ NL)))"
proof -
  let ?h = "''--'' @ NL @ ''--'' @ name (config obs) @ NL"
  have step: "obs_step e parent wdf gfn obs (v, grs, os, gd) =
      Inr (v\<lparr>log := log v @ [unsupported_warning]\<rparr>, grs, os @ ?h, gd)"
    by (rule obs_step_unsupported [OF assms])
  have last: "write_dict_to_ertobs e w (before @ [obs]) parent =
      (case write_dict_to_ertobs e w before parent of
         Inl err \<Rightarrow> Inl err
       | Inr (w0, s0) \<Rightarrow>
           Inr (w0\<lparr>files := (files w0)(pjoin parent ''ert_observations.obs'' \<mapsto> File (s0 @ ?h)),
                  log := log w0 @ [unsupported_warning]\<rparr>, s0 @ ?h))"
    by (rule write_dict_to_ertobs_last [OF assms])
  have errs: "(write_dict_to_ertobs e w (before @ obs # after) parent = Inl err)
      = (write_dict_to_ertobs e w (before @ after) parent = Inl err)"
    using write_dict_to_ertobs_skip [OF assms, of e w before after parent]
    by (elim disjE exE conjE) simp_all
  have rets: "write_dict_to_ertobs e w (before @ after) parent = Inr (w1, s1) \<longrightarrow>
      (\<exists>a b la lb.
         s1 = a @ b \<and> log w1 = la @ lb
       \<and> (\<forall>wb sb. write_dict_to_ertobs e w before parent = Inr (wb, sb)
              \<longrightarrow> a = sb \<and> la = log wb)
       \<and> write_dict_to_ertobs e w (before @ obs # after) parent =
           Inr (w1\<lparr>files := (files w1)(pjoin parent ''ert_observations.obs'' \<mapsto>
                                 File (a @ (''--'' @ NL @ ''--'' @ name (config obs) @ NL) @ b)),
                  log := la @ [unsupported_warning] @ lb\<rparr>,
                a @ (''--'' @ NL @ ''--'' @ name (config obs) @ NL) @ b))"
  proof
    assume ret: "write_dict_to_ertobs e w (before @ after) parent = Inr (w1, s1)"
    from write_dict_to_ertobs_skip [OF assms, of e w before after parent]
    show "\<exists>a b la lb.
                 s1 = a @ b \<and> log w1 = la @ lb
               \<and> (\<forall>wb sb. write_dict_to_ertobs e w before parent = Inr (wb, sb)
                      \<longrightarrow> a = sb \<and> la = log wb)
               \<and> write_dict_to_ertobs e w (before @ obs # after) parent =
                   Inr (w1\<lparr>files := (files w1)(pjoin parent ''ert_observations.obs'' \<mapsto>
                                         File (a @ (''--'' @ NL @ ''--'' @ name (config obs) @ NL) @ b)),
                          log := la @ [unsupported_warning] @ lb\<rparr>,
                        a @ (''--'' @ NL @ ''--'' @ name (config obs) @ NL) @ b)"
    proof (elim disjE exE conjE)
      fix err0
      assume "write_dict_to_ertobs e w (before @ after) parent = Inl err0"
      with ret show ?thesis by simp
    next
      fix w0 a b la lb
      assume r0: "write_dict_to_ertobs e w (before @ after) parent = Inr (w0, a @ b)"
        and l0: "log w0 = la @ lb"
        and p0: "\<forall>wb sb. write_dict_to_ertobs e w before parent = Inr (wb, sb) \<longrightarrow> a = sb \<and> la = log wb"
        and i0: "write_dict_to_ertobs e w (before @ obs # after) parent =
                Inr (w0\<lparr>files := (files w0)(pjoin parent ''ert_observations.obs'' \<mapsto>
                                      File (a @ (''--'' @ NL @ ''--'' @ name (config obs) @ NL) @ b)),
                       log := la @ [unsupported_warning] @ lb\<rparr>,
                     a @ (''--'' @ NL @ ''--'' @ name (config obs) @ NL) @ b)"
      from ret r0 have same: "w1 = w0" "s1 = a @ b" by simp_all
      from same(2) l0 p0 i0 show ?thesis unfolding same(1) by (intro exI conjI)
    qed
  qed
  have fresh: "\<not> exists (files w) parent \<and> is_dir (files w) (butlast parent)
        \<and> wipe parent (files w) = files w
        \<and> list_all (\<lambda>x. type (config x) \<noteq> SUMMARY \<and> type (config x) \<noteq> RFT) others \<longrightarrow>
      write_dict_to_ertobs e w others parent =
        Inr (w\<lparr>files := (files w)
                   (parent \<mapsto> Dir,
                    pjoin parent ''readme.txt'' \<mapsto> File (add_time_stamp e 1 [] ''d'' ''--''),
                    pjoin parent ''ert_observations.obs'' \<mapsto>
                      File (add_time_stamp e 0 [] ''f'' ''--''
                            @ concat (map (\<lambda>x. ''--'' @ NL @ ''--'' @ name (config x) @ NL) others))),
               log := log w @ replicate (length others) unsupported_warning,
               modes := (modes w)(parent \<mapsto> 508)\<rparr>,
             add_time_stamp e 0 [] ''f'' ''--''
             @ concat (map (\<lambda>x. ''--'' @ NL @ ''--'' @ name (config x) @ NL) others))"
  proof (intro impI, elim conjE)
    assume f: "\<not> exists (files w) parent" "is_dir (files w) (butlast parent)"
      "wipe parent (files w) = files w"
      "list_all (\<lambda>x. type (config x) \<noteq> SUMMARY \<and> type (config x) \<noteq> RFT) others"
    have eq: "write_dict_to_ertobs e w others parent = write_dict_body e w others parent"
      using f(1) by (simp add: write_dict_to_ertobs_body)
    show "write_dict_to_ertobs e w others parent =
        Inr (w\<lparr>files := (files w)
                   (parent \<mapsto> Dir,
                    pjoin parent ''readme.txt'' \<mapsto> File (add_time_stamp e 1 [] ''d'' ''--''),
                    pjoin parent ''ert_observations.obs'' \<mapsto>
                      File (add_time_stamp e 0 [] ''f'' ''--''
                            @ concat (map (\<lambda>x. ''--'' @ NL @ ''--'' @ name (config x) @ NL) others))),
               log := log w @ replicate (length others) unsupported_warning,
               modes := (modes w)(parent \<mapsto> 508)\<rparr>,
             add_time_stamp e 0 [] ''f'' ''--''
             @ concat (map (\<lambda>x. ''--'' @ NL @ ''--'' @ name (config x) @ NL) others))"
      unfolding eq by (rule write_dict_body_unsupported [OF f])
  qed
  have commented: "CHR 0x0A \<notin> set (name (config obs)) \<longrightarrow>
      list_all (\<lambda>l. l = [] \<or> prefix ''--'' l) (split_char (CHR 0x0A) ?h)"
  proof
    assume one_line: "CHR 0x0A \<notin> set (name (config obs))"
    show "list_all (\<lambda>l. l = [] \<or> prefix ''--'' l) (split_char (CHR 0x0A) ?h)"
      unfolding header_lines [OF one_line] by simp
  qed
  from step last errs rets fresh commented show ?thesis by (intro conjI)
qed

theorem unsupported_observation_skipped_witness:
  "type (config ex_other) \<noteq> SUMMARY \<and> type (config ex_other) \<noteq> RFT
   \<and> \<not> exists (files ex_fresh) [''out''] \<and> is_dir (files ex_fresh) (butlast [''out''])
   \<and> wipe [''out''] (files ex_fresh) = files ex_fresh
   \<and> write_dict_to_ertobs ex_env ex_fresh [ex_other] [''out''] =
       Inr (\<lparr>files = [[''out''] \<mapsto> Dir,
                       [''out'', ''readme.txt''] \<mapsto> File (add_time_stamp ex_env 1 [] ''d'' ''--''),
                       [''out'', ''ert_observations.obs''] \<mapsto>
                         File (add_time_stamp ex_env 0 [] ''f'' ''--'' @ ''--'' @ NL @ ''--seismic'' @ NL)],
              log = [unsupported_warning],
              modes = [[''out''] \<mapsto> 508]\<rparr>,
            add_time_stamp ex_env 0 [] ''f'' ''--'' @ ''--'' @ NL @ ''--seismic'' @ NL)
   \<and> CHR 0x0A \<notin> set (name (config ex_other))
   \<and> list_all (\<lambda>l. l = [] \<or> prefix ''--'' l)
        (split_char (CHR 0x0A) (''--'' @ NL @ ''--'' @ name (config ex_other) @ NL))"
proof -
  have ty: "type (config ex_other) \<noteq> SUMMARY" "type (config ex_other) \<noteq> RFT"
    by (simp_all add: ex_other_def ex_config_def)
  have fresh: "\<not> exists (files ex_fresh) [''out'']" "is_dir (files ex_fresh) (butlast [''out''])"
    "wipe [''out''] (files ex_fresh) = files ex_fresh"
    by (simp_all add: ex_fresh_def exists_def is_dir_def wipe_def)
  have all: "list_all (\<lambda>x. type (config x) \<noteq> SUMMARY \<and> type (config x) \<noteq> RFT) [ex_other]"
    using ty by simp
  have one_line: "CHR 0x0A \<notin> set (name (config ex_other))"
    by (simp add: ex_other_def ex_config_def)
  note th = unsupported_observation_skipped [where obs = ex_other and e = ex_env
      and parent = "[''out'']" and w = ex_fresh and others = "[ex_other]", OF ty]
  from th fresh all
  have run: "write_dict_to_ertobs ex_env ex_fresh [ex_other] [''out''] =
       Inr (\<lparr>files = [[''out''] \<mapsto> Dir,
                       [''out'', ''readme.txt''] \<mapsto> File (add_time_stamp ex_env 1 [] ''d'' ''--''),
                       [''out'', ''ert_observations.obs''] \<mapsto>
                         File (add_time_stamp ex_env 0 [] ''f'' ''--'' @ ''--'' @ NL @ ''--seismic'' @ NL)],
              log = [unsupported_warning],
              modes = [[''out''] \<mapsto> 508]\<rparr>,
            add_time_stamp ex_env 0 [] ''f'' ''--'' @ ''--'' @ NL @ ''--seismic'' @ NL)"
    by (simp add: pjoin_names ex_fresh_def ex_other_def ex_config_def)
  from th one_line
  have lines: "list_all (\<lambda>l. l = [] \<or> prefix ''--'' l)
        (split_char (CHR 0x0A) (''--'' @ NL @ ''--'' @ name (config ex_other) @ NL))"
    by blast
  from ty fresh run one_line lines show ?thesis by (intro conjI)
qed


text \<open>
  Without the condition on the name the entry can declare an observation. The
  configured name of \<open>ex_injected\<close> has a second line; the call writes it, and returns
  it, as a line of its own, which is a \<open>SUMMARY_OBSERVATION\<close> declaration, while the
  call on the empty list gives none.
\<close>


theorem unsupported_observation_declares:
  "type (config ex_injected) \<noteq> SUMMARY \<and> type (config ex_injected) \<noteq> RFT
   \<and> write_dict_to_ertobs ex_env ex_fresh [ex_injected] [''out''] =
       Inr (\<lparr>files = [[''out''] \<mapsto> Dir,
                       [''out'', ''readme.txt''] \<mapsto> File (add_time_stamp ex_env 1 [] ''d'' ''--''),
                       [''out'', ''ert_observations.obs''] \<mapsto>
                         File (add_time_stamp ex_env 0 [] ''f'' ''--'' @ ''--'' @ NL @ ''--seismic'' @ NL
                               @ ''SUMMARY_OBSERVATION FOPR_1 {VALUE=1; ERROR=1; DATE=2020-01-01; KEY=FOPR;};'' @ NL)],
              log = [unsupported_warning],
              modes = [[''out''] \<mapsto> 508]\<rparr>,
            add_time_stamp ex_env 0 [] ''f'' ''--'' @ ''--'' @ NL @ ''--seismic'' @ NL
            @ ''SUMMARY_OBSERVATION FOPR_1 {VALUE=1; ERROR=1; DATE=2020-01-01; KEY=FOPR;};'' @ NL)
   \<and> ''SUMMARY_OBSERVATION FOPR_1 {VALUE=1; ERROR=1; DATE=2020-01-01; KEY=FOPR;};''
       \<in> set (split_char (CHR 0x0A)
           (add_time_stamp ex_env 0 [] ''f'' ''--'' @ ''--'' @ NL @ ''--seismic'' @ NL
            @ ''SUMMARY_OBSERVATION FOPR_1 {VALUE=1; ERROR=1; DATE=2020-01-01; KEY=FOPR;};'' @ NL))
   \<and> map_sum id snd (write_dict_to_ertobs ex_env ex_fresh [] [''out'']) =
       Inr (add_time_stamp ex_env 0 [] ''f'' ''--'')
   \<and> \<not> list_ex (prefix ''SUMMARY_OBSERVATION'')
         (split_char (CHR 0x0A) (add_time_stamp ex_env 0 [] ''f'' ''--''))"
proof -
  have ty: "type (config ex_injected) \<noteq> SUMMARY" "type (config ex_injected) \<noteq> RFT"
    by (simp_all add: ex_injected_def ex_config_def)
  have run: "write_dict_to_ertobs ex_env ex_fresh [ex_injected] [''out''] =
       Inr (\<lparr>files = [[''out''] \<mapsto> Dir,
                       [''out'', ''readme.txt''] \<mapsto> File (add_time_stamp ex_env 1 [] ''d'' ''--''),
                       [''out'', ''ert_observations.obs''] \<mapsto>
                         File (add_time_stamp ex_env 0 [] ''f'' ''--'' @ ''--'' @ NL @ ''--seismic'' @ NL
                               @ ''SUMMARY_OBSERVATION FOPR_1 {VALUE=1; ERROR=1; DATE=2020-01-01; KEY=FOPR;};'' @ NL)],
              log = [unsupported_warning],
              modes = [[''out''] \<mapsto> 508]\<rparr>,
            add_time_stamp ex_env 0 [] ''f'' ''--'' @ ''--'' @ NL @ ''--seismic'' @ NL
            @ ''SUMMARY_OBSERVATION FOPR_1 {VALUE=1; ERROR=1; DATE=2020-01-01; KEY=FOPR;};'' @ NL)"
    using ex_fresh_call [OF ty] by (simp add: ex_injected_def ex_config_def)
  have line: "''SUMMARY_OBSERVATION FOPR_1 {VALUE=1; ERROR=1; DATE=2020-01-01; KEY=FOPR;};''
       \<in> set (split_char (CHR 0x0A)
           (add_time_stamp ex_env 0 [] ''f'' ''--'' @ ''--'' @ NL @ ''--seismic'' @ NL
            @ ''SUMMARY_OBSERVATION FOPR_1 {VALUE=1; ERROR=1; DATE=2020-01-01; KEY=FOPR;};'' @ NL))"
    by code_simp
  have fresh: "\<not> exists (files ex_fresh) [''out'']" "is_dir (files ex_fresh) (butlast [''out''])"
    "wipe [''out''] (files ex_fresh) = files ex_fresh"
    by (simp_all add: ex_fresh_def exists_def is_dir_def wipe_def)
  have none: "map_sum id snd (write_dict_to_ertobs ex_env ex_fresh [] [''out'']) =
       Inr (add_time_stamp ex_env 0 [] ''f'' ''--'')"
    using fresh(1) by (simp add: write_dict_to_ertobs_body write_dict_body_fresh [OF fresh])
  have clean: "\<not> list_ex (prefix ''SUMMARY_OBSERVATION'')
         (split_char (CHR 0x0A) (add_time_stamp ex_env 0 [] ''f'' ''--''))"
    by code_simp
  from ty run line none clean show ?thesis by (intro conjI)
qed

section \<open>Recreating the destination directory\<close>

text \<open>
  What the writers touch lies below the directory they are given, when the names they
  join to it are relative and \<open>resolve\<close> leaves a path below the directory below it.
\<close>

lemma wipe_write_well_rft_files:
  assumes "write_well_rft_files e g d prfx el = Inr (g', r)"
    and "prefix p d"
    and "\<And>q. prefix p q \<Longrightarrow> prefix p (resolve e q)"
    and "\<not> prefix ''/'' prfx"
    and "\<not> prefix ''/'' (check_and_fix_str e (well_name el))"
  shows "wipe p g' = wipe p g"
proof (cases "empty (inactivate_rows (inactive e) (data el))")
  case True
  with assms(1) show ?thesis by (simp add: write_well_rft_files_empty)
next
  case False
  let ?o = "resolve e (pjoin d (lower prfx @ ''_'' @ check_and_fix_str e (well_name el) @ ''.obs''))"
  let ?t = "pjoin d (check_and_fix_str e (well_name el) @ ''.txt'')"
  have "prefix p (pjoin d (lower prfx @ ''_'' @ check_and_fix_str e (well_name el) @ ''.obs''))"
    using assms(2) lower_no_slash [OF assms(4)] by (intro prefix_pjoin) simp_all
  then have po: "prefix p ?o" by (rule assms(3))
  have "\<not> prefix ''/'' (check_and_fix_str e (well_name el) @ ''.txt'')"
    using assms(5) by (cases "check_and_fix_str e (well_name el)") auto
  then have pt: "prefix p ?t"
    using assms(2) by (intro prefix_pjoin) simp_all
  from assms(1) False obtain a b g1 where
    w1: "write_text g ?o a = Inr g1" and w2: "write_text g1 ?t b = Inr g'"
    unfolding write_well_rft_files_def Let_def write_csv_with_comment_def
    by (auto split: sum.splits)
  from wipe_write_text [OF w1 po] wipe_write_text [OF w2 pt]
  show ?thesis by simp
qed

lemma wipe_rft_loop:
  assumes "rft_loop e d prfx out els (g, wdl, ro, gd) = Inr (g', wdl', ro', gd')"
    and "prefix p d"
    and "\<And>q. prefix p q \<Longrightarrow> prefix p (resolve e q)"
    and "\<not> prefix ''/'' prfx"
    and "list_all (\<lambda>el. \<not> prefix ''/'' (check_and_fix_str e (well_name el))) els"
  shows "wipe p g' = wipe p g"
  using assms(1) assms(5)
proof (induction els arbitrary: g wdl ro gd)
  case Nil
  then show ?case by simp
next
  case (Cons el els)
  from Cons.prems(1) obtain g1 r where
    w: "write_well_rft_files e g d prfx el = Inr (g1, r)"
    by (auto split: sum.splits)
  from Cons.prems(2) have el: "\<not> prefix ''/'' (check_and_fix_str e (well_name el))"
    and els: "list_all (\<lambda>el. \<not> prefix ''/'' (check_and_fix_str e (well_name el))) els"
    by simp_all
  note step = wipe_write_well_rft_files [OF w assms(2) assms(3) assms(4) el]
  from Cons.prems(1) w obtain wdl1 ro1 gd1 where
    "rft_loop e d prfx out els (g1, wdl1, ro1, gd1) = Inr (g', wdl', ro', gd')"
    by (cases r) auto
  from Cons.IH [OF this els] step show ?case by simp
qed

lemma wipe_write_rft_ertobs:
  assumes "write_rft_ertobs e g obs wdf parent = Inr (g', ro, gd)"
    and "prefix parent wdf"
    and "\<And>q. prefix parent q \<Longrightarrow> prefix parent (resolve e q)"
    and "\<not> prefix ''/'' (subtype_name (config obs))"
    and "list_all (\<lambda>el. \<not> prefix ''/'' (check_and_fix_str e (well_name el)))
           (case obs_data obs of Rft els \<Rightarrow> els | Timeseries els \<Rightarrow> [])"
  shows "wipe parent g' = wipe parent g"
proof -
  from assms(1) obtain g1 els g2 wdl where
    m: "mkdir g (pjoin parent ''rft'') True = Inr g1"
    and els: "rft_elements (obs_data obs) = Inr els"
    and loop: "rft_loop e (pjoin parent ''rft'') (subtype_name (config obs)) ''gendata_rft'' els
        (g1, [], [], []) = Inr (g2, wdl, ro, gd)"
    and wr: "write_text g2 wdf (to_csv (csv_field e) wdl) = Inr g'"
    unfolding write_rft_ertobs_def Let_def write_csv_with_comment_def
    by (auto split: sum.splits)
  have pr: "prefix parent (pjoin parent ''rft'')"
    by (intro prefix_pjoin) simp_all
  have "els = (case obs_data obs of Rft els \<Rightarrow> els | Timeseries els \<Rightarrow> [])"
    using els by (cases "obs_data obs" rule: rft_elements.cases) auto
  with assms(5) have names: "list_all (\<lambda>el. \<not> prefix ''/'' (check_and_fix_str e (well_name el))) els"
    by simp
  from wipe_mkdir [OF m pr]
    wipe_rft_loop [OF loop pr assms(3) assms(4) names]
    wipe_write_text [OF wr assms(2)]
  show ?thesis by simp
qed

lemma wipe_obs_step:
  assumes "obs_step e parent wdf gfn obs (w, grs, os, gd) = Inr (w1, grs1, os1, gd1)"
    and "prefix parent wdf"
    and "\<And>q. prefix parent q \<Longrightarrow> prefix parent (resolve e q)"
    and "\<not> prefix ''/'' (subtype_name (config obs))"
    and "list_all (\<lambda>el. \<not> prefix ''/'' (check_and_fix_str e (well_name el)))
           (case obs_data obs of Rft els \<Rightarrow> els | Timeseries els \<Rightarrow> [])"
  shows "wipe parent (files w1) = wipe parent (files w)"
proof (cases "type (config obs) = RFT")
  case True
  with assms(1) obtain g' ro gd' where
    r: "write_rft_ertobs e (files w) obs wdf parent = Inr (g', ro, gd')" and g': "files w1 = g'"
    unfolding obs_step_def Let_def by (auto split: sum.splits prod.splits if_splits)
  from wipe_write_rft_ertobs [OF r assms(2) assms(3) assms(4) assms(5)] g'
  show ?thesis by simp
next
  case False
  with assms(1) have "files w1 = files w"
    unfolding obs_step_def Let_def by (auto split: sum.splits if_splits)
  then show ?thesis by simp
qed

lemma wipe_obs_loop:
  assumes "obs_loop e parent wdf gfn obs_list st = Inr st1"
    and "prefix parent wdf"
    and "\<And>q. prefix parent q \<Longrightarrow> prefix parent (resolve e q)"
    and "names_relative e obs_list"
  shows "wipe parent (files (fst st1)) = wipe parent (files (fst st))"
  using assms(1) assms(4)
proof (induction obs_list arbitrary: st)
  case Nil
  then show ?case by simp
next
  case (Cons obs rest)
  obtain w grs os gd where st: "st = (w, grs, os, gd)" by (cases st) auto
  from Cons.prems(1) obtain w2 grs2 os2 gd2 where
    s: "obs_step e parent wdf gfn obs (w, grs, os, gd) = Inr (w2, grs2, os2, gd2)"
    and l: "obs_loop e parent wdf gfn rest (w2, grs2, os2, gd2) = Inr st1"
    unfolding st by (auto split: sum.splits)
  from Cons.prems(2) have n1: "\<not> prefix ''/'' (subtype_name (config obs))"
    and n2: "list_all (\<lambda>el. \<not> prefix ''/'' (check_and_fix_str e (well_name el)))
           (case obs_data obs of Rft els \<Rightarrow> els | Timeseries els \<Rightarrow> [])"
    and n3: "names_relative e rest"
    by (simp_all add: names_relative_def)
  from wipe_obs_step [OF s assms(2) assms(3) n1 n2] Cons.IH [OF l n3]
  show ?case unfolding st by simp
qed

text \<open>
  What a returning run of the statements from \<open>parent.mkdir()\<close> on has made: the
  directory, its readme file, the file of the observations, which holds the string
  that is returned, and the permission bits of the directory.
\<close>

lemma write_dict_body_parts:
  assumes "write_dict_body e w obs_list parent = Inr (w1, s)"
  obtains f2 f3 w4 grs gd where
    "mkdir (files w) parent False = Inr f2"
    and "write_text f2 (pjoin parent ''readme.txt'') (add_time_stamp e 1 [] ''d'' ''--'') = Inr f3"
    and "obs_loop e parent (pjoin parent ''rft/well_date_restart.txt'') ''gendata_rft'' obs_list
           (w\<lparr>files := f3\<rparr>, [], add_time_stamp e 0 [] ''f'' ''--'', []) = Inr (w4, grs, s, gd)"
    and "write_dict_finish e parent (w4, grs, s, gd) = Inr (w1, s)"
proof -
  from assms obtain f2 where m: "mkdir (files w) parent False = Inr f2"
    unfolding write_dict_body_finish by (auto split: sum.splits)
  from assms m obtain f3 where
    r: "write_text f2 (pjoin parent ''readme.txt'') (add_time_stamp e 1 [] ''d'' ''--'') = Inr f3"
    unfolding write_dict_body_finish by (auto split: sum.splits)
  from assms obtain st where
    lp: "obs_loop e parent (pjoin parent ''rft/well_date_restart.txt'') ''gendata_rft'' obs_list
           (w\<lparr>files := f3\<rparr>, [], add_time_stamp e 0 [] ''f'' ''--'', []) = Inr st"
    and fin: "write_dict_finish e parent st = Inr (w1, s)"
    unfolding write_dict_body_finish m sum.case r by (auto split: sum.splits)
  obtain w4 grs os gd where st: "st = (w4, grs, os, gd)" by (cases st) auto
  from write_dict_finish_result(1) [OF fin [unfolded st]] have "s = os" .
  with m r lp fin st that show thesis by simp
qed

lemma write_dict_body_made:
  assumes "write_dict_body e w obs_list parent = Inr (w1, s)"
  shows "files w1 parent = Some Dir"
    and "files w1 (pjoin parent ''ert_observations.obs'') = Some (File s)"
    and "is_file (files w1) (pjoin parent ''readme.txt'')"
    and "modes w1 = (modes w)(parent \<mapsto> 508)"
proof -
  from assms obtain f2 f3 w4 grs gd where
    m: "mkdir (files w) parent False = Inr f2"
    and r: "write_text f2 (pjoin parent ''readme.txt'') (add_time_stamp e 1 [] ''d'' ''--'') = Inr f3"
    and lp: "obs_loop e parent (pjoin parent ''rft/well_date_restart.txt'') ''gendata_rft'' obs_list
           (w\<lparr>files := f3\<rparr>, [], add_time_stamp e 0 [] ''f'' ''--'', []) = Inr (w4, grs, s, gd)"
    and fin: "write_dict_finish e parent (w4, grs, s, gd) = Inr (w1, s)"
    by (rule write_dict_body_parts)
  from mkdir_new [OF m] have f2: "f2 parent = Some Dir" by simp
  from kept_write_text [OF r, of parent] f2 have f3: "f3 parent = Some Dir" by simp
  from write_text_Inr [OF r] have f3r: "is_file f3 (pjoin parent ''readme.txt'')"
    by (simp add: is_file_def)
  from kept_obs_loop [OF lp, of parent] kept_obs_loop [OF lp, of "pjoin parent ''readme.txt''"] f3 f3r
  have w4: "files w4 parent = Some Dir" "is_file (files w4) (pjoin parent ''readme.txt'')"
    "modes w4 = modes w"
    by simp_all
  from write_dict_finish_result [OF fin] obtain g where
    lg: "log w1 = log w4" and md: "modes w1 = (modes w4)(parent \<mapsto> 508)"
    and ob: "files w1 (pjoin parent ''ert_observations.obs'') = Some (File s)"
    and fl: "files w1 =
      (if gd = [] then (files w4)(pjoin parent ''ert_observations.obs'' \<mapsto> File s)
       else (files w4)(pjoin parent ''ert_observations.obs'' \<mapsto> File s,
                       pjoin parent ''gen_data_rft_wells.ert'' \<mapsto> File g))"
    by blast
  from fl w4(1) show "files w1 parent = Some Dir"
    by (simp add: pjoin_names)
  from ob show "files w1 (pjoin parent ''ert_observations.obs'') = Some (File s)" .
  from fl w4(2) show "is_file (files w1) (pjoin parent ''readme.txt'')"
    by (simp add: pjoin_names is_file_def)
  from md w4(3) show "modes w1 = (modes w)(parent \<mapsto> 508)" by simp
qed

lemma write_dict_body_frame:
  assumes "write_dict_body e w obs_list parent = Inr (w1, s)"
    and "\<And>q. prefix parent q \<Longrightarrow> prefix parent (resolve e q)"
    and "names_relative e obs_list"
  shows "wipe parent (files w1) = wipe parent (files w)"
proof -
  from assms(1) obtain f2 f3 w4 grs gd where
    m: "mkdir (files w) parent False = Inr f2"
    and r: "write_text f2 (pjoin parent ''readme.txt'') (add_time_stamp e 1 [] ''d'' ''--'') = Inr f3"
    and lp: "obs_loop e parent (pjoin parent ''rft/well_date_restart.txt'') ''gendata_rft'' obs_list
           (w\<lparr>files := f3\<rparr>, [], add_time_stamp e 0 [] ''f'' ''--'', []) = Inr (w4, grs, s, gd)"
    and fin: "write_dict_finish e parent (w4, grs, s, gd) = Inr (w1, s)"
    by (rule write_dict_body_parts)
  have p1: "prefix parent (pjoin parent ''readme.txt'')"
    and p2: "prefix parent (pjoin parent ''rft/well_date_restart.txt'')"
    and p3: "prefix parent (pjoin parent ''ert_observations.obs'')"
    and p4: "prefix parent (pjoin parent ''gen_data_rft_wells.ert'')"
    by (intro prefix_pjoin; simp)+
  from wipe_mkdir [OF m] have f2: "wipe parent f2 = wipe parent (files w)" by simp
  from wipe_write_text [OF r p1] f2 have f3: "wipe parent f3 = wipe parent (files w)" by simp
  from wipe_obs_loop [OF lp p2 assms(2) assms(3)] f3
  have w4: "wipe parent (files w4) = wipe parent (files w)" by simp
  from write_dict_finish_result(5) [OF fin] obtain g where
    fl: "files w1 =
      (if gd = [] then (files w4)(pjoin parent ''ert_observations.obs'' \<mapsto> File s)
       else (files w4)(pjoin parent ''ert_observations.obs'' \<mapsto> File s,
                       pjoin parent ''gen_data_rft_wells.ert'' \<mapsto> File g))"
    by blast
  from fl w4 p3 p4 show ?thesis by (simp add: wipe_upd)
qed

text \<open>
  The call on a world in which \<open>parent\<close> is a directory: the directory and what is
  below it are removed, with their permission bits, and the call goes on as on a world
  that never had them.
\<close>

lemma wipe_wipe [simp]: "wipe p (wipe p g) = wipe p g"
  by (auto simp: wipe_def fun_eq_iff)

lemma wipe_at [simp]: "wipe p g p = None"
  by (simp add: wipe_def)

lemma wipe_above:
  assumes "p \<noteq> []"
  shows "wipe p g (butlast p) = g (butlast p)"
proof -
  have "\<not> prefix p (butlast p)"
    using assms prefix_length_le [of p "butlast p"] by (cases p rule: rev_cases) auto
  then show ?thesis by (simp add: wipe_def)
qed

lemma write_dict_to_ertobs_existing:
  assumes "files w parent = Some Dir" and "parent \<noteq> []" and "parent \<noteq> [''/'']"
  shows "write_dict_to_ertobs e w obs_list parent =
     write_dict_body e
       (w\<lparr>files := wipe parent (files w), log := log w @ [exists_warning parent],
          modes := wipe parent (modes w)\<rparr>) obs_list parent"
  using assms by (simp add: write_dict_to_ertobs_body exists_def rmtree_def is_dir_def)

lemma write_dict_to_ertobs_missing:
  assumes "\<not> exists (files w) parent"
  shows "write_dict_to_ertobs e w obs_list parent = write_dict_body e w obs_list parent"
  using assms by (simp add: write_dict_to_ertobs_body)

lemma write_dict_to_ertobs_root:
  assumes "parent = [] \<or> parent = [''/'']"
  shows "write_dict_to_ertobs e w obs_list parent = Inl OSError"
  using assms by (auto simp: write_dict_to_ertobs_body exists_def rmtree_def is_dir_def)

lemma write_dict_to_ertobs_recreates:
  assumes "is_dir (files w) parent"
  shows "write_dict_to_ertobs e w obs_list parent =
     write_dict_to_ertobs e
       (w\<lparr>files := wipe parent (files w), log := log w @ [exists_warning parent],
          modes := wipe parent (modes w)\<rparr>) obs_list parent"
proof (cases "parent = [] \<or> parent = [''/'']")
  case True
  show ?thesis unfolding write_dict_to_ertobs_root [OF True] ..
next
  case False
  with assms have d: "files w parent = Some Dir" and n: "parent \<noteq> []" "parent \<noteq> [''/'']"
    by (simp_all add: is_dir_def)
  have nex: "\<not> exists (files (w\<lparr>files := wipe parent (files w),
      log := log w @ [exists_warning parent], modes := wipe parent (modes w)\<rparr>)) parent"
    using n by (simp add: exists_def is_dir_def)
  show ?thesis
    unfolding write_dict_to_ertobs_missing [OF nex] write_dict_to_ertobs_existing [OF d n] ..
qed

text \<open>The log is written, never read: with another log the same is done.\<close>

lemma write_dict_body_log:
  assumes "write_dict_body e w obs_list parent = Inr (w1, s)"
  shows "\<exists>l1. write_dict_body e (w\<lparr>log := k\<rparr>) obs_list parent = Inr (w1\<lparr>log := l1\<rparr>, s)"
proof -
  let ?wdf = "pjoin parent ''rft/well_date_restart.txt''"
  let ?stamp = "add_time_stamp e 0 [] ''f'' ''--''"
  from assms obtain f2 f3 w4 grs gd where
    m: "mkdir (files w) parent False = Inr f2"
    and r: "write_text f2 (pjoin parent ''readme.txt'') (add_time_stamp e 1 [] ''d'' ''--'') = Inr f3"
    and lp: "obs_loop e parent ?wdf ''gendata_rft'' obs_list
           (w\<lparr>files := f3\<rparr>, [], ?stamp, []) = Inr (w4, grs, s, gd)"
    and fin: "write_dict_finish e parent (w4, grs, s, gd) = Inr (w1, s)"
    by (rule write_dict_body_parts)
  from lp obs_loop_delta [of e parent ?wdf "''gendata_rft''" obs_list "w\<lparr>files := f3\<rparr>" "[]" ?stamp "[]"]
  obtain w' d where
    base: "obs_loop e parent ?wdf ''gendata_rft'' obs_list
        (w\<lparr>files := f3, log := []\<rparr>, [], [], []) = Inr (w', grs, d, gd)"
    and w4: "w4 = w'\<lparr>log := log w @ log w'\<rparr>" and s: "s = ?stamp @ d"
    by (auto split: sum.splits)
  from base obs_loop_delta [of e parent ?wdf "''gendata_rft''" obs_list "w\<lparr>files := f3, log := k\<rparr>"
      "[]" ?stamp "[]"]
  have lp': "obs_loop e parent ?wdf ''gendata_rft'' obs_list
        (w\<lparr>files := f3, log := k\<rparr>, [], ?stamp, []) = Inr (w'\<lparr>log := k @ log w'\<rparr>, grs, s, gd)"
    by (simp add: s)
  from fin write_dict_finish_insert [where e = e and parent = parent and w = w4
      and k = "k @ log w'" and grs = grs and t = s and gd = gd and s = s]
  have "write_dict_finish e parent (w4\<lparr>log := k @ log w'\<rparr>, grs, s, gd) =
      Inr (w1\<lparr>files := (files w1)(pjoin parent ''ert_observations.obs'' \<mapsto> File s),
              log := k @ log w'\<rparr>, s)"
    by simp
  moreover have "(files w1)(pjoin parent ''ert_observations.obs'' \<mapsto> File s) = files w1"
    using write_dict_finish_result(4) [OF fin] by (simp add: fun_upd_idem)
  moreover have "w4\<lparr>log := k @ log w'\<rparr> = w'\<lparr>log := k @ log w'\<rparr>"
    by (simp add: w4)
  ultimately have fin': "write_dict_finish e parent (w'\<lparr>log := k @ log w'\<rparr>, grs, s, gd) =
      Inr (w1\<lparr>log := k @ log w'\<rparr>, s)"
    by simp
  have fk: "files (w\<lparr>log := k\<rparr>) = files w"
    and wk: "w\<lparr>log := k, files := f3\<rparr> = w\<lparr>files := f3, log := k\<rparr>"
    by simp_all
  have "write_dict_body e (w\<lparr>log := k\<rparr>) obs_list parent = Inr (w1\<lparr>log := k @ log w'\<rparr>, s)"
    unfolding write_dict_body_finish fk m sum.case r wk lp' fin' ..
  then show ?thesis ..
qed

text \<open>
  A second call, on the world that a first call has left, with the same inputs: it
  returns what the first call returned and leaves the store and the permission bits as
  they are.
\<close>

lemma write_dict_to_ertobs_again:
  assumes run: "write_dict_to_ertobs e w obs_list parent = Inr (w1, s)"
    and res: "\<And>q. prefix parent q \<Longrightarrow> prefix parent (resolve e q)"
    and names: "names_relative e obs_list"
    and store: "is_dir (files w) parent
        \<or> (wipe parent (files w) = files w \<and> wipe parent (modes w) = modes w)"
  shows "\<exists>l. write_dict_to_ertobs e w1 obs_list parent = Inr (w1\<lparr>log := l\<rparr>, s)"
proof -
  from run have n: "parent \<noteq> []" "parent \<noteq> [''/'']"
    using write_dict_to_ertobs_root [of parent e w obs_list] by auto
  have "\<exists>w0. write_dict_body e w0 obs_list parent = Inr (w1, s)
      \<and> wipe parent (files w0) = files w0 \<and> wipe parent (modes w0) = modes w0"
  proof (cases "is_dir (files w) parent")
    case True
    with n have d: "files w parent = Some Dir" by (simp add: is_dir_def)
    let ?w0 = "w\<lparr>files := wipe parent (files w), log := log w @ [exists_warning parent],
        modes := wipe parent (modes w)\<rparr>"
    from run have "write_dict_body e ?w0 obs_list parent = Inr (w1, s)"
      unfolding write_dict_to_ertobs_existing [OF d n] .
    moreover have "wipe parent (files ?w0) = files ?w0" by simp
    moreover have "wipe parent (modes ?w0) = modes ?w0" by simp
    ultimately show ?thesis by blast
  next
    case False
    with store have same: "wipe parent (files w) = files w" "wipe parent (modes w) = modes w"
      by simp_all
    have "\<not> exists (files w) parent"
    proof
      assume "exists (files w) parent"
      with False run n show False
        by (simp add: write_dict_to_ertobs_body rmtree_def is_dir_def split: if_splits)
    qed
    with run have "write_dict_body e w obs_list parent = Inr (w1, s)"
      by (simp add: write_dict_to_ertobs_missing)
    with same show ?thesis by blast
  qed
  then obtain w0 where body: "write_dict_body e w0 obs_list parent = Inr (w1, s)"
    and f0: "wipe parent (files w0) = files w0" and m0: "wipe parent (modes w0) = modes w0"
    by blast
  from write_dict_body_frame [OF body res names] f0
  have fr: "wipe parent (files w1) = files w0" by simp
  from write_dict_body_made(1,4) [OF body]
  have d: "files w1 parent = Some Dir" and md: "modes w1 = (modes w0)(parent \<mapsto> 508)" .
  have "wipe parent (modes w1) = wipe parent (modes w0)"
    unfolding md by (rule wipe_upd) simp
  with m0 have mr: "wipe parent (modes w1) = modes w0" by simp
  have start: "w1\<lparr>files := wipe parent (files w1), log := log w1 @ [exists_warning parent],
      modes := wipe parent (modes w1)\<rparr> = w0\<lparr>log := log w1 @ [exists_warning parent]\<rparr>"
    unfolding fr mr by (cases w0, cases w1) simp
  from write_dict_body_log [OF body, of "log w1 @ [exists_warning parent]"] obtain l1 where
    "write_dict_body e (w0\<lparr>log := log w1 @ [exists_warning parent]\<rparr>) obs_list parent =
      Inr (w1\<lparr>log := l1\<rparr>, s)" ..
  then have "write_dict_to_ertobs e w1 obs_list parent = Inr (w1\<lparr>log := l1\<rparr>, s)"
    unfolding write_dict_to_ertobs_existing [OF d n] start .
  then show ?thesis ..
qed

text \<open>
  The set of files that the writers leave does not depend on what the files hold: from
  two stores with the same paths, directories at the same places, each writer raises
  the same error or leaves two such stores again.
\<close>

lemma shape_eqD:
  assumes "shape f = shape f'"
  shows "(f p = Some Dir) = (f' p = Some Dir)" and "(f p = None) = (f' p = None)"
proof -
  from assms have "shape f p = shape f' p" by simp
  then show "(f p = Some Dir) = (f' p = Some Dir)" and "(f p = None) = (f' p = None)"
    by (auto simp: shape_def split: option.splits)
qed

lemma shape_is_dir:
  assumes "shape f = shape f'"
  shows "is_dir f p = is_dir f' p"
  using shape_eqD(1) [OF assms, of p] by (simp add: is_dir_def)

lemma shape_upd:
  "shape f = shape f' \<Longrightarrow> (x = Dir) = (y = Dir) \<Longrightarrow> shape (f(p \<mapsto> x)) = shape (f'(p \<mapsto> y))"
  by (auto simp: shape_def fun_eq_iff)

lemma shape_write_text:
  assumes "shape f = shape f'"
  shows "rel_sum (=) (\<lambda>g g'. shape g = shape g') (write_text f p s) (write_text f' p s')"
  using shape_is_dir [OF assms, of p] shape_is_dir [OF assms, of "butlast p"]
    shape_eqD(2) [OF assms, of "butlast p"] shape_upd [OF assms, of "File s" "File s'" p]
  by (simp add: write_text_def)

lemma shape_mkdir:
  assumes "shape f = shape f'"
  shows "rel_sum (=) (\<lambda>g g'. shape g = shape g') (mkdir f p b) (mkdir f' p b)"
  using shape_is_dir [OF assms, of p] shape_is_dir [OF assms, of "butlast p"]
    shape_eqD(2) [OF assms, of "butlast p"] shape_eqD(2) [OF assms, of p]
    shape_upd [OF assms, of Dir Dir p] assms
  by (simp add: mkdir_def)

lemma shape_wipe:
  "shape f = shape f' \<Longrightarrow> shape (wipe p f) = shape (wipe p f')"
  by (auto simp: shape_def wipe_def fun_eq_iff)

lemma rel_sum_eqE [consumes 1, case_names Left Right]:
  assumes "rel_sum (=) R x y"
  obtains (Left) err where "x = Inl err" and "y = Inl err"
    | (Right) a b where "x = Inr a" and "y = Inr b" and "R a b"
  using assms by (cases rule: rel_sum.cases) auto

lemma rel_sum_case:
  assumes "rel_sum (=) R x y"
    and "\<And>a b. R a b \<Longrightarrow> rel_sum (=) S (k a) (k' b)"
  shows "rel_sum (=) S (case x of Inl err \<Rightarrow> Inl err | Inr a \<Rightarrow> k a)
                       (case y of Inl err \<Rightarrow> Inl err | Inr b \<Rightarrow> k' b)"
  using assms by (cases rule: rel_sum.cases) auto

lemma rel_sum_same:
  "(\<And>a. x = Inr a \<Longrightarrow> rel_sum (=) S (k a) (k' a)) \<Longrightarrow>
   rel_sum (=) S (case x of Inl err \<Rightarrow> Inl err | Inr a \<Rightarrow> k a)
                 (case x of Inl err \<Rightarrow> Inl err | Inr a \<Rightarrow> k' a)"
  by (cases x) auto

lemma shape_write_well_rft_files:
  assumes sh: "shape f = shape f'"
  shows "rel_sum (=) (\<lambda>x y. shape (fst x) = shape (fst y) \<and> snd x = snd y)
           (write_well_rft_files e f d prfx el) (write_well_rft_files e f' d prfx el)"
proof (cases "empty (inactivate_rows (inactive e) (data el))")
  case True
  then show ?thesis by (simp add: write_well_rft_files_empty sh)
next
  case False
  show ?thesis
    unfolding write_well_rft_files_def Let_def write_csv_with_comment_def
    apply (simp only: False if_False)
    apply (rule rel_sum_same)
    apply (rule rel_sum_case [OF shape_write_text [OF sh]])
    apply (rule rel_sum_same)
    apply (rule rel_sum_case [OF shape_write_text])
     apply assumption
    apply simp
    done
qed


lemma shape_rft_loop:
  assumes "shape f = shape f'"
  shows "rel_sum (=) (\<lambda>x y. shape (fst x) = shape (fst y) \<and> snd x = snd y)
           (rft_loop e d prfx out els (f, wdl, ro, gd))
           (rft_loop e d prfx out els (f', wdl, ro, gd))"
  using assms
proof (induction els arbitrary: f f' wdl ro gd)
  case Nil
  then show ?case by simp
next
  case (Cons el els)
  from shape_write_well_rft_files [OF Cons.prems, of e d prfx el]
  show ?case
  proof (cases rule: rel_sum_eqE)
    case (Left err)
    then show ?thesis by simp
  next
    case (Right x y)
    obtain g r where x: "x = (g, r)" by (cases x)
    obtain g' r' where y: "y = (g', r')" by (cases y)
    from Right(3) x y have sh: "shape g = shape g'" and r: "r' = r" by simp_all
    show ?thesis
    proof (cases r)
      case None
      with Right(1,2) x y r Cons.IH [OF sh] show ?thesis by simp
    next
      case (Some p)
      with Right(1,2) x y r Cons.IH [OF sh] show ?thesis by simp
    qed
  qed
qed

lemma shape_write_rft_ertobs:
  assumes sh: "shape f = shape f'"
  shows "rel_sum (=) (\<lambda>x y. shape (fst x) = shape (fst y) \<and> snd x = snd y)
           (write_rft_ertobs e f obs wdf parent) (write_rft_ertobs e f' obs wdf parent)"
proof -
  from shape_mkdir [OF sh, of "pjoin parent ''rft''" True]
  show ?thesis
  proof (cases rule: rel_sum_eqE)
    case (Left err)
    then show ?thesis by (simp add: write_rft_ertobs_def)
  next
    case (Right g g')
    note m = Right
    show ?thesis
    proof (cases "rft_elements (obs_data obs)")
      case (Inl err)
      with m show ?thesis by (simp add: write_rft_ertobs_def)
    next
      case (Inr els)
      note els = Inr
      from shape_rft_loop [OF m(3), of e "pjoin parent ''rft''" "subtype_name (config obs)"
          "''gendata_rft''" els "[]" "[]" "[]"]
      show ?thesis
      proof (cases rule: rel_sum_eqE)
        case (Left err)
        with m els show ?thesis by (simp add: write_rft_ertobs_def)
      next
        case (Right x y)
        obtain g2 wdl ro gd where x: "x = (g2, wdl, ro, gd)" by (cases x)
        obtain g2' wdl' ro' gd' where y: "y = (g2', wdl', ro', gd')" by (cases y)
        from Right(3) x y have sh2: "shape g2 = shape g2'"
          and eq: "wdl' = wdl" "ro' = ro" "gd' = gd" by simp_all
        from shape_write_text [OF sh2, of wdf "to_csv (csv_field e) wdl" "to_csv (csv_field e) wdl"]
        show ?thesis
          using m els Right(1,2) x y eq
          by (cases rule: rel_sum_eqE)
            (simp_all add: write_rft_ertobs_def write_csv_with_comment_def)
      qed
    qed
  qed
qed


lemma shape_obs_step:
  assumes "same_sets st st'"
  shows "rel_sum (=) same_sets (obs_step e parent wdf gfn obs st) (obs_step e parent wdf gfn obs st')"
proof -
  obtain w grs os gd where st: "st = (w, grs, os, gd)" by (cases st)
  obtain w' grs' os' gd' where st': "st' = (w', grs', os', gd')" by (cases st')
  from assms have sh: "shape (files w) = shape (files w')" and lg: "log w' = log w"
    and md: "modes w' = modes w" and eq: "grs' = grs" "gd' = gd"
    by (simp_all add: same_sets_def same_files_def st st')
  show ?thesis
  proof (cases "type (config obs) = RFT")
    case True
    from shape_write_rft_ertobs [OF sh, of e obs wdf parent]
    show ?thesis
      using True sh lg md eq
      by (cases rule: rel_sum_eqE)
        (auto simp: obs_step_def st st' Let_def same_sets_def same_files_def split: prod.splits)
  next
    case False
    then show ?thesis
      using sh lg md eq
      by (auto simp: obs_step_def st st' Let_def same_sets_def same_files_def split: sum.splits)
  qed
qed

lemma shape_obs_loop:
  assumes "same_sets st st'"
  shows "rel_sum (=) same_sets (obs_loop e parent wdf gfn obs_list st)
           (obs_loop e parent wdf gfn obs_list st')"
  using assms
proof (induction obs_list arbitrary: st st')
  case Nil
  then show ?case by simp
next
  case (Cons obs rest)
  from shape_obs_step [OF Cons.prems, of e parent wdf gfn obs]
  show ?case
  proof (cases rule: rel_sum_eqE)
    case (Left err)
    then show ?thesis by simp
  next
    case (Right a b)
    with Cons.IH [OF Right(3)] show ?thesis by simp
  qed
qed

lemma shape_chmod:
  assumes "same_files w w'"
  shows "rel_sum (=) same_files (chmod w p m) (chmod w' p m)"
proof -
  from assms have sh: "shape (files w) = shape (files w')" and md: "modes w = modes w'"
    by (simp_all add: same_files_def)
  from shape_is_dir [OF sh, of p] shape_eqD(2) [OF sh, of p]
  have "exists (files w) p = exists (files w') p"
    by (simp add: exists_def)
  with sh md show ?thesis by (simp add: chmod_def same_files_def)
qed

lemma shape_write_dict_finish:
  assumes "same_sets st st'"
  shows "rel_sum (=) (\<lambda>x y. same_files (fst x) (fst y))
           (write_dict_finish e parent st) (write_dict_finish e' parent st')"
proof -
  obtain w grs os gd where st: "st = (w, grs, os, gd)" by (cases st)
  obtain w' grs' os' gd' where st': "st' = (w', grs', os', gd')" by (cases st')
  from assms have sh: "shape (files w) = shape (files w')" and md: "modes w = modes w'"
    and eq: "grs' = grs" "gd' = gd"
    by (simp_all add: same_sets_def same_files_def st st')
  have last: "rel_sum (=) (\<lambda>x y. same_files (fst x) (fst y))
      (case chmod (w\<lparr>files := g\<rparr>) parent 508 of Inl err \<Rightarrow> Inl err | Inr w7 \<Rightarrow> Inr (w7, os))
      (case chmod (w'\<lparr>files := g'\<rparr>) parent 508 of Inl err \<Rightarrow> Inl err | Inr w7 \<Rightarrow> Inr (w7, os'))"
    if "shape g = shape g'" for g g'
  proof -
    from that md have "same_files (w\<lparr>files := g\<rparr>) (w'\<lparr>files := g'\<rparr>)"
      by (simp add: same_files_def)
    from shape_chmod [OF this, of parent 508] show ?thesis
      by (cases rule: rel_sum_eqE) simp_all
  qed
  from shape_write_text [OF sh, of "pjoin parent ''ert_observations.obs''" os os']
  show ?thesis
  proof (cases rule: rel_sum_eqE)
    case (Left err)
    then show ?thesis by (simp add: write_dict_finish_def st st')
  next
    case (Right f5 f5')
    note o = Right
    show ?thesis
    proof (cases "gd = []")
      case True
      with o eq last [OF o(3)] show ?thesis
        by (simp add: write_dict_finish_def st st')
    next
      case False
      from shape_write_text [OF o(3), of "pjoin parent ''gen_data_rft_wells.ert''"
          "add_time_stamp e 2 (grs @ GENDATA_EXPLAINER @ gd) ''f'' ''--''"
          "add_time_stamp e' 2 (grs @ GENDATA_EXPLAINER @ gd) ''f'' ''--''"]
      show ?thesis
      proof (cases rule: rel_sum_eqE)
        case (Left err)
        with False o eq show ?thesis by (simp add: write_dict_finish_def st st')
      next
        case (Right f6 f6')
        with False o eq last [OF Right(3)] show ?thesis
          by (simp add: write_dict_finish_def st st')
      qed
    qed
  qed
qed

text \<open>The clock is read for the stamps only.\<close>

lemma env_fields:
  "py_str (e\<lparr>now := n\<rparr>) = py_str e"
  "csv_field (e\<lparr>now := n\<rparr>) = csv_field e"
  "to_string (e\<lparr>now := n\<rparr>) = to_string e"
  "inactive (e\<lparr>now := n\<rparr>) = inactive e"
  "check_and_fix_str (e\<lparr>now := n\<rparr>) = check_and_fix_str e"
  "resolve (e\<lparr>now := n\<rparr>) = resolve e"
  by simp_all

lemma env_write_well_rft_files:
  "write_well_rft_files (e\<lparr>now := n\<rparr>) f d prfx el = write_well_rft_files e f d prfx el"
  unfolding write_well_rft_files_def write_csv_with_comment_def env_fields ..

lemma env_create:
  "create_rft_ertobs_str (e\<lparr>now := n\<rparr>) el prfx p = create_rft_ertobs_str e el prfx p"
  "create_rft_gendata_str (e\<lparr>now := n\<rparr>) el prfx out = create_rft_gendata_str e el prfx out"
  unfolding create_rft_ertobs_str_def create_rft_gendata_str_def env_fields by (rule refl)+

lemma env_rft_loop:
  "rft_loop (e\<lparr>now := n\<rparr>) d prfx out els st = rft_loop e d prfx out els st"
proof (induction els arbitrary: st)
  case Nil
  show ?case by simp
next
  case (Cons el els)
  obtain f wdl ro gd where st: "st = (f, wdl, ro, gd)" by (cases st)
  show ?case
    unfolding st rft_loop.simps env_write_well_rft_files env_create Cons.IH ..
qed

lemma env_write_rft_ertobs:
  "write_rft_ertobs (e\<lparr>now := n\<rparr>) f obs wdf parent = write_rft_ertobs e f obs wdf parent"
  unfolding write_rft_ertobs_def env_rft_loop write_csv_with_comment_def env_fields ..

lemma env_timeseries_frames:
  "timeseries_frames (e\<lparr>now := n\<rparr>) els = timeseries_frames e els"
proof (induction els)
  case Nil
  show ?case by simp
next
  case (Cons el els)
  have "ertobs_rows (e\<lparr>now := n\<rparr>) el = ertobs_rows e el"
    unfolding ertobs_rows_def env_fields ..
  then show ?case
    unfolding timeseries_frames.simps Cons.IH by simp
qed

lemma env_obs_step:
  "obs_step (e\<lparr>now := n\<rparr>) parent wdf gfn obs st = obs_step e parent wdf gfn obs st"
  unfolding obs_step_def env_write_rft_ertobs write_timeseries_ertobs_def env_timeseries_frames
    env_fields ..

lemma env_obs_loop:
  "obs_loop (e\<lparr>now := n\<rparr>) parent wdf gfn obs_list st =
     obs_loop e parent wdf gfn obs_list st"
proof (induction obs_list arbitrary: st)
  case Nil
  show ?case by simp
next
  case (Cons obs rest)
  show ?case
    unfolding obs_loop.simps env_obs_step Cons.IH ..
qed


text \<open>
  The whole call at two times, on two worlds with the same set of files.
\<close>

lemma shape_write_dict_body:
  assumes sf: "same_files w w'" and lg: "log w = log w'"
  shows "rel_sum (=) (\<lambda>x y. same_files (fst x) (fst y))
           (write_dict_body e w obs_list parent)
           (write_dict_body (e\<lparr>now := n\<rparr>) w' obs_list parent)"
proof -
  let ?e' = "e\<lparr>now := n\<rparr>"
  let ?wdf = "pjoin parent ''rft/well_date_restart.txt''"
  from sf have sh: "shape (files w) = shape (files w')" and md: "modes w = modes w'"
    by (simp_all add: same_files_def)
  from shape_mkdir [OF sh, of parent False]
  show ?thesis
  proof (cases rule: rel_sum_eqE)
    case (Left err)
    then show ?thesis by (simp add: write_dict_body_finish)
  next
    case (Right f2 f2')
    note m = Right
    from shape_write_text [OF m(3), of "pjoin parent ''readme.txt''"
        "add_time_stamp e 1 [] ''d'' ''--''" "add_time_stamp ?e' 1 [] ''d'' ''--''"]
    show ?thesis
    proof (cases rule: rel_sum_eqE)
      case (Left err)
      then show ?thesis
        unfolding write_dict_body_finish m(1,2) sum.case by simp
    next
      case (Right f3 f3')
      note r = Right
      have "same_sets (w\<lparr>files := f3\<rparr>, [], add_time_stamp e 0 [] ''f'' ''--'', [])
          (w'\<lparr>files := f3'\<rparr>, [], add_time_stamp ?e' 0 [] ''f'' ''--'', [])"
        using r(3) lg md by (simp add: same_sets_def same_files_def)
      from shape_obs_loop [OF this, of e parent ?wdf "''gendata_rft''" obs_list]
      show ?thesis
      proof (cases rule: rel_sum_eqE)
        case (Left err)
        then show ?thesis
          unfolding write_dict_body_finish m(1,2) sum.case r(1,2) env_obs_loop by simp
      next
        case (Right x y)
        from shape_write_dict_finish [OF Right(3), of e parent ?e']
        show ?thesis
          unfolding write_dict_body_finish m(1,2) sum.case r(1,2) env_obs_loop Right(1,2) .
      qed
    qed
  qed
qed

lemma shape_write_dict_to_ertobs:
  assumes sf: "same_files w w'" and lg: "log w = log w'"
  shows "rel_sum (=) (\<lambda>x y. same_files (fst x) (fst y))
           (write_dict_to_ertobs e w obs_list parent)
           (write_dict_to_ertobs (e\<lparr>now := n\<rparr>) w' obs_list parent)"
proof -
  from sf have sh: "shape (files w) = shape (files w')" and md: "modes w = modes w'"
    by (simp_all add: same_files_def)
  from shape_is_dir [OF sh, of parent] shape_eqD [OF sh, of parent]
  have ex: "exists (files w') parent = exists (files w) parent"
    and dir: "(files w' parent = Some Dir) = (files w parent = Some Dir)"
    and non: "(files w' parent = None) = (files w parent = None)"
    by (simp_all add: exists_def)
  show ?thesis
  proof (cases "exists (files w) parent")
    case False
    with ex shape_write_dict_body [OF sf lg, of e obs_list parent n]
    show ?thesis by (simp add: write_dict_to_ertobs_body)
  next
    case True
    show ?thesis
    proof (cases "rmtree (files w) parent")
      case (Inl err)
      with dir non have "rmtree (files w') parent = Inl err"
        by (auto simp: rmtree_def split: if_splits)
      with Inl True ex show ?thesis by (simp add: write_dict_to_ertobs_body)
    next
      case (Inr g)
      then have g: "g = wipe parent (files w)" and d: "files w parent = Some Dir"
        and n: "parent \<noteq> []" "parent \<noteq> [''/'']"
        by (auto simp: rmtree_def split: if_splits)
      from d dir n have r': "rmtree (files w') parent = Inr (wipe parent (files w'))"
        by (simp add: rmtree_def)
      have "same_files
          (w\<lparr>files := wipe parent (files w), log := log w @ [exists_warning parent],
             modes := wipe parent (modes w)\<rparr>)
          (w'\<lparr>files := wipe parent (files w'), log := log w' @ [exists_warning parent],
             modes := wipe parent (modes w')\<rparr>)"
        using shape_wipe [OF sh, of parent] md by (simp add: same_files_def)
      from shape_write_dict_body [OF this, of e obs_list parent n] lg
      show ?thesis
        using True ex Inr r' by (simp add: write_dict_to_ertobs_body g)
    qed
  qed
qed

lemma write_dict_to_ertobs_made:
  assumes "write_dict_to_ertobs e w obs_list parent = Inr (w1, s)"
  shows "files w1 parent = Some Dir"
    and "files w1 (pjoin parent ''ert_observations.obs'') = Some (File s)"
    and "is_file (files w1) (pjoin parent ''readme.txt'')"
    and "modes w1 parent = Some 508"
proof -
  from assms obtain w0 where body: "write_dict_body e w0 obs_list parent = Inr (w1, s)"
    unfolding write_dict_to_ertobs_body by (auto split: sum.splits)
  from write_dict_body_made [OF body]
  show "files w1 parent = Some Dir"
    and "files w1 (pjoin parent ''ert_observations.obs'') = Some (File s)"
    and "is_file (files w1) (pjoin parent ''readme.txt'')"
    and "modes w1 parent = Some 508"
    by simp_all
qed

lemma write_dict_to_ertobs_frame:
  assumes "write_dict_to_ertobs e w obs_list parent = Inr (w1, s)"
    and "\<And>q. prefix parent q \<Longrightarrow> prefix parent (resolve e q)"
    and "names_relative e obs_list"
  shows "wipe parent (files w1) = wipe parent (files w)"
proof -
  from assms(1) obtain w0 where body: "write_dict_body e w0 obs_list parent = Inr (w1, s)"
    and w0: "wipe parent (files w0) = wipe parent (files w)"
    unfolding write_dict_to_ertobs_body
    by (auto simp: rmtree_def split: sum.splits if_splits)
  from write_dict_body_frame [OF body assms(2) assms(3)] w0 show ?thesis by simp
qed

lemma write_dict_to_ertobs_emptied:
  assumes "files w parent = Some Dir" and "parent \<noteq> []" and "parent \<noteq> [''/'']"
    and "is_dir (files w) (butlast parent)"
  shows "write_dict_to_ertobs e w [] parent =
     Inr (w\<lparr>files := (wipe parent (files w))
                (parent \<mapsto> Dir,
                 pjoin parent ''readme.txt'' \<mapsto> File (add_time_stamp e 1 [] ''d'' ''--''),
                 pjoin parent ''ert_observations.obs'' \<mapsto> File (add_time_stamp e 0 [] ''f'' ''--'')),
            log := log w @ [exists_warning parent],
            modes := (wipe parent (modes w))(parent \<mapsto> 508)\<rparr>,
          add_time_stamp e 0 [] ''f'' ''--'')"
proof -
  let ?w0 = "w\<lparr>files := wipe parent (files w), log := log w @ [exists_warning parent],
      modes := wipe parent (modes w)\<rparr>"
  have a: "\<not> exists (files ?w0) parent"
    using assms(2,3) by (simp add: exists_def is_dir_def)
  have b: "is_dir (files ?w0) (butlast parent)"
    using assms(4) wipe_above [OF assms(2), of "files w"] by (simp add: is_dir_def)
  have c: "wipe parent (files ?w0) = files ?w0" by simp
  show ?thesis
    unfolding write_dict_to_ertobs_existing [OF assms(1-3)] write_dict_body_fresh [OF a b c]
    by simp
qed

text \<open>
  C5. \<open>write_dict_to_ertobs\<close> recreates its destination directory. When the directory
  exists, the call is the call on the world from which the directory and everything
  below it have been taken out, so what was in the directory has no part in the result:
  two worlds that agree outside the directory give the same result. A call that returns
  leaves \<open>parent\<close> a directory, with the permission bits \<open>0o774\<close>, that holds the readme
  file and the file \<open>ert_observations.obs\<close>, whose text is the string returned. On the
  empty list of observations and an existing directory the call returns, and the
  directory holds these two files and nothing else, whatever it held. Where the names
  of the files are relative and \<open>resolve\<close> leaves a path below the directory below it,
  the call changes nothing outside the directory, and a second call with the same
  inputs, on the world that the first has left, returns the same string and leaves the
  same store and permission bits; when the second call is made at another time, so that
  the stamps differ, it returns as well and leaves the same set of files. The parts on
  the second call are stated for a first call on a world that has nothing below a
  directory that is not there.
\<close>

theorem write_dict_to_ertobs_recreates_directory:
  "(is_dir (files w) parent \<longrightarrow>
      write_dict_to_ertobs e w obs_list parent =
      write_dict_to_ertobs e
        (w\<lparr>files := wipe parent (files w), log := log w @ [exists_warning parent],
           modes := wipe parent (modes w)\<rparr>) obs_list parent)
   \<and> (is_dir (files w) parent \<and> is_dir (files w') parent
        \<and> wipe parent (files w) = wipe parent (files w') \<and> log w = log w'
        \<and> wipe parent (modes w) = wipe parent (modes w') \<longrightarrow>
      write_dict_to_ertobs e w obs_list parent = write_dict_to_ertobs e w' obs_list parent)
   \<and> (write_dict_to_ertobs e w obs_list parent = Inr (w1, s) \<longrightarrow>
      files w1 parent = Some Dir
      \<and> files w1 (pjoin parent ''ert_observations.obs'') = Some (File s)
      \<and> is_file (files w1) (pjoin parent ''readme.txt'')
      \<and> modes w1 parent = Some 508)
   \<and> (files w parent = Some Dir \<and> parent \<noteq> [] \<and> parent \<noteq> [''/'']
        \<and> is_dir (files w) (butlast parent) \<longrightarrow>
      write_dict_to_ertobs e w [] parent =
        Inr (w\<lparr>files := (wipe parent (files w))
                   (parent \<mapsto> Dir,
                    pjoin parent ''readme.txt'' \<mapsto> File (add_time_stamp e 1 [] ''d'' ''--''),
                    pjoin parent ''ert_observations.obs'' \<mapsto> File (add_time_stamp e 0 [] ''f'' ''--'')),
               log := log w @ [exists_warning parent],
               modes := (wipe parent (modes w))(parent \<mapsto> 508)\<rparr>,
             add_time_stamp e 0 [] ''f'' ''--''))
   \<and> (write_dict_to_ertobs e w obs_list parent = Inr (w1, s)
        \<and> (\<forall>q. prefix parent q \<longrightarrow> prefix parent (resolve e q)) \<and> names_relative e obs_list \<longrightarrow>
      wipe parent (files w1) = wipe parent (files w))
   \<and> (write_dict_to_ertobs e w obs_list parent = Inr (w1, s)
        \<and> (\<forall>q. prefix parent q \<longrightarrow> prefix parent (resolve e q)) \<and> names_relative e obs_list
        \<and> (is_dir (files w) parent
            \<or> wipe parent (files w) = files w \<and> wipe parent (modes w) = modes w) \<longrightarrow>
      (\<exists>l. write_dict_to_ertobs e w1 obs_list parent = Inr (w1\<lparr>log := l\<rparr>, s))
      \<and> (\<exists>w2 s2. write_dict_to_ertobs (e\<lparr>now := n\<rparr>) w1 obs_list parent = Inr (w2, s2)
            \<and> shape (files w2) = shape (files w1) \<and> modes w2 = modes w1))"
proof (intro conjI impI)
  assume "is_dir (files w) parent"
  then show "write_dict_to_ertobs e w obs_list parent =
      write_dict_to_ertobs e
        (w\<lparr>files := wipe parent (files w), log := log w @ [exists_warning parent],
           modes := wipe parent (modes w)\<rparr>) obs_list parent"
    by (rule write_dict_to_ertobs_recreates)
next
  assume a: "is_dir (files w) parent \<and> is_dir (files w') parent
        \<and> wipe parent (files w) = wipe parent (files w') \<and> log w = log w'
        \<and> wipe parent (modes w) = wipe parent (modes w')"
  then have dw: "is_dir (files w) parent" and dw': "is_dir (files w') parent"
    and eqs: "wipe parent (files w) = wipe parent (files w')" "log w = log w'"
      "wipe parent (modes w) = wipe parent (modes w')"
    by simp_all
  have "w\<lparr>files := wipe parent (files w), log := log w @ [exists_warning parent],
        modes := wipe parent (modes w)\<rparr> =
      w'\<lparr>files := wipe parent (files w'), log := log w' @ [exists_warning parent],
        modes := wipe parent (modes w')\<rparr>"
    unfolding eqs by (cases w, cases w') simp
  then show "write_dict_to_ertobs e w obs_list parent = write_dict_to_ertobs e w' obs_list parent"
    unfolding write_dict_to_ertobs_recreates [OF dw, of e obs_list]
      write_dict_to_ertobs_recreates [OF dw', of e obs_list]
    by (rule arg_cong)
next
  assume run: "write_dict_to_ertobs e w obs_list parent = Inr (w1, s)"
  from write_dict_to_ertobs_made [OF run]
  show "files w1 parent = Some Dir"
    and "files w1 (pjoin parent ''ert_observations.obs'') = Some (File s)"
    and "is_file (files w1) (pjoin parent ''readme.txt'')"
    and "modes w1 parent = Some 508" .
next
  assume "files w parent = Some Dir \<and> parent \<noteq> [] \<and> parent \<noteq> [''/'']
        \<and> is_dir (files w) (butlast parent)"
  then have a: "files w parent = Some Dir" "parent \<noteq> []" "parent \<noteq> [''/'']"
    "is_dir (files w) (butlast parent)"
    by simp_all
  show "write_dict_to_ertobs e w [] parent =
        Inr (w\<lparr>files := (wipe parent (files w))
                   (parent \<mapsto> Dir,
                    pjoin parent ''readme.txt'' \<mapsto> File (add_time_stamp e 1 [] ''d'' ''--''),
                    pjoin parent ''ert_observations.obs'' \<mapsto> File (add_time_stamp e 0 [] ''f'' ''--'')),
               log := log w @ [exists_warning parent],
               modes := (wipe parent (modes w))(parent \<mapsto> 508)\<rparr>,
             add_time_stamp e 0 [] ''f'' ''--'')"
    by (rule write_dict_to_ertobs_emptied [OF a])
next
  assume a: "write_dict_to_ertobs e w obs_list parent = Inr (w1, s)
        \<and> (\<forall>q. prefix parent q \<longrightarrow> prefix parent (resolve e q)) \<and> names_relative e obs_list"
  then have run: "write_dict_to_ertobs e w obs_list parent = Inr (w1, s)"
    and res: "\<And>q. prefix parent q \<Longrightarrow> prefix parent (resolve e q)"
    and names: "names_relative e obs_list"
    by simp_all
  from run res names show "wipe parent (files w1) = wipe parent (files w)"
    by (rule write_dict_to_ertobs_frame)
next
  assume a: "write_dict_to_ertobs e w obs_list parent = Inr (w1, s)
        \<and> (\<forall>q. prefix parent q \<longrightarrow> prefix parent (resolve e q)) \<and> names_relative e obs_list
        \<and> (is_dir (files w) parent
            \<or> wipe parent (files w) = files w \<and> wipe parent (modes w) = modes w)"
  then have run: "write_dict_to_ertobs e w obs_list parent = Inr (w1, s)"
    and res: "\<And>q. prefix parent q \<Longrightarrow> prefix parent (resolve e q)"
    and names: "names_relative e obs_list"
    and store: "is_dir (files w) parent
        \<or> (wipe parent (files w) = files w \<and> wipe parent (modes w) = modes w)"
    by simp_all
  from run res names store
  show "\<exists>l. write_dict_to_ertobs e w1 obs_list parent = Inr (w1\<lparr>log := l\<rparr>, s)"
    by (rule write_dict_to_ertobs_again)
next
  assume a: "write_dict_to_ertobs e w obs_list parent = Inr (w1, s)
        \<and> (\<forall>q. prefix parent q \<longrightarrow> prefix parent (resolve e q)) \<and> names_relative e obs_list
        \<and> (is_dir (files w) parent
            \<or> wipe parent (files w) = files w \<and> wipe parent (modes w) = modes w)"
  then have run: "write_dict_to_ertobs e w obs_list parent = Inr (w1, s)"
    and res: "\<And>q. prefix parent q \<Longrightarrow> prefix parent (resolve e q)"
    and names: "names_relative e obs_list"
    and store: "is_dir (files w) parent
        \<or> (wipe parent (files w) = files w \<and> wipe parent (modes w) = modes w)"
    by simp_all
  from run res names store
  have "\<exists>l. write_dict_to_ertobs e w1 obs_list parent = Inr (w1\<lparr>log := l\<rparr>, s)"
    by (rule write_dict_to_ertobs_again)
  then obtain l where
    again: "write_dict_to_ertobs e w1 obs_list parent = Inr (w1\<lparr>log := l\<rparr>, s)" ..
  have "rel_sum (=) (\<lambda>x y. same_files (fst x) (fst y))
      (write_dict_to_ertobs e w1 obs_list parent)
      (write_dict_to_ertobs (e\<lparr>now := n\<rparr>) w1 obs_list parent)"
    by (rule shape_write_dict_to_ertobs) (simp_all add: same_files_def)
  then show "\<exists>w2 s2. write_dict_to_ertobs (e\<lparr>now := n\<rparr>) w1 obs_list parent = Inr (w2, s2)
      \<and> shape (files w2) = shape (files w1) \<and> modes w2 = modes w1"
  proof (cases rule: rel_sum_eqE)
    case (Left err)
    with again show ?thesis by simp
  next
    case (Right x y)
    with again have "write_dict_to_ertobs (e\<lparr>now := n\<rparr>) w1 obs_list parent =
        Inr (fst y, snd y)" and "shape (files (fst y)) = shape (files w1)"
      and "modes (fst y) = modes w1"
      by (auto simp: same_files_def)
    then show ?thesis by blast
  qed
qed

lemma ex_genrft_paths:
  "pjoin [''out''] ''rft/well_date_restart.txt'' = [''out'', ''rft'', ''well_date_restart.txt'']"
  "pjoin [''out''] ''readme.txt'' = [''out'', ''readme.txt'']"
  "pjoin [''out''] ''ert_observations.obs'' = [''out'', ''ert_observations.obs'']"
  "pjoin [''out''] ''gen_data_rft_wells.ert'' = [''out'', ''gen_data_rft_wells.ert'']"
  by (simp_all add: pjoin_def path_parts_def)

lemma ex_first_run:
  "\<exists>w1 s. write_dict_to_ertobs ex_env ex_fresh [ex_obs, ex_other] [''out''] = Inr (w1, s)"
  by (simp add: write_dict_to_ertobs_def exists_def is_dir_def mkdir_def write_text_def Let_def
      chmod_def ex_fresh_def
      ex_genrft_paths ex_rft_folder obs_step_def ex_obs_def ex_other_def ex_config_def
      write_rft_ertobs_def write_genrft_str_def
      write_well_rft_files_def inactivate_rows_def empty_def select_columns_def
      write_csv_with_comment_def lower_PRESSURE ex_paths
      ex_env_def ex_well1_def ex_well2_def ex_frame_def ex_row1_def ex_row2_def
      create_rft_gendata_str_def)

lemma ex_store_wiped: "wipe [''out''] ex_store = Map.empty"
  by (auto simp: wipe_def ex_store_def fun_eq_iff)

lemma wipe_empty: "wipe p Map.empty = Map.empty"
  by (simp add: wipe_def)

theorem write_dict_to_ertobs_recreates_directory_witness:
  "(\<exists>w1 s l w2 s2.
      write_dict_to_ertobs ex_env ex_fresh [ex_obs, ex_other] [''out''] = Inr (w1, s)
      \<and> files w1 [''out''] = Some Dir
      \<and> files w1 [''out'', ''ert_observations.obs''] = Some (File s)
      \<and> is_file (files w1) [''out'', ''readme.txt'']
      \<and> modes w1 [''out''] = Some 508
      \<and> wipe [''out''] (files w1) = Map.empty
      \<and> write_dict_to_ertobs ex_env w1 [ex_obs, ex_other] [''out''] = Inr (w1\<lparr>log := l\<rparr>, s)
      \<and> write_dict_to_ertobs (ex_env\<lparr>now := (\<lambda>k. ''later'')\<rparr>) w1 [ex_obs, ex_other] [''out''] =
          Inr (w2, s2)
      \<and> shape (files w2) = shape (files w1) \<and> modes w2 = modes w1)
   \<and> is_dir ex_store [''out''] \<and> is_dir ex_store (butlast [''out''])
   \<and> write_dict_to_ertobs ex_env (ex_fresh\<lparr>files := ex_store\<rparr>) [ex_obs, ex_other] [''out''] =
       write_dict_to_ertobs ex_env (ex_fresh\<lparr>log := [exists_warning [''out'']]\<rparr>)
         [ex_obs, ex_other] [''out'']
   \<and> write_dict_to_ertobs ex_env (ex_fresh\<lparr>files := ex_store\<rparr>) [] [''out''] =
       Inr (\<lparr>files = [[''out''] \<mapsto> Dir,
                       [''out'', ''readme.txt''] \<mapsto> File (add_time_stamp ex_env 1 [] ''d'' ''--''),
                       [''out'', ''ert_observations.obs''] \<mapsto>
                         File (add_time_stamp ex_env 0 [] ''f'' ''--'')],
              log = [exists_warning [''out'']],
              modes = [[''out''] \<mapsto> 508]\<rparr>,
            add_time_stamp ex_env 0 [] ''f'' ''--'')"
proof -
  obtain w1 s where
    run: "write_dict_to_ertobs ex_env ex_fresh [ex_obs, ex_other] [''out''] = Inr (w1, s)"
    using ex_first_run by blast
  have res: "\<forall>q. prefix [''out''] q \<longrightarrow> prefix [''out''] (resolve ex_env q)"
    by (simp add: ex_env_def)
  have names: "names_relative ex_env [ex_obs, ex_other]"
    by (simp add: names_relative_def ex_obs_def ex_other_def ex_config_def ex_env_def
        ex_well1_def ex_well2_def)
  have store: "wipe [''out''] (files ex_fresh) = files ex_fresh"
    "wipe [''out''] (modes ex_fresh) = modes ex_fresh"
    by (simp_all add: wipe_def ex_fresh_def)
  have fresh: "files ex_fresh = Map.empty" "log ex_fresh = []" "modes ex_fresh = Map.empty"
    by (simp_all add: ex_fresh_def)
  have dir: "is_dir ex_store [''out'']" "is_dir ex_store (butlast [''out''])"
    "ex_store [''out''] = Some Dir"
    by (simp_all add: is_dir_def ex_store_def)
  note thm1 = write_dict_to_ertobs_recreates_directory
    [where w = ex_fresh and parent = "[''out'']" and e = ex_env
      and obs_list = "[ex_obs, ex_other]" and ?w1.0 = w1 and s = s
      and n = "\<lambda>k. ''later''"]
  note thm2 = write_dict_to_ertobs_recreates_directory
    [where w = "ex_fresh\<lparr>files := ex_store\<rparr>" and parent = "[''out'']" and e = ex_env
      and obs_list = "[ex_obs, ex_other]"]
  from thm1 run have made: "files w1 [''out''] = Some Dir"
    "files w1 [''out'', ''ert_observations.obs''] = Some (File s)"
    "is_file (files w1) [''out'', ''readme.txt'']"
    "modes w1 [''out''] = Some 508"
    by (simp_all add: ex_genrft_paths)
  from thm1 run res names have "wipe [''out''] (files w1) = wipe [''out''] (files ex_fresh)"
    by blast
  with store fresh have frame: "wipe [''out''] (files w1) = Map.empty" by simp
  from thm1 run res names store obtain l w2 s2 where
    "write_dict_to_ertobs ex_env w1 [ex_obs, ex_other] [''out''] = Inr (w1\<lparr>log := l\<rparr>, s)"
    and "write_dict_to_ertobs (ex_env\<lparr>now := (\<lambda>k. ''later'')\<rparr>) w1
          [ex_obs, ex_other] [''out''] = Inr (w2, s2)"
    and "shape (files w2) = shape (files w1)" and "modes w2 = modes w1"
    by blast
  with run made frame have first: "\<exists>w1 s l w2 s2.
      write_dict_to_ertobs ex_env ex_fresh [ex_obs, ex_other] [''out''] = Inr (w1, s)
      \<and> files w1 [''out''] = Some Dir
      \<and> files w1 [''out'', ''ert_observations.obs''] = Some (File s)
      \<and> is_file (files w1) [''out'', ''readme.txt'']
      \<and> modes w1 [''out''] = Some 508
      \<and> wipe [''out''] (files w1) = Map.empty
      \<and> write_dict_to_ertobs ex_env w1 [ex_obs, ex_other] [''out''] = Inr (w1\<lparr>log := l\<rparr>, s)
      \<and> write_dict_to_ertobs (ex_env\<lparr>now := (\<lambda>k. ''later'')\<rparr>) w1 [ex_obs, ex_other] [''out''] =
          Inr (w2, s2)
      \<and> shape (files w2) = shape (files w1) \<and> modes w2 = modes w1"
    by blast
  have wiped: "ex_fresh\<lparr>files := wipe [''out''] ex_store, log := [exists_warning [''out'']],
      modes := wipe [''out''] Map.empty\<rparr> = ex_fresh\<lparr>log := [exists_warning [''out'']]\<rparr>"
    by (simp add: ex_store_wiped ex_fresh_def wipe_empty)
  from thm2 dir(1) have
    "write_dict_to_ertobs ex_env (ex_fresh\<lparr>files := ex_store\<rparr>) [ex_obs, ex_other] [''out''] =
       write_dict_to_ertobs ex_env
         (ex_fresh\<lparr>files := wipe [''out''] ex_store, log := [exists_warning [''out'']],
            modes := wipe [''out''] Map.empty\<rparr>)
         [ex_obs, ex_other] [''out'']"
    by (simp add: fresh)
  then have second:
    "write_dict_to_ertobs ex_env (ex_fresh\<lparr>files := ex_store\<rparr>) [ex_obs, ex_other] [''out''] =
       write_dict_to_ertobs ex_env (ex_fresh\<lparr>log := [exists_warning [''out'']]\<rparr>)
         [ex_obs, ex_other] [''out'']"
    unfolding wiped .
  from thm2 dir have third:
    "write_dict_to_ertobs ex_env (ex_fresh\<lparr>files := ex_store\<rparr>) [] [''out''] =
       Inr (\<lparr>files = [[''out''] \<mapsto> Dir,
                       [''out'', ''readme.txt''] \<mapsto> File (add_time_stamp ex_env 1 [] ''d'' ''--''),
                       [''out'', ''ert_observations.obs''] \<mapsto>
                         File (add_time_stamp ex_env 0 [] ''f'' ''--'')],
              log = [exists_warning [''out'']],
              modes = [[''out''] \<mapsto> 508]\<rparr>,
            add_time_stamp ex_env 0 [] ''f'' ''--'')"
    by (simp add: ex_genrft_paths ex_store_wiped ex_fresh_def wipe_empty)
  from first dir(1,2) second third show ?thesis by (intro conjI)
qed

end
